(* ===== verification/Prelude.thy ===== *)
theory Prelude
  imports Main "HOL-Library.Word" "HOL-Library.Multiset"
begin

text \<open>
  Shared foundations of the development: identifiers and instants as the Go code has
  them, 64-bit wrap-around, the state-and-error operations every store and service call
  is written in, with their weakest-precondition style rules, and the comparator sort
  that models \<open>slices.SortFunc\<close>.
\<close>

named_theorems op_defs \<open>definitions of the operation combinators\<close>
named_theorems wp \<open>rules that push a postcondition through an operation\<close>

section \<open>Identifiers, instants, durations\<close>

text \<open>
  A \<open>uuid.UUID\<close> is sixteen bytes, compared byte by byte; as a 128-bit word the unsigned
  order is that comparison. An instant is the number of nanoseconds since the Unix epoch;
  a \<open>time.Duration\<close> is an \<open>int64\<close> of nanoseconds.
\<close>

type_synonym uuid = "128 word"
type_synonym time = int
type_synonym duration = int

abbreviation nil_uuid :: uuid where "nil_uuid \<equiv> 0"

definition zero_time :: time where
  "zero_time = - 62135596800 * 1000000000"

definition second :: duration where "second = 1000000000"
definition minute :: duration where "minute = 60 * second"

text \<open>Two's complement wrap-around of a 64-bit signed integer.\<close>

definition i64 :: "int \<Rightarrow> int" where
  "i64 x = signed_take_bit 63 x"

lemma i64_id: "- (2 ^ 63) \<le> x \<Longrightarrow> x < 2 ^ 63 \<Longrightarrow> i64 x = x"
  unfolding i64_def by (rule signed_take_bit_int_eq_self) auto

lemma i64_range: "- (2 ^ 63) \<le> i64 x" "i64 x < 2 ^ 63"
  using signed_take_bit_int_greater_eq_minus_exp [of 63 x] signed_take_bit_int_less_exp [of 63 x]
  by (simp_all add: i64_def)

text \<open>\<open>time.Time.Sub\<close> saturates at the bounds of \<open>time.Duration\<close>.\<close>

definition time_sub :: "time \<Rightarrow> time \<Rightarrow> duration" where
  "time_sub a b = max (- (2 ^ 63)) (min (2 ^ 63 - 1) (a - b))"

definition unix_micro :: "time \<Rightarrow> int" where
  "unix_micro t = t div 1000"

definition unix_seconds :: "time \<Rightarrow> int" where
  "unix_seconds t = t div second"

section \<open>Operations: state passing with errors\<close>

text \<open>
  An operation takes the world and returns an error or a value together with the new
  world. A Go call \<open>v, err := f(); if err != nil { return err }\<close> is \<open>obind f (\<lambda>v. ...)\<close>.
\<close>

type_synonym ('w, 'e, 'a) operation = "'w \<Rightarrow> ('e + 'a) \<times> 'w"

definition ret :: "'a \<Rightarrow> ('w, 'e, 'a) operation" where
  "ret a w = (Inr a, w)"

definition raise :: "'e \<Rightarrow> ('w, 'e, 'a) operation" where
  "raise e w = (Inl e, w)"

definition obind :: "('w, 'e, 'a) operation \<Rightarrow> ('a \<Rightarrow> ('w, 'e, 'b) operation) \<Rightarrow> ('w, 'e, 'b) operation" where
  "obind m f w = (case m w of (Inl e, w') \<Rightarrow> (Inl e, w') | (Inr a, w') \<Rightarrow> f a w')"

definition osequel :: "('w, 'e, 'a) operation \<Rightarrow> ('w, 'e, 'b) operation \<Rightarrow> ('w, 'e, 'b) operation" where
  "osequel m k = obind m (\<lambda>_. k)"

definition read_world :: "('w \<Rightarrow> 'a) \<Rightarrow> ('w, 'e, 'a) operation" where
  "read_world f w = (Inr (f w), w)"

definition guard_or :: "bool \<Rightarrow> 'e \<Rightarrow> ('w, 'e, unit) operation" where
  "guard_or b e w = (if b then (Inr (), w) else (Inl e, w))"

text \<open>\<open>if err != nil\<close> with a body: run a handler on the error, which may recover.\<close>

definition ocatch :: "('w, 'e, 'a) operation \<Rightarrow> ('e \<Rightarrow> ('w, 'e, 'a) operation) \<Rightarrow> ('w, 'e, 'a) operation" where
  "ocatch m h w = (case m w of (Inl e, w') \<Rightarrow> h e w' | (Inr a, w') \<Rightarrow> (Inr a, w'))"

text \<open>A call whose error is logged and dropped.\<close>

definition best_effort :: "('w, 'e, 'a) operation \<Rightarrow> ('w, 'e, unit) operation" where
  "best_effort m w = (Inr (), snd (m w))"

fun for_each :: "'a list \<Rightarrow> ('a \<Rightarrow> ('w, 'e, 'b) operation) \<Rightarrow> ('w, 'e, unit) operation" where
  "for_each [] f = ret ()"
| "for_each (x # xs) f = osequel (f x) (for_each xs f)"

fun map_each :: "'a list \<Rightarrow> ('a \<Rightarrow> ('w, 'e, 'b) operation) \<Rightarrow> ('w, 'e, 'b list) operation" where
  "map_each [] f = ret []"
| "map_each (x # xs) f = obind (f x) (\<lambda>y. obind (map_each xs f) (\<lambda>ys. ret (y # ys)))"

lemmas [op_defs] = ret_def raise_def obind_def osequel_def read_world_def guard_or_def
  ocatch_def best_effort_def

subsection \<open>Weakest preconditions\<close>

text \<open>
  \<open>post m Q R w\<close>: running \<open>m\<close> from \<open>w\<close> ends in a value satisfying \<open>Q\<close> or in an error
  satisfying \<open>R\<close>, each together with the world it leaves.
\<close>

definition post :: "('w, 'e, 'a) operation \<Rightarrow> ('a \<Rightarrow> 'w \<Rightarrow> bool) \<Rightarrow> ('e \<Rightarrow> 'w \<Rightarrow> bool) \<Rightarrow> 'w \<Rightarrow> bool" where
  "post m Q R w = (case m w of (Inl e, w') \<Rightarrow> R e w' | (Inr a, w') \<Rightarrow> Q a w')"

lemma post_ret [wp, simp]: "post (ret a) Q R = Q a"
  by (simp add: post_def ret_def fun_eq_iff)

lemma post_raise [wp, simp]: "post (raise e) Q R = R e"
  by (simp add: post_def raise_def fun_eq_iff)

lemma post_obind [wp, simp]: "post (obind m f) Q R = post m (\<lambda>a. post (f a) Q R) R"
  by (simp add: post_def obind_def fun_eq_iff split: prod.splits sum.splits)

lemma post_osequel [wp, simp]: "post (osequel m k) Q R = post m (\<lambda>_. post k Q R) R"
  by (simp add: osequel_def)

lemma post_read [wp, simp]: "post (read_world f) Q R = (\<lambda>w. Q (f w) w)"
  by (simp add: post_def read_world_def fun_eq_iff)

lemma post_guard [wp, simp]: "post (guard_or b e) Q R = (if b then Q () else R e)"
  by (simp add: post_def guard_or_def fun_eq_iff)

lemma post_catch [wp, simp]: "post (ocatch m h) Q R = post m Q (\<lambda>e. post (h e) Q R)"
  by (simp add: post_def ocatch_def fun_eq_iff split: prod.splits sum.splits)

lemma post_best_effort [wp, simp]:
  "post (best_effort m) Q R = post m (\<lambda>_. Q ()) (\<lambda>_. Q ())"
  by (simp add: post_def best_effort_def fun_eq_iff split: prod.splits sum.splits)

lemma post_mono:
  assumes "post m Q R w"
    and "\<And>a w'. m w = (Inr a, w') \<Longrightarrow> Q a w' \<Longrightarrow> Q' a w'"
    and "\<And>e w'. m w = (Inl e, w') \<Longrightarrow> R e w' \<Longrightarrow> R' e w'"
  shows "post m Q' R' w"
  using assms by (auto simp: post_def split: prod.splits sum.splits)

lemma post_weaken:
  "post m Q R w \<Longrightarrow> (\<And>a w'. Q a w' \<Longrightarrow> Q' a w') \<Longrightarrow> (\<And>e w'. R e w' \<Longrightarrow> R' e w') \<Longrightarrow> post m Q' R' w"
  by (rule post_mono)

lemma post_InrD: "post m Q R w \<Longrightarrow> m w = (Inr a, w') \<Longrightarrow> Q a w'"
  by (simp add: post_def)

lemma post_InlD: "post m Q R w \<Longrightarrow> m w = (Inl e, w') \<Longrightarrow> R e w'"
  by (simp add: post_def)

lemma postI:
  "(\<And>a w'. m w = (Inr a, w') \<Longrightarrow> Q a w') \<Longrightarrow> (\<And>e w'. m w = (Inl e, w') \<Longrightarrow> R e w') \<Longrightarrow> post m Q R w"
  by (simp add: post_def split: prod.splits sum.splits)

lemma post_map_each:
  assumes "\<And>x w. post (g x) (\<lambda>y _. R x y) (\<lambda>_ _. True) w"
  shows "post (map_each xs g) (\<lambda>ys _. list_all2 R xs ys) (\<lambda>_ _. True) w"
proof (induction xs arbitrary: w)
  case (Cons x xs)
  show ?case
    by simp (rule post_weaken [OF assms], auto intro!: post_weaken [OF Cons.IH])
qed simp

text \<open>\<open>keeps P m\<close>: the operation keeps \<open>P\<close> of the world on every path.\<close>

definition keeps :: "('w \<Rightarrow> bool) \<Rightarrow> ('w, 'e, 'a) operation \<Rightarrow> bool" where
  "keeps P m \<longleftrightarrow> (\<forall>w. P w \<longrightarrow> P (snd (m w)))"

lemma keepsI: "(\<And>w. P w \<Longrightarrow> P (snd (m w))) \<Longrightarrow> keeps P m"
  by (simp add: keeps_def)

lemma keepsD: "keeps P m \<Longrightarrow> P w \<Longrightarrow> m w = (r, w') \<Longrightarrow> P w'"
  unfolding keeps_def by (metis snd_conv)

lemma keeps_post: "keeps P m \<longleftrightarrow> (\<forall>w. P w \<longrightarrow> post m (\<lambda>_. P) (\<lambda>_. P) w)"
  by (auto simp: keeps_def post_def prod.case_eq_if split: sum.splits)

named_theorems keep_rules \<open>compositional rules for keeps\<close>

lemma keeps_ret [keep_rules]: "keeps P (ret a)"
  by (simp add: keeps_post)

lemma keeps_raise [keep_rules]: "keeps P (raise e)"
  by (simp add: keeps_post)

lemma keeps_read [keep_rules]: "keeps P (read_world f)"
  by (simp add: keeps_post)

lemma keeps_guard [keep_rules]: "keeps P (guard_or b e)"
  by (simp add: keeps_post)

lemma keeps_bind [keep_rules]:
  assumes "keeps P m" "\<And>a. keeps P (f a)"
  shows "keeps P (obind m f)"
proof -
  have "post m (\<lambda>a. post (f a) (\<lambda>_. P) (\<lambda>_. P)) (\<lambda>_. P) w" if "P w" for w
    by (rule post_weaken [of m "\<lambda>_. P" "\<lambda>_. P"]) (use assms that in \<open>auto simp: keeps_post\<close>)
  then show ?thesis by (simp add: keeps_post)
qed

lemma keeps_sequel [keep_rules]: "keeps P m \<Longrightarrow> keeps P k \<Longrightarrow> keeps P (osequel m k)"
  unfolding osequel_def by (rule keeps_bind)

lemma keeps_best_effort [keep_rules]: "keeps P m \<Longrightarrow> keeps P (best_effort m)"
  by (simp add: keeps_def best_effort_def)

lemma keeps_catch [keep_rules]:
  assumes "keeps P m" "\<And>e. keeps P (h e)"
  shows "keeps P (ocatch m h)"
proof -
  have "post m (\<lambda>_. P) (\<lambda>e. post (h e) (\<lambda>_. P) (\<lambda>_. P)) w" if "P w" for w
    by (rule post_weaken [of m "\<lambda>_. P" "\<lambda>_. P"]) (use assms that in \<open>auto simp: keeps_post\<close>)
  then show ?thesis by (simp add: keeps_post)
qed

lemma keeps_if [keep_rules]:
  "(b \<Longrightarrow> keeps P m) \<Longrightarrow> (\<not> b \<Longrightarrow> keeps P k) \<Longrightarrow> keeps P (if b then m else k)"
  by simp

lemma keeps_option [keep_rules]:
  "keeps P m \<Longrightarrow> (\<And>a. keeps P (f a)) \<Longrightarrow> keeps P (case x of None \<Rightarrow> m | Some a \<Rightarrow> f a)"
  by (cases x) simp_all

lemma keeps_for_each [keep_rules]: "(\<And>x. keeps P (f x)) \<Longrightarrow> keeps P (for_each xs f)"
  by (induction xs) (auto intro: keep_rules)

lemma keeps_map_each [keep_rules]: "(\<And>x. keeps P (f x)) \<Longrightarrow> keeps P (map_each xs f)"
  by (induction xs) (auto intro!: keep_rules)

section \<open>Comparator sort\<close>

text \<open>
  \<open>slices.SortFunc\<close> with a comparison function returning a negative, zero or positive
  integer. Go leaves the order of elements that compare equal unspecified; the model
  keeps their input order, and the properties about sorting are stated so that ties do
  not matter.
\<close>

fun insert_func :: "('a \<Rightarrow> 'a \<Rightarrow> int) \<Rightarrow> 'a \<Rightarrow> 'a list \<Rightarrow> 'a list" where
  "insert_func cmp x [] = [x]"
| "insert_func cmp x (y # ys) = (if cmp x y \<le> 0 then x # y # ys else y # insert_func cmp x ys)"

definition sort_func :: "('a \<Rightarrow> 'a \<Rightarrow> int) \<Rightarrow> 'a list \<Rightarrow> 'a list" where
  "sort_func cmp xs = foldr (insert_func cmp) xs []"

lemma sort_func_simps [simp]:
  "sort_func cmp [] = []"
  "sort_func cmp (x # xs) = insert_func cmp x (sort_func cmp xs)"
  by (simp_all add: sort_func_def)

lemma mset_insert_func [simp]: "mset (insert_func cmp x xs) = add_mset x (mset xs)"
  by (induction xs) auto

lemma mset_sort_func [simp]: "mset (sort_func cmp xs) = mset xs"
  by (induction xs) auto

lemma set_sort_func [simp]: "set (sort_func cmp xs) = set xs"
  by (metis mset_sort_func set_mset_mset)

lemma length_sort_func [simp]: "length (sort_func cmp xs) = length xs"
  by (metis mset_sort_func size_mset)

text \<open>What a comparison function has to satisfy, as the documentation of \<open>SortFunc\<close> asks.\<close>

locale comparator =
  fixes cmp :: "'a \<Rightarrow> 'a \<Rightarrow> int"
  assumes cmp_swap: "cmp x y \<le> 0 \<longleftrightarrow> 0 \<le> cmp y x"
    and cmp_trans: "cmp x y \<le> 0 \<Longrightarrow> cmp y z \<le> 0 \<Longrightarrow> cmp x z \<le> 0"
begin

lemma cmp_total: "\<not> cmp x y \<le> 0 \<Longrightarrow> cmp y x \<le> 0"
  using cmp_swap [of x y] cmp_swap [of y x] by linarith

lemma set_insert_func: "set (insert_func cmp x xs) = insert x (set xs)"
  by (induction xs) auto

lemma sorted_insert_func:
  "sorted_wrt (\<lambda>a b. cmp a b \<le> 0) xs \<Longrightarrow> sorted_wrt (\<lambda>a b. cmp a b \<le> 0) (insert_func cmp x xs)"
proof (induction xs)
  case (Cons y ys)
  show ?case
  proof (cases "cmp x y \<le> 0")
    case True
    with Cons.prems show ?thesis using cmp_trans by auto
  next
    case False
    with Cons show ?thesis using cmp_total by (auto simp: set_insert_func)
  qed
qed simp

lemma sorted_sort_func: "sorted_wrt (\<lambda>a b. cmp a b \<le> 0) (sort_func cmp xs)"
  by (induction xs) (simp_all add: sorted_insert_func)

lemma sorted_unique:
  assumes "sorted_wrt (\<lambda>a b. cmp a b \<le> 0) xs" "sorted_wrt (\<lambda>a b. cmp a b \<le> 0) ys"
    and "mset xs = mset ys"
    and inj: "\<And>a b. a \<in> set xs \<Longrightarrow> b \<in> set xs \<Longrightarrow> cmp a b = 0 \<Longrightarrow> a = b"
  shows "xs = ys"
  using assms
proof (induction xs arbitrary: ys)
  case Nil
  then show ?case by simp
next
  case (Cons x xs)
  then obtain y ys' where ys: "ys = y # ys'" by (cases ys) auto
  have sets: "set (x # xs) = set ys" using Cons.prems(3) by (metis set_mset_mset)
  have "cmp x y \<le> 0" "cmp y x \<le> 0"
    using Cons.prems(1,2) sets ys cmp_total [of x x] by (auto; fastforce)+
  then have "cmp x y = 0" using cmp_swap [of y x] by linarith
  then have "x = y" using Cons.prems(4) sets ys by (metis list.set_intros(1))
  with Cons.prems ys have "xs = ys'" by (intro Cons.IH) auto
  with ys \<open>x = y\<close> show ?case by simp
qed

text \<open>Sorting does not depend on the input order when equal comparison means equality.\<close>

lemma sort_func_perm:
  assumes "mset xs = mset ys"
    and "\<And>a b. a \<in> set xs \<Longrightarrow> b \<in> set xs \<Longrightarrow> cmp a b = 0 \<Longrightarrow> a = b"
  shows "sort_func cmp xs = sort_func cmp ys"
  by (rule sorted_unique) (use assms in \<open>auto simp: sorted_sort_func\<close>)

end

text \<open>\<open>bytes.Compare\<close> on identifiers, \<open>time.Compare\<close> and \<open>cmp.Compare\<close> on numbers.\<close>

definition ord_cmp :: "'a::linorder \<Rightarrow> 'a \<Rightarrow> int" where
  "ord_cmp a b = (if a < b then -1 else if b < a then 1 else 0)"

lemma ord_cmp_le [simp]: "ord_cmp a b \<le> 0 \<longleftrightarrow> a \<le> b"
  by (auto simp: ord_cmp_def)

lemma ord_cmp_ge [simp]: "0 \<le> ord_cmp a b \<longleftrightarrow> b \<le> a"
  by (auto simp: ord_cmp_def)

lemma ord_cmp_0 [simp]: "ord_cmp a b = 0 \<longleftrightarrow> a = b"
  by (auto simp: ord_cmp_def)

interpretation ord: comparator "ord_cmp :: 'a::linorder \<Rightarrow> 'a \<Rightarrow> int"
  by unfold_locales auto

interpretation ord_on: comparator "\<lambda>a b. ord_cmp (f a) (f b)" for f :: "'a \<Rightarrow> 'b::linorder"
  by unfold_locales auto

section \<open>Lists as Go slices\<close>

text \<open>\<open>lo.Uniq\<close> keeps the first occurrence of every element.\<close>

fun uniq :: "'a list \<Rightarrow> 'a list" where
  "uniq [] = []"
| "uniq (x # xs) = x # filter (\<lambda>y. y \<noteq> x) (uniq xs)"

lemma set_uniq [simp]: "set (uniq xs) = set xs"
  by (induction xs) auto

lemma distinct_uniq [simp]: "distinct (uniq xs)"
  by (induction xs) auto

text \<open>A multi-row insert numbers its rows; what does not depend on the number is a plain map.\<close>

lemma map_indexed:
  assumes "\<And>i x. g (f i x) = h x"
  shows "map g (map (\<lambda>(i, x). f i x) (zip [0..<length xs] xs)) = map h xs"
  by (rule nth_equalityI) (simp_all add: assms)

lemma set_map_indexed:
  "(\<And>i x. P (f i x)) \<Longrightarrow> r \<in> set (map (\<lambda>(i, x). f i x) (zip [0..<length xs] xs)) \<Longrightarrow> P r"
  by auto

lemma filter_all: "(\<And>x. x \<in> set xs \<Longrightarrow> P x) \<Longrightarrow> filter P xs = xs"
  by (simp add: filter_id_conv)

lemma filter_none: "(\<And>x. x \<in> set xs \<Longrightarrow> \<not> P x) \<Longrightarrow> filter P xs = []"
  by (simp add: filter_empty_conv)

lemma uniq_append: "uniq (xs @ ys) = uniq xs @ filter (\<lambda>y. y \<notin> set xs) (uniq ys)"
  by (induction xs) (auto simp: conj_commute intro: filter_cong)

lemma uniq_constant: "xs \<noteq> [] \<Longrightarrow> (\<And>x. x \<in> set xs \<Longrightarrow> x = k) \<Longrightarrow> uniq xs = [k]"
  by (cases xs) (simp_all add: filter_empty_conv, metis)

text \<open>Grouping rows by key gives back the blocks they were written in.\<close>

lemma uniq_blocks:
  assumes "\<And>c. c \<in> set cs \<Longrightarrow> f c \<noteq> []" "\<And>c x. c \<in> set cs \<Longrightarrow> x \<in> set (f c) \<Longrightarrow> key x = k c"
    and "distinct (map k cs)"
  shows "uniq (map key (concat (map f cs))) = map k cs"
  using assms
proof (induction cs)
  case (Cons c cs)
  have "uniq (map key (f c)) = [k c]" using Cons.prems by (intro uniq_constant) auto
  moreover have "uniq (map key (concat (map f cs))) = map k cs" using Cons.prems by (intro Cons.IH) auto
  moreover have "key ` set (f c) = {k c}" using Cons.prems(1,2) [of c] by (auto simp: neq_Nil_conv)
  ultimately show ?case using Cons.prems(3) by (simp add: uniq_append) (auto intro!: filter_all)
qed simp

lemma filter_block:
  assumes "\<And>c x. c \<in> set cs \<Longrightarrow> x \<in> set (f c) \<Longrightarrow> key x = k c" "distinct (map k cs)" "c \<in> set cs"
  shows "filter (\<lambda>x. key x = k c) (concat (map f cs)) = f c"
  using assms
proof (induction cs)
  case (Cons a cs)
  show ?case
  proof (cases "a = c")
    case True
    have "filter (\<lambda>x. key x = k c) (concat (map f cs)) = []"
    proof (rule filter_none)
      fix x assume "x \<in> set (concat (map f cs))"
      then obtain b where "b \<in> set cs" "x \<in> set (f b)" by auto
      then show "key x \<noteq> k c" using Cons.prems(1) [of b x] Cons.prems(2) True by (auto simp: image_iff)
    qed
    moreover have "filter (\<lambda>x. key x = k c) (f c) = f c" using Cons.prems True by (intro filter_all) auto
    ultimately show ?thesis using True by simp
  next
    case False
    then have "k a \<noteq> k c" using Cons.prems(2,3) by force
    then have "filter (\<lambda>x. key x = k c) (f a) = []"
      using Cons.prems(1) [of a] by (intro filter_none) (metis list.set_intros(1))
    with False show ?thesis using Cons by auto
  qed
qed simp

end
