(* ===== verification/Entity.thy ===== *)
theory Entity
  imports Prelude
begin

text \<open>
  The domain entities of \<open>internal/entity\<close>: statuses and their transition tables,
  periods, maintenances and their steps, users and roles, the commands the services take
  and the errors of \<open>internal/apperr\<close>. A Go string enum is a datatype with the source's
  values; the empty string, Go's zero value, is the constructor ending in \<open>Unset\<close> where
  the code can meet it.
\<close>

section \<open>Statuses\<close>

datatype maint_status =
    StatusDraft | StatusPlanned | StatusInProgress | StatusCancelled | StatusCompleted

definition allowed_maint_transitions :: "maint_status \<Rightarrow> maint_status list" where
  "allowed_maint_transitions s = (case s of
     StatusDraft \<Rightarrow> [StatusPlanned, StatusCancelled]
   | StatusPlanned \<Rightarrow> [StatusInProgress, StatusCancelled]
   | StatusInProgress \<Rightarrow> [StatusCompleted, StatusCancelled]
   | StatusCancelled \<Rightarrow> []
   | StatusCompleted \<Rightarrow> [])"

definition CanMaintTransition :: "maint_status \<Rightarrow> maint_status \<Rightarrow> bool" where
  "CanMaintTransition from to = (to \<in> set (allowed_maint_transitions from))"

definition IsTerminal :: "maint_status \<Rightarrow> bool" where
  "IsTerminal s = (s = StatusCancelled \<or> s = StatusCompleted)"

datatype step_status = StepPlanned | StepStarted | StepCompleted | StepCanceled

definition StepIsTerminal :: "step_status \<Rightarrow> bool" where
  "StepIsTerminal s = (s = StepCompleted \<or> s = StepCanceled)"

definition allowed_step_transitions :: "step_status \<Rightarrow> step_status list" where
  "allowed_step_transitions s = (case s of
     StepPlanned \<Rightarrow> [StepStarted]
   | StepStarted \<Rightarrow> [StepCompleted, StepCanceled]
   | StepCompleted \<Rightarrow> []
   | StepCanceled \<Rightarrow> [])"

definition CanMainStepTransition :: "step_status \<Rightarrow> step_status \<Rightarrow> bool" where
  "CanMainStepTransition from to = (to \<in> set (allowed_step_transitions from))"

text \<open>
  What both status tables promise: a hand-listed set of terminal statuses from which the
  table allows nothing, and a rank that every allowed transition raises. The properties
  of a lifecycle follow from these laws alone.
\<close>

locale status_machine =
  fixes can :: "'s \<Rightarrow> 's \<Rightarrow> bool"
    and terminal :: "'s \<Rightarrow> bool"
    and rank :: "'s \<Rightarrow> nat"
    and max_rank :: nat
  assumes terminal_stuck: "terminal s \<Longrightarrow> \<not> can s t"
    and progress: "\<not> terminal s \<Longrightarrow> \<exists>t. can s t"
    and rank_less: "can s t \<Longrightarrow> rank s < rank t"
    and rank_bound: "rank s \<le> max_rank"
begin

lemma terminal_iff: "terminal s \<longleftrightarrow> (\<forall>t. \<not> can s t)"
  using terminal_stuck progress by blast

lemma irrefl: "\<not> can s s"
  using rank_less by blast

lemma rank_star: "can\<^sup>*\<^sup>* s t \<Longrightarrow> rank s \<le> rank t"
  by (induction rule: rtranclp_induct) (auto dest: rank_less)

lemma terminal_absorbing: "can\<^sup>*\<^sup>* s t \<Longrightarrow> terminal s \<Longrightarrow> t = s"
  by (metis converse_rtranclpE terminal_stuck)

lemma acyclic_runs: "can\<^sup>*\<^sup>* s t \<Longrightarrow> can\<^sup>*\<^sup>* t s \<Longrightarrow> s = t"
  by (metis converse_rtranclpE leD le_trans rank_less rank_star not_le)

lemma run_length: "(can ^^ n) s t \<Longrightarrow> n \<le> max_rank"
proof -
  have "(can ^^ n) s t \<Longrightarrow> rank s + n \<le> rank t"
  proof (induction n arbitrary: t)
    case (Suc n)
    then obtain u where "(can ^^ n) s u" "can u t" by auto
    with Suc.IH [of u] rank_less [of u t] show ?case by simp
  qed simp
  then show "(can ^^ n) s t \<Longrightarrow> n \<le> max_rank"
    using rank_bound [of t] by fastforce
qed

lemma terminates: "\<exists>t. can\<^sup>*\<^sup>* s t \<and> terminal t"
proof (induction "max_rank - rank s" arbitrary: s rule: less_induct)
  case less
  show ?case
  proof (cases "terminal s")
    case False
    then obtain t where st: "can s t" using progress by blast
    then have "max_rank - rank t < max_rank - rank s"
      using rank_less [OF st] rank_bound [of t] by linarith
    from less [OF this] st show ?thesis by (meson converse_rtranclp_into_rtranclp)
  qed blast
qed

end

definition maint_rank :: "maint_status \<Rightarrow> nat" where
  "maint_rank s = (case s of StatusDraft \<Rightarrow> 0 | StatusPlanned \<Rightarrow> 1 | StatusInProgress \<Rightarrow> 2
     | StatusCancelled \<Rightarrow> 3 | StatusCompleted \<Rightarrow> 3)"

definition step_rank :: "step_status \<Rightarrow> nat" where
  "step_rank s = (case s of StepPlanned \<Rightarrow> 0 | StepStarted \<Rightarrow> 1 | StepCompleted \<Rightarrow> 2 | StepCanceled \<Rightarrow> 2)"

lemmas maint_transition_defs = CanMaintTransition_def allowed_maint_transitions_def
  IsTerminal_def maint_rank_def
lemmas step_transition_defs = CanMainStepTransition_def allowed_step_transitions_def
  StepIsTerminal_def step_rank_def

interpretation maint_sm: status_machine CanMaintTransition IsTerminal maint_rank 3
proof unfold_locales
  show "IsTerminal s \<Longrightarrow> \<not> CanMaintTransition s t" for s t
    by (cases s) (auto simp: maint_transition_defs)
  show "\<not> IsTerminal s \<Longrightarrow> \<exists>t. CanMaintTransition s t" for s
    by (cases s) (auto simp: maint_transition_defs)
  show "CanMaintTransition s t \<Longrightarrow> maint_rank s < maint_rank t" for s t
    by (cases s) (auto simp: maint_transition_defs)
  show "maint_rank s \<le> 3" for s by (cases s) (auto simp: maint_transition_defs)
qed

interpretation step_sm: status_machine CanMainStepTransition StepIsTerminal step_rank 2
proof unfold_locales
  show "StepIsTerminal s \<Longrightarrow> \<not> CanMainStepTransition s t" for s t
    by (cases s) (auto simp: step_transition_defs)
  show "\<not> StepIsTerminal s \<Longrightarrow> \<exists>t. CanMainStepTransition s t" for s
    by (cases s) (auto simp: step_transition_defs)
  show "CanMainStepTransition s t \<Longrightarrow> step_rank s < step_rank t" for s t
    by (cases s) (auto simp: step_transition_defs)
  show "step_rank s \<le> 2" for s by (cases s) (auto simp: step_transition_defs)
qed

section \<open>Periods\<close>

record period =
  p_start :: time
  p_end :: "time option"

definition NewPeriod :: "time \<Rightarrow> time \<Rightarrow> period" where
  "NewPeriod s e = \<lparr>p_start = s, p_end = Some e\<rparr>"

definition NewOpenEndedPeriod :: "time \<Rightarrow> period" where
  "NewOpenEndedPeriod s = \<lparr>p_start = s, p_end = None\<rparr>"

definition IsOpen :: "period \<Rightarrow> bool" where
  "IsOpen p = (p_end p = None)"

text \<open>\<open>Duration\<close> dereferences the end: on an open period it panics, here \<open>None\<close>.\<close>

definition Duration :: "period \<Rightarrow> duration option" where
  "Duration p = map_option (\<lambda>e. time_sub e (p_start p)) (p_end p)"

section \<open>Maintenances\<close>

datatype maint_scope = ScopeGlobal | ScopeResources | ScopeUnset
datatype maint_impact = ImpactNone | ImpactPartial | ImpactFull | ImpactUnset
datatype cancel_reason = ReasonConflict | ReasonIncident | ReasonBusinessDecision
  | ReasonRescheduled | ReasonMistake | ReasonNotStarted | ReasonUnset

record maint_step =
  s_id :: uuid
  s_order :: int
  s_description :: string
  s_rollback :: string
  s_duration_minutes :: int
  s_status :: step_status
  s_actual_started_at :: "time option"
  s_actual_completed_at :: "time option"
  s_created_at :: time
  s_updated_at :: "time option"

record message_ref = mr_message_id :: string

record notify_target =
  nt_id :: uuid
  nt_maint_id :: uuid
  nt_channel_id :: uuid
  nt_created_at :: time
  nt_transport :: string
  nt_transport_channel_id :: string
  nt_channel_name :: string
  nt_root_ref :: "message_ref option"
  nt_root_channel :: string

record deferred_notification =
  dn_id :: uuid
  dn_maint_id :: uuid
  dn_fire_at :: time
  dn_goque_task_id :: "uuid option"

definition IsScheduled :: "deferred_notification \<Rightarrow> bool" where
  "IsScheduled n = (dn_goque_task_id n \<noteq> None \<and> dn_goque_task_id n \<noteq> Some nil_uuid)"

text \<open>
  \<open>ActualPeriod\<close> is a pointer. It points at a period of its own or, after
  \<open>cmp.Or(maint.ActualPeriod, &maint.PlannedPeriod)\<close> in \<open>CompleteMaint\<close>, at the planned
  period of the same struct, so that a write through it changes the plan as well.
\<close>

datatype period_ptr = OwnPeriod period | PlannedAlias

record maintenance =
  m_id :: uuid
  m_title :: string
  m_description :: string
  m_planned :: period
  m_actual :: "period_ptr option"
  m_resources :: "uuid list"
  m_scope :: maint_scope
  m_impact :: maint_impact
  m_status :: maint_status
  m_cancel_reason :: cancel_reason
  m_cancel_comment :: string
  m_created_by :: uuid
  m_created_at :: time
  m_updated_at :: "time option"
  m_steps :: "maint_step list"
  m_notify_targets :: "notify_target list"
  m_deferred :: "deferred_notification list"
  m_mentions :: "uuid list"
  m_approver :: uuid
  m_task_url :: string

definition deref_actual :: "maintenance \<Rightarrow> period option" where
  "deref_actual m = (case m_actual m of None \<Rightarrow> None
     | Some (OwnPeriod p) \<Rightarrow> Some p
     | Some PlannedAlias \<Rightarrow> Some (m_planned m))"

definition Normalize :: "maintenance \<Rightarrow> maintenance" where
  "Normalize m = (if m_scope m = ScopeGlobal then m\<lparr>m_resources := []\<rparr> else m)"

definition set_actual_end :: "maintenance \<Rightarrow> time \<Rightarrow> maintenance" where
  "set_actual_end m e = (case m_actual m of None \<Rightarrow> m
     | Some (OwnPeriod p) \<Rightarrow> m\<lparr>m_actual := Some (OwnPeriod (p\<lparr>p_end := Some e\<rparr>))\<rparr>
     | Some PlannedAlias \<Rightarrow> m\<lparr>m_planned := (m_planned m)\<lparr>p_end := Some e\<rparr>\<rparr>)"

definition CloseActualPeriod :: "maintenance \<Rightarrow> time \<Rightarrow> maintenance" where
  "CloseActualPeriod m e = (case deref_actual m of None \<Rightarrow> m
     | Some p \<Rightarrow> if \<not> p_start p < e then m\<lparr>m_actual := None\<rparr> else set_actual_end m e)"

definition Revision :: "maintenance \<Rightarrow> int" where
  "Revision m = (case m_updated_at m of Some t \<Rightarrow> unix_micro t | None \<Rightarrow> unix_micro (m_created_at m))"

lemma Normalize_idem [simp]: "Normalize (Normalize m) = Normalize m"
  by (simp add: Normalize_def)

lemma Normalize_fields [simp]:
  "m_id (Normalize m) = m_id m" "m_status (Normalize m) = m_status m"
  "m_planned (Normalize m) = m_planned m" "m_actual (Normalize m) = m_actual m"
  "m_scope (Normalize m) = m_scope m"
  by (simp_all add: Normalize_def)

lemma CloseActualPeriod_fields [simp]:
  "m_id (CloseActualPeriod m e) = m_id m"
  "m_status (CloseActualPeriod m e) = m_status m"
  "m_scope (CloseActualPeriod m e) = m_scope m"
  "m_created_at (CloseActualPeriod m e) = m_created_at m"
  "p_start (m_planned (CloseActualPeriod m e)) = p_start (m_planned m)"
  by (simp_all add: CloseActualPeriod_def set_actual_end_def split: option.split period_ptr.split)

text \<open>After closing at \<open>e\<close> the actual period is absent or strictly ordered and ends at \<open>e\<close>.\<close>

lemma CloseActualPeriod_closed:
  "deref_actual (CloseActualPeriod m e) = Some p \<Longrightarrow> p_end p = Some e \<and> p_start p < e"
  by (auto simp: CloseActualPeriod_def set_actual_end_def deref_actual_def
      split: option.splits period_ptr.splits if_splits)

lemma CloseActualPeriod_own_planned:
  "m_actual m \<noteq> Some PlannedAlias \<Longrightarrow> m_planned (CloseActualPeriod m e) = m_planned m"
  by (auto simp: CloseActualPeriod_def set_actual_end_def split: option.splits period_ptr.splits)

section \<open>Users\<close>

text \<open>A role read from a request or a row may be any string: \<open>RoleOther\<close> is one the code has no name for.\<close>

datatype role = RoleGuest | RoleEditor | RoleReviewer | RoleAdmin | RoleSystemAdmin | RoleOther string

definition rolesLevel :: "role \<Rightarrow> int" where
  "rolesLevel r = (case r of RoleGuest \<Rightarrow> 0 | RoleEditor \<Rightarrow> 1 | RoleReviewer \<Rightarrow> 2 | RoleAdmin \<Rightarrow> 3
     | RoleSystemAdmin \<Rightarrow> 0 | RoleOther _ \<Rightarrow> 0)"

definition RoleOccupiesSeat :: "role \<Rightarrow> bool" where
  "RoleOccupiesSeat r = (rolesLevel r > rolesLevel RoleGuest)"

definition ApproverEligibleRoles :: "role list" where
  "ApproverEligibleRoles = [RoleReviewer, RoleAdmin]"

record user =
  u_id :: uuid
  u_email :: string
  u_name :: string
  u_roles :: "role list"
  u_created_at :: time
  u_blocked_at :: "time option"
  u_timezone :: "string option"
  u_telegram_tag :: "string option"
  u_slack_tag :: "string option"

definition IsBlocked :: "user \<Rightarrow> bool" where
  "IsBlocked u = (u_blocked_at u \<noteq> None)"

definition IsAdmin :: "user \<Rightarrow> bool" where
  "IsAdmin u = (RoleAdmin \<in> set (u_roles u))"

definition IsActiveAdmin :: "user \<Rightarrow> bool" where
  "IsActiveAdmin u = (IsAdmin u \<and> \<not> IsBlocked u)"

definition SystemUser :: user where
  "SystemUser = \<lparr>u_id = nil_uuid, u_email = ''system@email.com'', u_name = ''system'',
     u_roles = [RoleSystemAdmin], u_created_at = zero_time, u_blocked_at = None,
     u_timezone = None, u_telegram_tag = None, u_slack_tag = None\<rparr>"

section \<open>Conflicts\<close>

record conflict =
  c_maint_id :: uuid
  c_title :: string
  c_overlap_start :: time
  c_overlap_end :: time
  c_scope :: maint_scope

record conflict_wr = conflict +
  c_resources :: "uuid list"
  c_known :: bool

section \<open>Commands\<close>

record step_input =
  si_order :: int
  si_description :: string
  si_rollback :: string
  si_duration_minutes :: int

record create_cmd =
  cc_title :: string
  cc_description :: string
  cc_planned :: period
  cc_scope :: maint_scope
  cc_impact :: maint_impact
  cc_resources :: "uuid list"
  cc_steps :: "step_input list"
  cc_notify_targets :: "uuid list"
  cc_deferred :: "time list"
  cc_mentions :: "uuid list"
  cc_approver :: uuid
  cc_created_by :: uuid
  cc_task_url :: string
  cc_actor :: user

record update_cmd =
  uc_maint_id :: uuid
  uc_title :: "string option"
  uc_description :: "string option"
  uc_planned_start :: "time option"
  uc_scope :: "maint_scope option"
  uc_impact :: "maint_impact option"
  uc_resources :: "uuid list"
  uc_steps :: "step_input list"
  uc_notify_targets :: "uuid list"
  uc_deferred :: "time list option"
  uc_mentions :: "uuid list option"
  uc_approver :: "uuid option"
  uc_task_url :: "string option"
  uc_actor :: user

record lifecycle_cmd =
  lc_maint_id :: uuid
  lc_actor :: user

record cancel_cmd =
  xc_maint_id :: uuid
  xc_reason :: cancel_reason
  xc_comment :: string
  xc_actor :: user

record approve_cmd =
  ac_maint_id :: uuid
  ac_observed_revision :: int
  ac_snapshot :: "conflict_wr option list"
  ac_actor_user_id :: uuid
  ac_actor :: "user option"

record step_cmd =
  sc_maint_id :: uuid
  sc_step_id :: uuid
  sc_actor :: user

record conflict_query_cmd =
  cq_maint_id :: uuid
  cq_period :: period
  cq_scope :: maint_scope
  cq_resource_ids :: "uuid list"

section \<open>Errors\<close>

datatype apperr =
    ErrMaintNotFound
  | ErrInvalidPeriodEmptyStartOrEnd
  | ErrInvalidPeriodStartOrEnd
  | ErrInvalidPeriodInterval
  | ErrConflictsChangedSincePreview
  | ErrMaintChangedSincePreview
  | ErrConcurrentModification
  | ErrForbiddenMaintStatusTransition maint_status maint_status
  | ErrApproverNotEligible
  | ErrApproverMismatch
  | ErrNilActor
  | ErrNilApprover
  | ErrStepNotFound
  | ErrStepOrderViolation
  | ErrMaintenanceHasUnfinishedSteps
  | ErrForbiddenStepStatusTransition step_status step_status
  | ErrMaintNotInProgress
  | ErrNotifyTargetsAlreadyExists
  | ErrNotifyChannelNotFound
  | ErrUnknownChannel uuid
  | ErrFields "string list"
  | ErrSkipUpdate
  | ErrActualPeriodOpen
  | ErrSendInsideTx
  | ErrContextDone
  | ErrNoTransaction
  | ErrUserNotFound
  | ErrUserBlocked
  | ErrUserAlreadyExists
  | ErrInvalidRole
  | ErrNotChanged
  | ErrLastAdmin
  | ErrSelfBlock
  | ErrSelfUnblock
  | ErrSelfRevoke
  | ErrSelfAssign
  | ErrInvalidTimezone
  | ErrInvalidMessengerTag
  | ErrSeatsLimitExceeded
  | ErrSignupDisabled
  | ErrIntegrationNotFound
  | ErrUnsupportedProvider
  | ErrProviderAlreadyConnected
  | ErrProviderLinkedToAnotherUser
  | ErrProviderNotConnected
  | ErrCannotDisconnectLastProvider
  | ErrBreakGlassPersonalSignIn
  | ErrLockBusy
  | ErrRefreshTokenNotFound
  | ErrRefreshTokenAlreadyRotated
  | ErrInvalidAccessToken
  | ErrInvalidRefreshToken
  | ErrTokenExpired
  | ErrTokenReuse
  | ErrLogoutAlready
  | ErrNoSessionID
  | ErrValidation
  | ErrInvitationNotFound
  | ErrInvitationExpired
  | ErrInvitationNotPending
  | ErrInvalidInvitation
  | ErrEmailMismatch
  | ErrActivePendingExists
  | ErrAuthCredentialNotFound
  | ErrAuthCredentialConflict
  | ErrInvalidCredentials
  | ErrOTPSessionMismatch
  | ErrReauthenticationRequired
  | ErrSignInMethodDisabled
  | ErrOAuthDanceStateInvalid
  | ErrOAuthConsentDeclined
  | ErrOAuthProviderDenied
  | ErrOAuthExchangeFailed
  | ErrLinkTicketUnusable
  | ErrLinkCodeInvalid
  | ErrGithubEmailUnusable
  | ErrGithubIdentityUnusable
  | PgUniqueViolation
  | PgForeignKeyViolation
  | PgCheckViolation
  | PgSerializationFailure
  | PgOther nat
  | Panic
  | ErrJoin "apperr list"

section \<open>Notification events\<close>

datatype event_kind = EventMaintStarted | EventMaintCompleted | EventMaintCancelled | EventMaintReminder
  | EventStepStarted | EventStepCompleted | EventStepCancelled

definition IsStep :: "event_kind \<Rightarrow> bool" where
  "IsStep k = (k = EventStepStarted \<or> k = EventStepCompleted \<or> k = EventStepCancelled)"

record user_mention =
  um_name :: string
  um_telegram_tag :: "string option"
  um_slack_tag :: "string option"

record notify_event =
  ne_kind :: event_kind
  ne_occurred_at :: time
  ne_frontend_url :: string
  ne_maint_id :: uuid
  ne_maint_title :: string
  ne_planned_start :: time
  ne_task_url :: string
  ne_created_by :: uuid
  ne_owner_mention :: "user_mention option"
  ne_mentions :: "user_mention list"
  ne_step_id :: uuid
  ne_step_order :: int
  ne_step_description :: string
  ne_cancel_reason :: cancel_reason
  ne_cancel_comment :: string

definition empty_event :: notify_event where
  "empty_event = \<lparr>ne_kind = EventMaintStarted, ne_occurred_at = zero_time, ne_frontend_url = [],
     ne_maint_id = nil_uuid, ne_maint_title = [], ne_planned_start = zero_time, ne_task_url = [],
     ne_created_by = nil_uuid, ne_owner_mention = None, ne_mentions = [], ne_step_id = nil_uuid,
     ne_step_order = 0, ne_step_description = [], ne_cancel_reason = ReasonUnset, ne_cancel_comment = []\<rparr>"

record notify_message =
  nm_subject :: string
  nm_body :: string
  nm_mime :: string

record send_result =
  sr_ref :: "message_ref option"
  sr_root_replaced :: bool

section \<open>Invitations\<close>

datatype invitation_status = InvitationPending | InvitationAccepted | InvitationRevoked | InvitationExpired

record invitation_row =
  inv_id :: uuid
  inv_email :: string
  inv_roles :: "role list"
  inv_token_hash :: string
  inv_status :: invitation_status
  inv_invited_by :: uuid
  inv_expires_at :: time
  inv_sent_at :: time
  inv_accepted_at :: "time option"
  inv_revoked_at :: "time option"
  inv_created_at :: time

section \<open>Audited actions\<close>

datatype audit_failure = FailureNone | FailureUserProvisioning | FailureTokenIssuance | FailureUserBlocked | FailureSignupDisabled
  | FailureInvalidCredentials | FailureMethodDisabled | FailureInvalidCode | FailureAttemptsExhausted | FailureSessionMismatch
  | FailureUnknown | FailurePasswordPolicy | FailureCodeExpired | FailureInvitationRefused
  | FailureProviderDenied | FailureProviderUnavailable | FailureProviderRejected | FailureLinkUnusable | FailureLinkConflict

datatype login_method = LoginNone | LoginBootstrap | LoginPassword | LoginOTP | LoginOIDC

record audit_meta =
  am_ip :: string
  am_user_agent :: string
  am_session :: string
  am_method :: login_method
  am_failure :: audit_failure

record audit_change =
  ch_field :: string
  ch_old :: string
  ch_new :: string

datatype roles_change =
    RolesAssigned "role list"
  | RolesRevoked "role list"
  | RolesReplaced "role list" "role list" "role list"

datatype audit_action =
    AuditMaintCreated user maintenance
  | AuditMaintUpdated user maintenance "audit_change list"
  | AuditMaintApproved user maintenance
  | AuditMaintStarted user maintenance
  | AuditMaintCancelled user maintenance
  | AuditMaintCompleted user maintenance
  | AuditStepStarted user maintenance maint_step
  | AuditStepCompleted user maintenance maint_step
  | AuditStepCancelled user maintenance maint_step
  | AuditRolesChanged "user option" user roles_change
  | AuditUserBlocked "user option" user
  | AuditUserUnblocked "user option" user
  | AuditUserTagsChanged "user option" user "audit_change list"
  | AuditSessionRevoked user string string string
  | AuditLogoutSuccess string string string
  | AuditInvitationCreated user invitation_row
  | AuditInvitationRevoked "user option" invitation_row
  | AuditLoginSuccess user audit_meta
  | AuditLoginFailed user audit_meta
  | AuditPasswordChanged user audit_meta
  | AuditPasswordReset user audit_meta
  | AuditProviderLinked uuid audit_meta

end
