(* ===== verification/AuthEntity.thy ===== *)
theory AuthEntity
  imports Entity
begin

text \<open>
  The entities of sign-in and access: roles as a ranked vocabulary and the seats they
  occupy (\<open>internal/entity/user.go\<close>, \<open>license.go\<close>), refresh tokens, provider identities
  and invitations as their tables store them, access-token claims, and the part of the
  environment the auth services read (signing keys, randomness, the distributed lock,
  the license, the session policy).
\<close>

section \<open>Roles and seats\<close>

definition Role_Valid :: "role \<Rightarrow> bool" where
  "Role_Valid r = (r = RoleGuest \<or> r = RoleEditor \<or> r = RoleReviewer \<or> r = RoleAdmin)"

definition DefaultRoles :: "role list" where
  "DefaultRoles = [RoleGuest]"

definition role_string :: "role \<Rightarrow> string" where
  "role_string r = (case r of RoleGuest \<Rightarrow> ''guest'' | RoleEditor \<Rightarrow> ''editor'' | RoleReviewer \<Rightarrow> ''reviewer''
     | RoleAdmin \<Rightarrow> ''admin'' | RoleSystemAdmin \<Rightarrow> ''system admin'' | RoleOther s \<Rightarrow> s)"

fun highest_from :: "role \<Rightarrow> role list \<Rightarrow> role" where
  "highest_from best [] = best"
| "highest_from best (r # rs) = highest_from (if rolesLevel r > rolesLevel best then r else best) rs"

definition HighestRole :: "role list \<Rightarrow> role" where
  "HighestRole roles = highest_from RoleGuest roles"

record seat_bucket =
  sb_active :: int
  sb_pending :: int

record seat_usage =
  su_admin :: seat_bucket
  su_reviewer :: seat_bucket
  su_editor :: seat_bucket
  su_guest :: seat_bucket

definition no_seats :: seat_usage where
  "no_seats = (let b = \<lparr>sb_active = 0, sb_pending = 0\<rparr> in \<lparr>su_admin = b, su_reviewer = b, su_editor = b, su_guest = b\<rparr>)"

definition on_bucket :: "(seat_bucket \<Rightarrow> seat_bucket) \<Rightarrow> role list \<Rightarrow> seat_usage \<Rightarrow> seat_usage" where
  "on_bucket f roles u = (case HighestRole roles of
     RoleAdmin \<Rightarrow> u\<lparr>su_admin := f (su_admin u)\<rparr>
   | RoleReviewer \<Rightarrow> u\<lparr>su_reviewer := f (su_reviewer u)\<rparr>
   | RoleEditor \<Rightarrow> u\<lparr>su_editor := f (su_editor u)\<rparr>
   | _ \<Rightarrow> u\<lparr>su_guest := f (su_guest u)\<rparr>)"

definition BucketSeats :: "role list list \<Rightarrow> role list list \<Rightarrow> seat_usage" where
  "BucketSeats activeRoles pendingRoles =
     fold (on_bucket (\<lambda>b. b\<lparr>sb_pending := sb_pending b + 1\<rparr>)) pendingRoles
       (fold (on_bucket (\<lambda>b. b\<lparr>sb_active := sb_active b + 1\<rparr>)) activeRoles no_seats)"

definition SeatsUsed :: "seat_usage \<Rightarrow> int" where
  "SeatsUsed u = sb_active (su_admin u) + sb_active (su_reviewer u) + sb_active (su_editor u)"

definition TotalActive :: "seat_usage \<Rightarrow> int" where
  "TotalActive u = SeatsUsed u + sb_active (su_guest u)"

definition SeatsOccupied :: "seat_usage \<Rightarrow> int" where
  "SeatsOccupied u = sb_active (su_admin u) + sb_pending (su_admin u) + sb_active (su_reviewer u) + sb_pending (su_reviewer u)
     + sb_active (su_editor u) + sb_pending (su_editor u)"

definition SeatsPending :: "seat_usage \<Rightarrow> int" where
  "SeatsPending u = sb_pending (su_admin u) + sb_pending (su_reviewer u) + sb_pending (su_editor u)"

subsection \<open>What the counters count\<close>

definition seated :: "role list \<Rightarrow> bool" where
  "seated roles \<longleftrightarrow> RoleOccupiesSeat (HighestRole roles)"

lemma highest_from_cases: "highest_from best rs = best \<or> highest_from best rs \<in> set rs \<and> rolesLevel best < rolesLevel (highest_from best rs)"
proof (induction rs arbitrary: best)
  case (Cons r rs)
  from Cons [of "if rolesLevel r > rolesLevel best then r else best"] show ?case by (auto split: if_splits)
qed simp

lemma highest_from_le: "rolesLevel best \<le> rolesLevel (highest_from best rs) \<and> (\<forall>r \<in> set rs. rolesLevel r \<le> rolesLevel (highest_from best rs))"
proof (induction rs arbitrary: best)
  case (Cons r rs)
  from Cons [of "if rolesLevel r > rolesLevel best then r else best"] show ?case by (auto split: if_splits)
qed simp

lemma seated_iff: "seated roles \<longleftrightarrow> (\<exists>r \<in> set roles. RoleOccupiesSeat r)"
  using highest_from_cases [of RoleGuest roles] highest_from_le [of RoleGuest roles]
  by (force simp: seated_def HighestRole_def RoleOccupiesSeat_def)

lemma seated_roles: "seated roles \<longleftrightarrow> HighestRole roles \<in> {RoleAdmin, RoleReviewer, RoleEditor}"
  by (cases "HighestRole roles") (simp_all add: seated_def RoleOccupiesSeat_def rolesLevel_def)

lemma count_pending: "SeatsOccupied (fold (on_bucket (\<lambda>b. b\<lparr>sb_pending := sb_pending b + 1\<rparr>)) rss u)
    = SeatsOccupied u + int (length (filter seated rss))"
  by (induction rss arbitrary: u)
    (auto simp: on_bucket_def SeatsOccupied_def seated_roles split: role.splits)

lemma count_active: "SeatsOccupied (fold (on_bucket (\<lambda>b. b\<lparr>sb_active := sb_active b + 1\<rparr>)) rss u)
    = SeatsOccupied u + int (length (filter seated rss))"
  by (induction rss arbitrary: u)
    (auto simp: on_bucket_def SeatsOccupied_def seated_roles split: role.splits)

lemma SeatsOccupied_BucketSeats:
  "SeatsOccupied (BucketSeats act pend) = int (length (filter seated act)) + int (length (filter seated pend))"
  by (simp add: BucketSeats_def count_pending count_active) (simp add: SeatsOccupied_def no_seats_def Let_def)

section \<open>Rows\<close>

record refresh_row =
  rt_hash :: string
  rt_user :: uuid
  rt_family :: uuid
  rt_expires_at :: time
  rt_grace :: "time option"
  rt_revoked :: bool
  rt_replaced_by :: "string option"
  rt_client_ip :: string
  rt_started_at :: time
  rt_created_at :: time
  rt_updated_at :: "time option"

record identity_row =
  idn_id :: uuid
  idn_user :: uuid
  idn_integration :: uuid
  idn_subject :: string
  idn_email :: string
  idn_created_at :: time

record integration_row =
  itg_id :: uuid
  itg_kind :: string
  itg_name :: string

datatype credential_kind = CredentialPassword | CredentialOTP

record credential_row =
  cr_id :: uuid
  cr_user :: uuid
  cr_kind :: credential_kind
  cr_secret :: string
  cr_expires_at :: "time option"
  cr_consumed_at :: "time option"
  cr_attempts :: int
  cr_nonce :: "string option"
  cr_created_at :: time
  cr_updated_at :: time

record auth_db =
  a_refresh :: "refresh_row list"
  a_identities :: "identity_row list"
  a_integrations :: "integration_row list"
  a_invitations :: "invitation_row list"
  a_credentials :: "credential_row list"

definition empty_auth :: auth_db where
  "empty_auth = \<lparr>a_refresh = [], a_identities = [], a_integrations = [], a_invitations = [], a_credentials = []\<rparr>"

section \<open>Claims, token pairs and policy\<close>

record access_claims =
  cl_user_name :: string
  cl_email :: string
  cl_roles :: "role list"
  cl_session :: string
  cl_jti :: string
  cl_subject :: string
  cl_issued_at :: time
  cl_expires_at :: time

record token_pair =
  tp_access :: string
  tp_refresh :: string
  tp_expires_in :: int
  tp_session :: uuid
  tp_session_expires_at :: time

record auth_cfg =
  cf_access_ttl :: duration
  cf_refresh_ttl :: duration
  cf_max_lifetime :: duration
  cf_inactive_lifetime :: duration
  cf_grace_period :: duration
  cf_open_signup :: bool
  cf_invitation_ttl :: duration
  cf_handle_ttl :: duration
  cf_otp_ttl :: duration
  cf_otp_max_attempts :: int
  cf_otp_cooldown :: duration

record oauth_claims =
  oc_subject :: string
  oc_email :: string
  oc_name :: string
  oc_email_verified :: bool

text \<open>What the store of the browser dance keeps: a minted pair, the intent to link, a verified identity waiting to be linked.\<close>

record dance_code =
  dc_pair :: token_pair
  dc_binding :: string

record link_intent =
  li_user :: uuid
  li_provider :: string

record pending_link =
  pl_user :: uuid
  pl_provider :: string
  pl_claims :: oauth_claims
  pl_binding :: string

text \<open>What the registry of integrations says of a login provider, and the health the sign-in page shows.\<close>

datatype provider_health = HealthOK | HealthUnresolved | HealthDisabled | HealthUnreadable

datatype login_settings = OIDCSettings string string | OAuth2Settings string string | OtherSettings

record configured_provider =
  cnf_name :: string
  cnf_enabled :: bool
  cnf_settings :: login_settings
  cnf_unreadable :: bool

text \<open>
  What the auth services read from outside: random tokens, the JWT library under the
  instance's key, whether the distributed lock was free, the cached license's seat cap,
  how PostgreSQL lower-cases text, \<open>uuid.Parse\<close> and the time zone database; the reads of
  the entropy source until it fails, the mail templates, the envelope encryption of a code,
  the password hash, which sign-in methods are switched on, case folding, and the
  break-glass secret; the built-in sign-in methods, the login providers of the registry,
  whether the stand substitutes its stub, the random secrets of the browser dance, the MAC
  of its state, the digest of a browser's proof, and the providers' authorization URL, code
  exchange and authentication.
\<close>

record sealed_code =
  sl_code :: string
  sl_dek :: string
  sl_kek_uri :: string

record auth_env =
  au_cfg :: auth_cfg
  au_random :: "nat \<Rightarrow> apperr + string"
  au_sign :: "access_claims \<Rightarrow> apperr + string"
  au_verify :: "nat \<Rightarrow> string \<Rightarrow> apperr + access_claims"
  au_lock_free :: "nat \<Rightarrow> bool"
  au_seats :: "nat \<Rightarrow> int option"
  au_pg_lower :: "string \<Rightarrow> string"
  au_uuid_parse :: "string \<Rightarrow> uuid option"
  au_location_ok :: "string \<Rightarrow> bool"
  au_render_invitation :: "string \<Rightarrow> string \<Rightarrow> apperr + string"
  au_entropy :: "nat \<Rightarrow> 32 word list \<times> apperr"
  au_seal :: "nat \<Rightarrow> uuid \<Rightarrow> string \<Rightarrow> apperr + sealed_code"
  au_hash_password :: "nat \<Rightarrow> string \<Rightarrow> apperr + string"
  au_verify_password :: "string \<Rightarrow> string \<Rightarrow> apperr + bool"
  au_method_enabled :: "nat \<Rightarrow> string \<Rightarrow> apperr + bool"
  au_equal_fold :: "string \<Rightarrow> string \<Rightarrow> bool"
  au_bootstrap :: "nat \<Rightarrow> string \<Rightarrow> apperr + (string \<times> string)"
  au_builtins :: "string list"
  au_providers :: "nat \<Rightarrow> configured_provider list"
  au_use_stub :: bool
  au_dance_secret :: "nat \<Rightarrow> apperr + string"
  au_state_mac :: "string \<Rightarrow> string"
  au_binding_of :: "string \<Rightarrow> string"
  au_auth_url :: "nat \<Rightarrow> string \<Rightarrow> string \<Rightarrow> string \<Rightarrow> apperr + string"
  au_exchange :: "nat \<Rightarrow> string \<Rightarrow> string \<Rightarrow> string \<Rightarrow> apperr + string"
  au_authenticate :: "nat \<Rightarrow> string \<Rightarrow> string \<Rightarrow> apperr + oauth_claims"

definition DefaultDanceStateTTL :: duration where "DefaultDanceStateTTL = 10 * minute"

definition DanceStateTTL :: "auth_cfg \<Rightarrow> duration" where
  "DanceStateTTL cfg = (if cf_handle_ttl cfg \<le> 0 then DefaultDanceStateTTL else cf_handle_ttl cfg)"

section \<open>Text\<close>

text \<open>
  \<open>strings.TrimSpace\<close> on UTF-8 text: the encodings of the runes \<open>unicode.IsSpace\<close> accepts,
  dropped from both ends.
\<close>

definition bytes :: "nat list \<Rightarrow> string" where
  "bytes ns = map char_of ns"

definition space_runes :: "string list" where
  "space_runes = map bytes ([[32], [9], [10], [11], [12], [13], [0xC2, 0x85], [0xC2, 0xA0], [0xE1, 0x9A, 0x80],
     [0xE2, 0x80, 0xA8], [0xE2, 0x80, 0xA9], [0xE2, 0x80, 0xAF], [0xE2, 0x81, 0x9F], [0xE3, 0x80, 0x80]]
     @ map (\<lambda>n. [0xE2, 0x80, 0x80 + n]) [0..<11])"

definition starts_with :: "string \<Rightarrow> string \<Rightarrow> bool" where
  "starts_with s p = (take (length p) s = p)"

lemma starts_with_shorter: "starts_with s p \<Longrightarrow> p \<noteq> [] \<Longrightarrow> length s - length p < length s"
  by (cases s; cases p) (auto simp: starts_with_def)

function trim_left :: "string list \<Rightarrow> string \<Rightarrow> string" where
  "trim_left runes s = (case find (\<lambda>p. p \<noteq> [] \<and> starts_with s p) runes of None \<Rightarrow> s
     | Some p \<Rightarrow> trim_left runes (drop (length p) s))"
  by pat_completeness auto

termination trim_left
  by (relation "measure (\<lambda>(_, s). length s)") (auto simp: find_Some_iff starts_with_shorter)

declare trim_left.simps [simp del]

definition trim_space :: "string \<Rightarrow> string" where
  "trim_space s = rev (trim_left (map rev space_runes) (rev (trim_left space_runes s)))"

text \<open>
  \<open>strings.ToLower\<close>: the ASCII capitals and the two other runes whose lower case is ASCII
  (U+0130 and U+212A). The remaining runes keep their bytes, which no comparison below
  can tell from their lower case.
\<close>

definition ascii_lower :: "char \<Rightarrow> char" where
  "ascii_lower c = (let n = of_char c :: nat in if 65 \<le> n \<and> n \<le> 90 then char_of (n + 32) else c)"

fun to_lower :: "string \<Rightarrow> string" where
  "to_lower (a # b # c # s) = (if [a, b] = bytes [0xC4, 0xB0] then CHR 0x69 # to_lower (c # s)
     else if [a, b, c] = bytes [0xE2, 0x84, 0xAA] then CHR 0x6B # to_lower s else ascii_lower a # to_lower (b # c # s))"
| "to_lower [a, b] = (if [a, b] = bytes [0xC4, 0xB0] then [CHR 0x69] else [ascii_lower a, ascii_lower b])"
| "to_lower [a] = [ascii_lower a]"
| "to_lower [] = []"

definition has_suffix :: "string \<Rightarrow> string \<Rightarrow> bool" where
  "has_suffix s suf = (length suf \<le> length s \<and> drop (length s - length suf) s = suf)"

definition trim_prefix :: "string \<Rightarrow> string \<Rightarrow> string" where
  "trim_prefix s p = (if starts_with s p then drop (length p) s else s)"

section \<open>The break-glass account\<close>

definition breakGlassDomain :: string where
  "breakGlassDomain = ''maintmode.invalid''"

definition IsBreakGlassEmail :: "string \<Rightarrow> bool" where
  "IsBreakGlassEmail email = has_suffix (to_lower (trim_space email)) (CHR 0x40 # breakGlassDomain)"

definition IsBreakGlass :: "user \<Rightarrow> bool" where
  "IsBreakGlass u = IsBreakGlassEmail (u_email u)"

section \<open>Profile fields\<close>

definition tag_start :: "char \<Rightarrow> bool" where
  "tag_start c = (let n = of_char c :: nat in 65 \<le> n \<and> n \<le> 90 \<or> 97 \<le> n \<and> n \<le> 122 \<or> 48 \<le> n \<and> n \<le> 57)"

definition tag_char :: "char \<Rightarrow> bool" where
  "tag_char c = (tag_start c \<or> c \<in> set ''._-'')"

text \<open>The expression \<open>^@?[A-Za-z0-9][A-Za-z0-9._-]{0,62}$\<close>.\<close>

definition messengerTagPattern :: "string \<Rightarrow> bool" where
  "messengerTagPattern s = (case trim_prefix s [CHR 0x40] of [] \<Rightarrow> False
     | c # cs \<Rightarrow> tag_start c \<and> length cs \<le> 62 \<and> list_all tag_char cs)"

definition reservedTags :: "string list" where
  "reservedTags = [''here'', ''channel'', ''everyone'']"

text \<open>\<open>None\<close> is a rejected value, \<open>Some []\<close> the reset.\<close>

definition canonicalMessengerTag :: "string option \<Rightarrow> string option" where
  "canonicalMessengerTag tag = (case tag of None \<Rightarrow> Some [] | Some t \<Rightarrow>
     let trimmed = trim_space t in
     if trimmed = [] then Some []
     else if \<not> messengerTagPattern trimmed then None
     else if to_lower (trim_prefix trimmed [CHR 0x40]) \<in> set reservedTags then None
     else Some trimmed)"

definition CanonicalTelegramTag :: "string option \<Rightarrow> string option" where
  "CanonicalTelegramTag tag = canonicalMessengerTag tag"

definition CanonicalSlackTag :: "string option \<Rightarrow> string option" where
  "CanonicalSlackTag tag = canonicalMessengerTag tag"

definition CanonicalTimezone :: "(string \<Rightarrow> bool) \<Rightarrow> string option \<Rightarrow> string option" where
  "CanonicalTimezone location_ok tz = (case tz of None \<Rightarrow> Some [] | Some t \<Rightarrow>
     let name = trim_space t in
     if name = [] then Some [] else if name = ''Local'' then None
     else if \<not> location_ok name then None else Some name)"

lemma tag_length: "messengerTagPattern s \<Longrightarrow> length s \<le> 64"
proof -
  have "length s \<le> Suc (length (trim_prefix s [CHR 0x40]))" by (cases s) (simp_all add: trim_prefix_def)
  then show "messengerTagPattern s \<Longrightarrow> length s \<le> 64"
    by (cases "trim_prefix s [CHR 0x40]") (auto simp: messengerTagPattern_def)
qed

lemma canonical_tag_length: "canonicalMessengerTag tag = Some t \<Longrightarrow> length t \<le> 64"
  using tag_length by (auto simp: canonicalMessengerTag_def Let_def split: option.splits if_splits)

end
