(* ===== verification/Dbtx.thy ===== *)
theory Dbtx
  imports AuthEntity
begin

text \<open>
  The database as the migrations lay it out, the world an operation runs in, and
  \<open>internal/utils/dbtx\<close>: a reentrant transaction manager with rollback and a bounded
  retry of serialization failures. What the program reads from outside (the clock, fresh
  identifiers, driver failures, the order in which Go ranges over a map, what a
  \<open>timestamptz\<close> column keeps of an instant, the queue library, the messenger transports, the digest)
  is an environment the world carries and no operation changes; each interaction with it
  happens at its own tick, so successive readings may differ arbitrarily.
\<close>

section \<open>Tables\<close>

record maint_row =
  mt_id :: uuid
  mt_title :: string
  mt_description :: string
  mt_planned :: period
  mt_actual :: "period option"
  mt_impact :: maint_impact
  mt_status :: maint_status
  mt_scope :: maint_scope
  mt_cancel_code :: "cancel_reason option"
  mt_cancel_comment :: "string option"
  mt_created_at :: time
  mt_updated_at :: "time option"
  mt_approver :: uuid
  mt_created_by :: uuid
  mt_task_url :: string

record step_row =
  st_id :: uuid
  st_maint_id :: uuid
  st_order :: int
  st_description :: string
  st_rollback :: string
  st_duration_minutes :: int
  st_status :: step_status
  st_actual_started_at :: "time option"
  st_actual_completed_at :: "time option"
  st_created_at :: time
  st_updated_at :: "time option"

record target_row =
  tg_id :: uuid
  tg_maint_id :: uuid
  tg_channel_id :: uuid
  tg_created_at :: time
  tg_root_message_id :: "string option"
  tg_root_channel :: "string option"

record deferred_row =
  df_id :: uuid
  df_maint_id :: uuid
  df_fire_at :: time
  df_task_id :: "uuid option"
  df_created_at :: time

record mention_row =
  mn_id :: uuid
  mn_maint_id :: uuid
  mn_user_id :: uuid
  mn_created_at :: time

record snapshot_row =
  sn_maint_id :: uuid
  sn_conflicted_id :: uuid
  sn_resource_id :: "uuid option"
  sn_period :: "period option"

record resource_row =
  rs_id :: uuid
  rs_name :: string

record channel_row =
  chn_id :: uuid
  chn_transport :: string
  chn_address :: string
  chn_name :: string

datatype otp_purpose = PurposeSignIn | PurposePasswordReset

record otp_email_payload =
  op_credential :: uuid
  op_target :: string
  op_sealed :: sealed_code
  op_expires_at :: time
  op_purpose :: otp_purpose

datatype task_payload = ReminderPayload uuid uuid | EventNotifyPayload string string notify_message "message_ref option"
  | OTPEmailPayload otp_email_payload

record task =
  tk_id :: uuid
  tk_type :: string
  tk_payload :: task_payload
  tk_external_id :: string
  tk_next_attempt_at :: time
  tk_canceled :: bool

record db =
  d_maints :: "maint_row list"
  d_resources_of :: "(uuid \<times> uuid) list"
  d_steps :: "step_row list"
  d_targets :: "target_row list"
  d_deferred :: "deferred_row list"
  d_mentions :: "mention_row list"
  d_snapshots :: "snapshot_row list"
  d_resources :: "resource_row list"
  d_channels :: "channel_row list"
  d_users :: "user list"
  d_tasks :: "task list"
  d_auth :: auth_db

section \<open>The world\<close>

record url_parts =
  url_scheme :: string
  url_hostname :: string
  url_has_user :: bool

text \<open>The rules of the validation library: whether each accepts a value.\<close>

record ozzo =
  oz_required_string :: "string \<Rightarrow> bool"
  oz_required_int :: "int \<Rightarrow> bool"
  oz_required_uuid :: "uuid \<Rightarrow> bool"
  oz_required_time :: "time \<Rightarrow> bool"
  oz_required_period :: "period \<Rightarrow> bool"
  oz_required_slice :: "nat \<Rightarrow> bool"
  oz_not_empty_string :: "string \<Rightarrow> bool"
  oz_not_empty_uuid :: "uuid \<Rightarrow> bool"
  oz_not_empty_time :: "time \<Rightarrow> bool"
  oz_length :: "nat \<Rightarrow> nat \<Rightarrow> nat \<Rightarrow> bool"
  oz_min :: "int \<Rightarrow> int \<Rightarrow> bool"

record env =
  fault :: "nat \<Rightarrow> apperr option"
  clock :: "nat \<Rightarrow> time"
  gen :: "nat \<Rightarrow> nat \<Rightarrow> uuid"
  ctx_done :: "nat \<Rightarrow> bool"
  map_range :: "nat \<Rightarrow> uuid list \<Rightarrow> uuid list"
  pg_time :: "time \<Rightarrow> time"
  sha256_hex :: "string \<Rightarrow> string"
  url_parse :: "string \<Rightarrow> url_parts option"
  rules :: ozzo
  goque_new_task :: "nat \<Rightarrow> string \<Rightarrow> task_payload \<Rightarrow> string \<Rightarrow> apperr + task"
  goque_add :: "task \<Rightarrow> task list \<Rightarrow> apperr + task list"
  goque_cancel :: "uuid \<Rightarrow> task list \<Rightarrow> apperr + task list"
  render :: "string \<Rightarrow> notify_event \<Rightarrow> apperr + notify_message"
  transport_send :: "nat \<Rightarrow> string \<Rightarrow> string \<Rightarrow> notify_message \<Rightarrow> message_ref option \<Rightarrow> apperr + send_result"
  resolve_owner :: "uuid \<Rightarrow> user_mention option"
  resolve_mentions_of :: "uuid list \<Rightarrow> user_mention list"
  frontend_url :: string
  time_rfc3339 :: "time \<Rightarrow> string"
  e_auth :: auth_env

record delivery =
  dl_transport :: string
  dl_address :: string
  dl_message :: notify_message
  dl_reply_to :: "message_ref option"

record world =
  w_env :: env
  w_tick :: nat
  w_db :: db
  w_tx :: "db option"
  w_audit :: "audit_action list"
  w_sent :: "delivery list"
  w_valkey :: "(string \<times> time) list"
  w_handles :: "(string \<times> uuid \<times> time) list"
  w_codes :: "(string \<times> dance_code \<times> time) list"
  w_tickets :: "(string \<times> link_intent \<times> time) list"
  w_links :: "(string \<times> pending_link \<times> time) list"

type_synonym 'a op = "(world, apperr, 'a) operation"

definition tick :: "world \<Rightarrow> world" where
  "tick w = w\<lparr>w_tick := Suc (w_tick w)\<rparr>"

definition UTCNow :: "time op" where
  "UTCNow w = (Inr (clock (w_env w) (w_tick w)), tick w)"

text \<open>
  One statement: the driver may fail it; otherwise it sees the environment (for column
  defaults such as \<open>uuidv7()\<close> and \<open>now()\<close>) and the tables, and either violates a
  constraint or returns rows and the new tables.
\<close>

definition db_call :: "(env \<Rightarrow> nat \<Rightarrow> db \<Rightarrow> apperr + ('a \<times> db)) \<Rightarrow> 'a op" where
  "db_call f w = (case fault (w_env w) (w_tick w) of
     Some e \<Rightarrow> (Inl e, tick w)
   | None \<Rightarrow> (case f (w_env w) (w_tick w) (w_db w) of
       Inl e \<Rightarrow> (Inl e, tick w)
     | Inr (a, d) \<Rightarrow> (Inr a, (tick w)\<lparr>w_db := d\<rparr>)))"

definition db_query :: "(db \<Rightarrow> 'a) \<Rightarrow> 'a op" where
  "db_query q = db_call (\<lambda>_ _ d. Inr (q d, d))"

section \<open>Transactions\<close>

definition tx_begin :: "unit op" where
  "tx_begin = obind (db_query (\<lambda>_. ())) (\<lambda>_ w. (Inr (), w\<lparr>w_tx := Some (w_db w)\<rparr>))"

definition tx_commit :: "unit op" where
  "tx_commit = obind (db_query (\<lambda>_. ())) (\<lambda>_ w. (Inr (), w\<lparr>w_tx := None\<rparr>))"

definition tx_rollback :: "world \<Rightarrow> world" where
  "tx_rollback w = (case w_tx w of None \<Rightarrow> w | Some d \<Rightarrow> w\<lparr>w_db := d, w_tx := None\<rparr>)"

definition WithinTx :: "'a op \<Rightarrow> 'a op" where
  "WithinTx fn w = (case w_tx w of Some _ \<Rightarrow> fn w
   | None \<Rightarrow> (case tx_begin w of
       (Inl e, w1) \<Rightarrow> (Inl e, w1)
     | (Inr _, w1) \<Rightarrow> (case fn w1 of
         (Inl e, w2) \<Rightarrow> (Inl e, tx_rollback w2)
       | (Inr a, w2) \<Rightarrow> (case tx_commit w2 of
           (Inl e, w3) \<Rightarrow> (Inl e, tx_rollback w3)
         | (Inr _, w3) \<Rightarrow> (Inr a, w3)))))"

definition serializableMaxAttempts :: nat where "serializableMaxAttempts = 10"

fun serializable_attempts :: "nat \<Rightarrow> 'a op \<Rightarrow> 'a op" where
  "serializable_attempts 0 fn w = (Inl PgSerializationFailure, w)"
| "serializable_attempts (Suc n) fn w = (case WithinTx fn w of
     (Inr a, w1) \<Rightarrow> (Inr a, w1)
   | (Inl e, w1) \<Rightarrow>
       if e \<noteq> PgSerializationFailure then (Inl e, w1)
       else if n = 0 then (Inl e, w1)
       else if ctx_done (w_env w1) (w_tick w1) then (Inl ErrContextDone, tick w1)
       else serializable_attempts n fn (tick w1))"

definition WithinSerializableTx :: "'a op \<Rightarrow> 'a op" where
  "WithinSerializableTx fn w = (case w_tx w of Some _ \<Rightarrow> WithinTx fn w
     | None \<Rightarrow> serializable_attempts serializableMaxAttempts fn w)"

section \<open>What a database operation leaves alone\<close>

definition same_frame :: "world \<Rightarrow> world \<Rightarrow> bool" where
  "same_frame w w' \<longleftrightarrow> w_env w' = w_env w \<and> w_tx w' = w_tx w \<and> w_audit w' = w_audit w \<and> w_sent w' = w_sent w
     \<and> w_valkey w' = w_valkey w"

definition db_only :: "'a op \<Rightarrow> bool" where
  "db_only m \<longleftrightarrow> (\<forall>w. same_frame w (snd (m w)))"

named_theorems db_only_rules \<open>operations that change the tables and nothing else\<close>

lemma same_frame_refl [simp]: "same_frame w w"
  by (simp add: same_frame_def)

lemma same_frame_trans: "same_frame a b \<Longrightarrow> same_frame b c \<Longrightarrow> same_frame a c"
  by (simp add: same_frame_def)

lemma same_frame_tick [simp]: "same_frame w (tick w)" "same_frame w ((tick w)\<lparr>w_db := d\<rparr>)"
  by (simp_all add: same_frame_def tick_def)

lemma tick_simps [simp]:
  "w_env (tick w) = w_env w" "w_db (tick w) = w_db w" "w_tx (tick w) = w_tx w"
  "w_audit (tick w) = w_audit w" "w_sent (tick w) = w_sent w" "w_valkey (tick w) = w_valkey w" "w_tick (tick w) = Suc (w_tick w)"
  "w_handles (tick w) = w_handles w" "w_codes (tick w) = w_codes w" "w_tickets (tick w) = w_tickets w" "w_links (tick w) = w_links w"
  by (simp_all add: tick_def)

lemma tick_same_db [simp]: "(tick w)\<lparr>w_db := w_db w\<rparr> = tick w"
  by (simp add: tick_def)

lemma db_onlyD: "db_only m \<Longrightarrow> m w = (r, w') \<Longrightarrow> same_frame w w'"
  unfolding db_only_def by (metis snd_conv)

lemma db_only_keeps: "db_only m \<longleftrightarrow> (\<forall>w0. keeps (same_frame w0) m)"
  unfolding db_only_def keeps_def using same_frame_trans same_frame_refl by blast

lemma db_only_via:
  "(\<And>w0. keeps (same_frame w0) m) \<Longrightarrow> db_only m"
  by (simp add: db_only_keeps)

lemma db_only_call [db_only_rules]: "db_only (db_call f)"
  by (auto simp: db_only_def db_call_def split: option.split sum.split)

lemma db_only_query [db_only_rules]: "db_only (db_query q)"
  unfolding db_query_def by (rule db_only_call)

lemma db_only_now [db_only_rules]: "db_only UTCNow"
  by (simp add: db_only_def UTCNow_def)

lemma db_only_ret [db_only_rules]: "db_only (ret a)"
  and db_only_raise [db_only_rules]: "db_only (raise e)"
  and db_only_read [db_only_rules]: "db_only (read_world f)"
  and db_only_guard [db_only_rules]: "db_only (guard_or b e)"
  by (auto intro: db_only_via keep_rules)

lemma db_only_bind [db_only_rules]: "db_only m \<Longrightarrow> (\<And>a. db_only (f a)) \<Longrightarrow> db_only (obind m f)"
  and db_only_sequel [db_only_rules]: "db_only m \<Longrightarrow> db_only k \<Longrightarrow> db_only (osequel m k)"
  and db_only_effort [db_only_rules]: "db_only m \<Longrightarrow> db_only (best_effort m)"
  and db_only_catch [db_only_rules]: "db_only m \<Longrightarrow> (\<And>e. db_only (h e)) \<Longrightarrow> db_only (ocatch m h)"
  and db_only_if [db_only_rules]: "db_only n \<Longrightarrow> db_only k \<Longrightarrow> db_only (if b then n else k)"
  and db_only_option [db_only_rules]: "db_only n \<Longrightarrow> (\<And>x. db_only (g x)) \<Longrightarrow>
        db_only (case xo of None \<Rightarrow> n | Some x \<Rightarrow> g x)"
  and db_only_for [db_only_rules]: "(\<And>x. db_only (g x)) \<Longrightarrow> db_only (for_each xs g)"
  and db_only_map [db_only_rules]: "(\<And>x. db_only (g x)) \<Longrightarrow> db_only (map_each xs g)"
  for m :: "'a op" and n k :: "'b op"
  unfolding db_only_keeps by (auto intro!: keep_rules)

lemma db_only_case_prod [db_only_rules]: "(\<And>a b. db_only (f a b)) \<Longrightarrow> db_only (case x of (a, b) \<Rightarrow> f a b)"
  by (cases x) simp

text \<open>
  What a top-level transaction can do: nothing at all, with an error, or exactly what the
  body did from the tables it found.
\<close>

lemma WithinTx_cases:
  assumes "WithinTx fn w = (r, w')" "w_tx w = None" "db_only fn"
  obtains (failed) e where "r = Inl e" "w_db w' = w_db w" "same_frame w w'"
  | (committed) a w1 w2 where "r = Inr a" "fn w1 = (Inr a, w2)" "w1 = (tick w)\<lparr>w_tx := Some (w_db w)\<rparr>"
      "w_db w' = w_db w2" "same_frame w w'" "w_tick w' = Suc (w_tick w2)"
proof -
  let ?w1 = "(tick w)\<lparr>w_tx := Some (w_db w)\<rparr>"
  consider (b) e where "tx_begin w = (Inl e, tick w)" | (ok) "tx_begin w = (Inr (), ?w1)"
    by (cases "fault (w_env w) (w_tick w)") (simp_all add: tx_begin_def op_defs db_query_def db_call_def)
  then show ?thesis
  proof cases
    case b
    with assms show ?thesis by (intro failed) (auto simp: WithinTx_def)
  next
    case ok
    obtain r2 w2 where fn: "fn ?w1 = (r2, w2)" by fastforce
    with assms(3) have fr: "same_frame ?w1 w2" by (rule db_onlyD)
    then have tx2: "w_tx w2 = Some (w_db w)" by (simp add: same_frame_def)
    show ?thesis
    proof (cases r2)
      case (Inl e)
      with ok fn assms tx2 fr show ?thesis
        by (intro failed) (auto simp: WithinTx_def tx_rollback_def same_frame_def)
    next
      case (Inr a)
      consider (c) e where "tx_commit w2 = (Inl e, tick w2)"
        | (cok) "tx_commit w2 = (Inr (), (tick w2)\<lparr>w_tx := None\<rparr>)"
        by (cases "fault (w_env w2) (w_tick w2)") (simp_all add: tx_commit_def op_defs db_query_def db_call_def)
      then show ?thesis
      proof cases
        case c
        with ok fn Inr assms tx2 fr show ?thesis
          by (intro failed) (auto simp: WithinTx_def tx_rollback_def same_frame_def)
      next
        case cok
        with ok fn Inr assms tx2 fr show ?thesis
          by (intro committed [of a ?w1 w2]) (auto simp: WithinTx_def same_frame_def)
      qed
    qed
  qed
qed

lemma serializable_cases:
  assumes "serializable_attempts n fn w = (r, w')" "w_tx w = None" "db_only fn"
  obtains (failed) e where "r = Inl e" "w_db w' = w_db w" "same_frame w w'"
  | (committed) a w1 w2 where "r = Inr a" "fn w1 = (Inr a, w2)" "w_db w1 = w_db w" "w_env w1 = w_env w"
      "w_tx w1 = Some (w_db w)" "w_db w' = w_db w2" "same_frame w w'"
  using assms
proof (induction n arbitrary: w thesis)
  case 0
  then show ?case by auto
next
  case (Suc n)
  obtain r1 w1 where tx: "WithinTx fn w = (r1, w1)" by fastforce
  from tx Suc.prems(4,5) show ?case
  proof (cases rule: WithinTx_cases)
    case (failed e)
    show ?thesis
    proof (cases "e = PgSerializationFailure \<and> n \<noteq> 0 \<and> \<not> ctx_done (w_env w1) (w_tick w1)")
      case False
      with failed tx Suc.prems(3) have "\<exists>e'. r = Inl e'" "w_db w' = w_db w" "same_frame w w'"
        by (auto simp: same_frame_def split: if_splits)
      then show ?thesis using Suc.prems(1) by blast
    next
      case True
      with failed tx Suc.prems(3) have rec: "serializable_attempts n fn (tick w1) = (r, w')" by simp
      have tx1: "w_tx (tick w1) = None" using failed Suc.prems(4) by (simp add: same_frame_def)
      show ?thesis
        by (rule Suc.IH [OF _ _ rec tx1 Suc.prems(5)])
          (use failed Suc.prems(1,2,4) in \<open>auto simp: same_frame_def\<close>)
    qed
  next
    case (committed a v1 v2)
    with tx Suc.prems(3) show ?thesis
      by (intro Suc.prems(2) [of a v1 v2]) (auto simp: same_frame_def)
  qed
qed

lemma WithinSerializableTx_cases:
  assumes "WithinSerializableTx fn w = (r, w')" "w_tx w = None" "db_only fn"
  obtains (failed) e where "r = Inl e" "w_db w' = w_db w" "same_frame w w'"
  | (committed) a w1 w2 where "r = Inr a" "fn w1 = (Inr a, w2)" "w_db w1 = w_db w" "w_env w1 = w_env w"
      "w_tx w1 = Some (w_db w)" "w_db w' = w_db w2" "same_frame w w'"
  using assms serializable_cases [of _ fn w r w'] by (simp add: WithinSerializableTx_def) blast

lemma db_only_WithinTx [db_only_rules]: "db_only fn \<Longrightarrow> db_only (WithinTx fn)"
  unfolding db_only_def
proof
  fix w
  assume fn: "\<forall>w. same_frame w (snd (fn w))"
  obtain r w' where run: "WithinTx fn w = (r, w')" by fastforce
  show "same_frame w (snd (WithinTx fn w))"
  proof (cases "w_tx w")
    case None
    have "db_only fn" using fn by (simp add: db_only_def)
    from run None this show ?thesis by (cases rule: WithinTx_cases) (simp_all add: run)
  next
    case (Some d)
    with fn show ?thesis by (simp add: WithinTx_def)
  qed
qed

lemma WithinTx_nested: "w_tx w = Some d \<Longrightarrow> WithinTx fn w = fn w"
  by (simp add: WithinTx_def)

section \<open>A concrete environment\<close>

text \<open>
  A world in which nothing fails, for evaluating the model on concrete inputs: a clock that
  advances one second per tick, consecutive identifiers, columns that keep instants exactly, a
  queue with a unique key per task and transports that accept every message.
\<close>

definition sample_add :: "task \<Rightarrow> task list \<Rightarrow> apperr + task list" where
  "sample_add k ts = (if \<exists>x \<in> set ts. tk_type x = tk_type k \<and> tk_external_id x = tk_external_id k
     then Inl (PgOther 1) else Inr (ts @ [k]))"

definition sample_cancel :: "uuid \<Rightarrow> task list \<Rightarrow> apperr + task list" where
  "sample_cancel i ts = Inr (map (\<lambda>x. if tk_id x = i then x\<lparr>tk_canceled := True\<rparr> else x) ts)"

definition sample_new_task :: "nat \<Rightarrow> string \<Rightarrow> task_payload \<Rightarrow> string \<Rightarrow> apperr + task" where
  "sample_new_task t ty p key = Inr \<lparr>tk_id = of_nat (1000 + t), tk_type = ty, tk_payload = p,
     tk_external_id = key, tk_next_attempt_at = int t * second, tk_canceled = False\<rparr>"

definition sample_rules :: ozzo where
  "sample_rules = \<lparr>oz_required_string = (\<lambda>s. s \<noteq> []), oz_required_int = (\<lambda>i. i \<noteq> 0), oz_required_uuid = (\<lambda>_. True),
     oz_required_time = (\<lambda>t. t \<noteq> zero_time), oz_required_period = (\<lambda>_. True), oz_required_slice = (\<lambda>n. n \<noteq> 0),
     oz_not_empty_string = (\<lambda>s. s \<noteq> []), oz_not_empty_uuid = (\<lambda>_. True), oz_not_empty_time = (\<lambda>t. t \<noteq> zero_time),
     oz_length = (\<lambda>a b n. n = 0 \<or> a \<le> n \<and> (b = 0 \<or> n \<le> b)), oz_min = (\<lambda>m i. i = 0 \<or> m \<le> i)\<rparr>"

definition sample_claims :: access_claims where
  "sample_claims = \<lparr>cl_user_name = ''n'', cl_email = ''e'', cl_roles = [], cl_session = [], cl_jti = ''j'', cl_subject = [],
     cl_issued_at = 0, cl_expires_at = 0\<rparr>"

definition quiet_auth :: auth_env where
  "quiet_auth = \<lparr>au_cfg = \<lparr>cf_access_ttl = 5 * minute, cf_refresh_ttl = 1000 * minute, cf_max_lifetime = 900 * minute,
       cf_inactive_lifetime = 100 * minute, cf_grace_period = 30 * second, cf_open_signup = False,
       cf_invitation_ttl = 10000 * minute, cf_handle_ttl = 10 * minute, cf_otp_ttl = 5 * minute, cf_otp_max_attempts = 5,
       cf_otp_cooldown = minute\<rparr>,
     au_random = (\<lambda>t. Inr (replicate t (CHR 0x61))), au_sign = (\<lambda>c. Inr (cl_jti c)), au_verify = (\<lambda>_ _. Inr sample_claims),
     au_lock_free = (\<lambda>_. True), au_seats = (\<lambda>_. None), au_pg_lower = (\<lambda>s. s), au_uuid_parse = (\<lambda>_. None),
     au_location_ok = (\<lambda>_. True), au_render_invitation = (\<lambda>l _. Inr l), au_entropy = (\<lambda>t. ([of_nat t], PgOther 3)),
     au_seal = (\<lambda>_ _ c. Inr \<lparr>sl_code = c, sl_dek = [], sl_kek_uri = []\<rparr>), au_hash_password = (\<lambda>_ p. Inr (CHR 0x68 # p)),
     au_verify_password = (\<lambda>h p. Inr (h = CHR 0x68 # p)), au_method_enabled = (\<lambda>_ _. Inr True), au_equal_fold = (=),
     au_bootstrap = (\<lambda>_ _. Inl ErrInvalidCredentials), au_builtins = [''bootstrap''],
     au_providers = (\<lambda>_. [\<lparr>cnf_name = ''google'', cnf_enabled = True, cnf_settings = OIDCSettings [] ''https://h/cb'', cnf_unreadable = False\<rparr>]),
     au_use_stub = False, au_dance_secret = (\<lambda>t. Inr (replicate t (CHR 0x61))), au_state_mac = (\<lambda>s. s), au_binding_of = (\<lambda>s. s),
     au_auth_url = (\<lambda>_ p _ _. Inr p), au_exchange = (\<lambda>_ _ code _. Inr code),
     au_authenticate = (\<lambda>_ _ cred. Inr \<lparr>oc_subject = cred, oc_email = cred, oc_name = cred, oc_email_verified = True\<rparr>)\<rparr>"

definition quiet_env :: env where
  "quiet_env = \<lparr>fault = (\<lambda>_. None), clock = (\<lambda>t. int t * second), gen = (\<lambda>t i. word_of_int (100 * int t + int i + 1)),
     ctx_done = (\<lambda>_. False), map_range = (\<lambda>_. rev), pg_time = (\<lambda>t. t), sha256_hex = (\<lambda>s. s),
     url_parse = (\<lambda>_. Some \<lparr>url_scheme = ''https'', url_hostname = ''h'', url_has_user = False\<rparr>),
     rules = sample_rules, goque_new_task = sample_new_task, goque_add = sample_add,
     goque_cancel = sample_cancel,
     render = (\<lambda>tr ev. Inr \<lparr>nm_subject = tr, nm_body = ne_maint_title ev, nm_mime = ''text''\<rparr>),
     transport_send = (\<lambda>_ _ _ _ _. Inr \<lparr>sr_ref = Some \<lparr>mr_message_id = ''1''\<rparr>, sr_root_replaced = False\<rparr>),
     resolve_owner = (\<lambda>_. None), resolve_mentions_of = (\<lambda>_. []), frontend_url = [], time_rfc3339 = (\<lambda>_. []),
     e_auth = quiet_auth\<rparr>"

definition empty_db :: db where
  "empty_db = \<lparr>d_maints = [], d_resources_of = [], d_steps = [], d_targets = [], d_deferred = [],
     d_mentions = [], d_snapshots = [], d_resources = [], d_channels = [], d_users = [], d_tasks = [],
     d_auth = empty_auth\<rparr>"

definition sample_row :: "uuid \<Rightarrow> maint_status \<Rightarrow> maint_scope \<Rightarrow> period \<Rightarrow> maint_row" where
  "sample_row i st sc p = \<lparr>mt_id = i, mt_title = ''t'', mt_description = [], mt_planned = p, mt_actual = None,
     mt_impact = ImpactNone, mt_status = st, mt_scope = sc, mt_cancel_code = None, mt_cancel_comment = None,
     mt_created_at = 0, mt_updated_at = None, mt_approver = 7, mt_created_by = 8, mt_task_url = []\<rparr>"

definition quiet_world :: "db \<Rightarrow> world" where
  "quiet_world d = \<lparr>w_env = quiet_env, w_tick = 0, w_db = d, w_tx = None, w_audit = [], w_sent = [], w_valkey = [], w_handles = [],
     w_codes = [], w_tickets = [], w_links = []\<rparr>"

lemmas sample_defs = quiet_world_def quiet_env_def quiet_auth_def empty_auth_def sample_rules_def empty_db_def sample_row_def sample_add_def
  sample_cancel_def sample_new_task_def

end
