(* ===== verification/MaintStore.thy ===== *)
theory MaintStore
  imports Dbtx "HOL-Library.List_Lexorder" "HOL-Library.Char_ord"
begin

text \<open>
  \<open>internal/storages/maintenances\<close> and the part of \<open>internal/storages/users\<close> the
  maintenance service reads. A table is the list of its rows; the constraints of the
  migrations (checks on the two periods, primary keys, the unique index on the step
  order, the foreign keys to \<open>maintenances\<close> and \<open>resources\<close>) make a statement fail.
  The contract of a child table (rows owned by one maintenance, replaced as a whole) is
  the locale \<open>child_table\<close>.
\<close>

section \<open>Ranges and row mappers\<close>

text \<open>
  \<open>xtime.ToPgRange\<close> writes a closed period as \<open>[start, end)\<close> and an open one with an
  unbounded upper end, \<open>FromPgRange\<close> reads them back: the row stores the period itself.
\<close>

definition planned_ok :: "period \<Rightarrow> bool" where
  "planned_ok p = (case p_end p of None \<Rightarrow> False | Some e \<Rightarrow> p_start p < e)"

definition actual_ok :: "period option \<Rightarrow> bool" where
  "actual_ok po = (case po of None \<Rightarrow> True
     | Some p \<Rightarrow> (case p_end p of None \<Rightarrow> True | Some e \<Rightarrow> p_start p < e))"

definition row_ok :: "maint_row \<Rightarrow> bool" where
  "row_ok r = (planned_ok (mt_planned r) \<and> actual_ok (mt_actual r))"

text \<open>
  PostgreSQL refuses a range whose lower bound exceeds its upper bound before it looks at
  the table's checks.
\<close>

definition range_reversed :: "period \<Rightarrow> bool" where
  "range_reversed p = (case p_end p of None \<Rightarrow> False | Some e \<Rightarrow> e < p_start p)"

definition row_error :: "maint_row \<Rightarrow> apperr option" where
  "row_error r = (if range_reversed (mt_planned r) \<or> (case mt_actual r of None \<Rightarrow> False | Some p \<Rightarrow> range_reversed p)
     then Some (PgOther 22000) else if \<not> row_ok r then Some PgCheckViolation else None)"

lemma row_error_None [simp]: "row_error r = None \<longleftrightarrow> row_ok r"
  by (auto simp: row_error_def row_ok_def planned_ok_def actual_ok_def range_reversed_def split: option.splits)

text \<open>What the columns keep of the instants written to them.\<close>

definition pg_period :: "env \<Rightarrow> period \<Rightarrow> period" where
  "pg_period e p = \<lparr>p_start = pg_time e (p_start p), p_end = map_option (pg_time e) (p_end p)\<rparr>"

definition pg_maint_row :: "env \<Rightarrow> maint_row \<Rightarrow> maint_row" where
  "pg_maint_row e r = r\<lparr>mt_planned := pg_period e (mt_planned r), mt_actual := map_option (pg_period e) (mt_actual r),
     mt_created_at := pg_time e (mt_created_at r), mt_updated_at := map_option (pg_time e) (mt_updated_at r)\<rparr>"

definition pg_step_row :: "env \<Rightarrow> step_row \<Rightarrow> step_row" where
  "pg_step_row e r = r\<lparr>st_actual_started_at := map_option (pg_time e) (st_actual_started_at r),
     st_actual_completed_at := map_option (pg_time e) (st_actual_completed_at r),
     st_created_at := pg_time e (st_created_at r), st_updated_at := map_option (pg_time e) (st_updated_at r)\<rparr>"

lemma pg_rows_simps [simp]:
  "mt_id (pg_maint_row e r) = mt_id r" "mt_status (pg_maint_row e r) = mt_status r"
  "mt_scope (pg_maint_row e r) = mt_scope r" "mt_approver (pg_maint_row e r) = mt_approver r"
  "mt_planned (pg_maint_row e r) = pg_period e (mt_planned r)"
  "mt_actual (pg_maint_row e r) = map_option (pg_period e) (mt_actual r)"
  "st_id (pg_step_row e s) = st_id s" "st_maint_id (pg_step_row e s) = st_maint_id s"
  "st_order (pg_step_row e s) = st_order s" "st_status (pg_step_row e s) = st_status s"
  "p_start (pg_period e p) = pg_time e (p_start p)" "p_end (pg_period e p) = map_option (pg_time e) (p_end p)"
  by (simp_all add: pg_maint_row_def pg_step_row_def pg_period_def)

definition fromDBMaintenance :: "maint_row \<Rightarrow> maintenance" where
  "fromDBMaintenance r = \<lparr>m_id = mt_id r, m_title = mt_title r, m_description = mt_description r,
     m_planned = mt_planned r, m_actual = map_option OwnPeriod (mt_actual r), m_resources = [],
     m_scope = mt_scope r, m_impact = mt_impact r, m_status = mt_status r,
     m_cancel_reason = (case mt_cancel_code r of None \<Rightarrow> ReasonUnset | Some c \<Rightarrow> c),
     m_cancel_comment = (case mt_cancel_comment r of None \<Rightarrow> [] | Some c \<Rightarrow> c),
     m_created_by = mt_created_by r, m_created_at = mt_created_at r, m_updated_at = mt_updated_at r,
     m_steps = [], m_notify_targets = [], m_deferred = [], m_mentions = [],
     m_approver = mt_approver r, m_task_url = mt_task_url r\<rparr>"

definition toDBMaintenance :: "maintenance \<Rightarrow> maint_row" where
  "toDBMaintenance m = \<lparr>mt_id = m_id m, mt_title = m_title m, mt_description = m_description m,
     mt_planned = m_planned m, mt_actual = deref_actual m, mt_impact = m_impact m,
     mt_status = m_status m, mt_scope = m_scope m, mt_cancel_code = Some (m_cancel_reason m),
     mt_cancel_comment = Some (m_cancel_comment m), mt_created_at = m_created_at m,
     mt_updated_at = m_updated_at m, mt_approver = m_approver m, mt_created_by = m_created_by m,
     mt_task_url = m_task_url m\<rparr>"

definition toDBMaintenanceStep :: "uuid \<Rightarrow> maint_step \<Rightarrow> step_row" where
  "toDBMaintenanceStep mid s = \<lparr>st_id = nil_uuid, st_maint_id = mid, st_order = s_order s,
     st_description = s_description s, st_rollback = s_rollback s,
     st_duration_minutes = s_duration_minutes s, st_status = s_status s,
     st_actual_started_at = s_actual_started_at s, st_actual_completed_at = s_actual_completed_at s,
     st_created_at = zero_time, st_updated_at = None\<rparr>"

definition fromDBMaintenanceStep :: "step_row \<Rightarrow> maint_step" where
  "fromDBMaintenanceStep r = \<lparr>s_id = st_id r, s_order = st_order r, s_description = st_description r,
     s_rollback = st_rollback r, s_duration_minutes = st_duration_minutes r, s_status = st_status r,
     s_actual_started_at = st_actual_started_at r, s_actual_completed_at = st_actual_completed_at r,
     s_created_at = st_created_at r, s_updated_at = st_updated_at r\<rparr>"

section \<open>The maintenances table\<close>

definition has_maint :: "db \<Rightarrow> uuid \<Rightarrow> bool" where
  "has_maint d mid = (mid \<in> set (map mt_id (d_maints d)))"

definition find_maint :: "db \<Rightarrow> uuid \<Rightarrow> maint_row option" where
  "find_maint d mid = find (\<lambda>r. mt_id r = mid) (d_maints d)"

definition CreateMaint :: "maintenance \<Rightarrow> maintenance op" where
  "CreateMaint m = db_call (\<lambda>e t d.
     let r = pg_maint_row e ((toDBMaintenance m)\<lparr>mt_id := gen e t 0, mt_created_at := clock e t\<rparr>) in
     case row_error r of Some err \<Rightarrow> Inl err
     | None \<Rightarrow> if has_maint d (mt_id r) then Inl PgUniqueViolation
        else Inr (fromDBMaintenance r, d\<lparr>d_maints := d_maints d @ [r]\<rparr>))"

definition getMaint :: "uuid \<Rightarrow> maintenance op" where
  "getMaint mid = obind (db_query (\<lambda>d. find_maint d mid))
     (\<lambda>r. case r of None \<Rightarrow> raise ErrMaintNotFound | Some r \<Rightarrow> ret (fromDBMaintenance r))"

definition GetMaint_store :: "uuid \<Rightarrow> maintenance op" where
  "GetMaint_store mid = getMaint mid"

definition GetMaintForUpdate :: "uuid \<Rightarrow> maintenance op" where
  "GetMaintForUpdate mid = getMaint mid"

definition update_row :: "maint_row \<Rightarrow> db \<Rightarrow> db" where
  "update_row r d = d\<lparr>d_maints := map (\<lambda>x. if mt_id x = mt_id r then r else x) (d_maints d)\<rparr>"

definition UpdateMaint_store :: "maintenance \<Rightarrow> maintenance op" where
  "UpdateMaint_store m = obind UTCNow (\<lambda>now.
     let m' = m\<lparr>m_updated_at := Some now\<rparr> in
     db_call (\<lambda>e _ d.
       let r = pg_maint_row e (toDBMaintenance m') in
       if \<not> has_maint d (mt_id r) then Inr (m', d)
       else case row_error r of Some err \<Rightarrow> Inl err | None \<Rightarrow> Inr (m', update_row r d)))"

definition ListOverdueNotStarted :: "time \<Rightarrow> int \<Rightarrow> maintenance list op" where
  "ListOverdueNotStarted startedBefore limit = db_call (\<lambda>e _ d.
     if limit < 0 then Inl (PgOther 2201) else
     Inr (map fromDBMaintenance (take (nat limit)
       (sort_func (\<lambda>a b. ord_cmp (p_start (mt_planned a)) (p_start (mt_planned b)))
         (filter (\<lambda>r. (mt_status r = StatusDraft \<or> mt_status r = StatusPlanned)
            \<and> p_start (mt_planned r) < pg_time e startedBefore) (d_maints d)))), d))"

definition pendingApprovalsWhereExpr :: "uuid \<Rightarrow> maint_row \<Rightarrow> bool" where
  "pendingApprovalsWhereExpr approver r = (mt_approver r = approver \<and> mt_status r = StatusDraft)"

definition countPendingApprovals :: "(maint_row \<Rightarrow> bool) \<Rightarrow> int op" where
  "countPendingApprovals p = db_query (\<lambda>d. int (length (filter p (d_maints d))))"

definition ListPendingApprovals_store :: "uuid \<Rightarrow> int \<Rightarrow> int \<Rightarrow> (maintenance list \<times> int) op" where
  "ListPendingApprovals_store approver limit offset =
     (if approver = nil_uuid then raise ErrNilApprover else
      obind (countPendingApprovals (pendingApprovalsWhereExpr approver)) (\<lambda>total.
      obind (db_call (\<lambda>_ _ d. if limit < 0 \<or> offset < 0 then Inl (PgOther 2201) else
        Inr (map fromDBMaintenance (take (nat limit) (drop (nat offset)
          (sort_func (\<lambda>a b. if mt_created_at a \<noteq> mt_created_at b
               then ord_cmp (mt_created_at a) (mt_created_at b) else ord_cmp (mt_id a) (mt_id b))
            (filter (pendingApprovalsWhereExpr approver) (d_maints d))))), d)))
        (\<lambda>ms. ret (ms, total))))"

section \<open>Resources, steps and mentions of a maintenance\<close>

definition insert_new :: "'a list \<Rightarrow> 'a list \<Rightarrow> 'a list" where
  "insert_new old xs = old @ uniq (filter (\<lambda>x. x \<notin> set old) xs)"

definition AddResources :: "uuid \<Rightarrow> uuid list \<Rightarrow> unit op" where
  "AddResources mid rs = (if rs = [] then ret () else db_call (\<lambda>_ _ d.
     if \<not> has_maint d mid \<or> \<not> set rs \<subseteq> set (map rs_id (d_resources d)) then Inl PgForeignKeyViolation
     else Inr ((), d\<lparr>d_resources_of := insert_new (d_resources_of d) (map (Pair mid) rs)\<rparr>)))"

definition DeleteResources :: "uuid \<Rightarrow> unit op" where
  "DeleteResources mid = db_call (\<lambda>_ _ d.
     Inr ((), d\<lparr>d_resources_of := filter (\<lambda>p. fst p \<noteq> mid) (d_resources_of d)\<rparr>))"

definition resource_ids :: "db \<Rightarrow> uuid \<Rightarrow> uuid list" where
  "resource_ids d mid = map snd (filter (\<lambda>p. fst p = mid) (d_resources_of d))"

definition resources_of :: "db \<Rightarrow> uuid \<Rightarrow> resource_row list" where
  "resources_of d mid = concat (map (\<lambda>i. filter (\<lambda>r. rs_id r = i) (d_resources d)) (resource_ids d mid))"

definition GetMaintResources :: "uuid list \<Rightarrow> (uuid \<Rightarrow> resource_row list) op" where
  "GetMaintResources ids = (if ids = [] then ret (\<lambda>_. []) else
     db_query (\<lambda>d mid. if mid \<in> set ids then resources_of d mid else []))"

definition new_step_rows :: "env \<Rightarrow> nat \<Rightarrow> uuid \<Rightarrow> maint_step list \<Rightarrow> step_row list" where
  "new_step_rows e t mid steps = map (\<lambda>(i, s). pg_step_row e ((toDBMaintenanceStep mid s)\<lparr>st_id := gen e t i, st_created_at := clock e t\<rparr>))
     (zip [0..<length steps] steps)"

definition steps_unique :: "step_row list \<Rightarrow> bool" where
  "steps_unique rows = (distinct (map st_id rows) \<and> distinct (map (\<lambda>r. (st_maint_id r, st_order r)) rows))"

definition AddSteps :: "uuid \<Rightarrow> maint_step list \<Rightarrow> maint_step list op" where
  "AddSteps mid steps = (if steps = [] then ret [] else db_call (\<lambda>e t d.
     let rows = new_step_rows e t mid steps in
     if \<not> has_maint d mid then Inl PgForeignKeyViolation
     else if \<not> steps_unique (d_steps d @ rows) then Inl PgUniqueViolation
     else Inr (map fromDBMaintenanceStep rows, d\<lparr>d_steps := d_steps d @ rows\<rparr>)))"

definition DeleteSteps :: "uuid \<Rightarrow> unit op" where
  "DeleteSteps mid = db_call (\<lambda>_ _ d. Inr ((), d\<lparr>d_steps := filter (\<lambda>r. st_maint_id r \<noteq> mid) (d_steps d)\<rparr>))"

definition step_rows :: "db \<Rightarrow> uuid \<Rightarrow> step_row list" where
  "step_rows d mid = sort_func (\<lambda>a b. ord_cmp (st_order a) (st_order b))
     (filter (\<lambda>r. st_maint_id r = mid) (d_steps d))"

definition getSteps :: "uuid \<Rightarrow> maint_step list op" where
  "getSteps mid = db_query (\<lambda>d. map fromDBMaintenanceStep (step_rows d mid))"

definition GetMaintSteps :: "uuid \<Rightarrow> maint_step list op" where
  "GetMaintSteps mid = getSteps mid"

definition GetMaintStepsForUpdate :: "uuid \<Rightarrow> maint_step list op" where
  "GetMaintStepsForUpdate mid = getSteps mid"

text \<open>
  \<open>UPDATE(MutableColumns).MODEL(toDBMaintenanceStep(...))\<close> writes every column but the id,
  the two timestamps the mapper leaves at their zero values included.
\<close>

definition UpdateStep :: "uuid \<Rightarrow> maint_step \<Rightarrow> maint_step op" where
  "UpdateStep mid step = obind UTCNow (\<lambda>now.
     let step' = step\<lparr>s_updated_at := Some now\<rparr>; r = (toDBMaintenanceStep mid step')\<lparr>st_id := s_id step'\<rparr> in
     db_call (\<lambda>e _ d.
       let rows = map (\<lambda>x. if st_id x = s_id step' \<and> st_maint_id x = mid then pg_step_row e r else x) (d_steps d) in
       if \<not> steps_unique rows then Inl PgUniqueViolation
       else Inr (step', d\<lparr>d_steps := rows\<rparr>)))"

definition new_mention_rows :: "env \<Rightarrow> nat \<Rightarrow> uuid \<Rightarrow> uuid list \<Rightarrow> mention_row list" where
  "new_mention_rows e t mid us = map (\<lambda>(i, u). \<lparr>mn_id = gen e t i, mn_maint_id = mid, mn_user_id = u,
     mn_created_at = pg_time e (clock e t)\<rparr>) (zip [0..<length us] us)"

definition mention_ids :: "db \<Rightarrow> uuid \<Rightarrow> uuid list" where
  "mention_ids d mid = map mn_user_id (filter (\<lambda>r. mn_maint_id r = mid) (d_mentions d))"

definition AddMentions :: "uuid \<Rightarrow> uuid list \<Rightarrow> unit op" where
  "AddMentions mid us = (if us = [] then ret () else db_call (\<lambda>e t d.
     let rows = new_mention_rows e t mid (uniq (filter (\<lambda>u. u \<notin> set (mention_ids d mid)) us)) in
     if \<not> has_maint d mid then Inl PgForeignKeyViolation
     else if \<not> distinct (map mn_id (d_mentions d @ rows)) then Inl PgUniqueViolation
     else Inr ((), d\<lparr>d_mentions := d_mentions d @ rows\<rparr>)))"

definition DeleteMentions :: "uuid \<Rightarrow> unit op" where
  "DeleteMentions mid = db_call (\<lambda>_ _ d.
     Inr ((), d\<lparr>d_mentions := filter (\<lambda>r. mn_maint_id r \<noteq> mid) (d_mentions d)\<rparr>))"

definition GetMaintMentions :: "uuid \<Rightarrow> uuid list op" where
  "GetMaintMentions mid = db_query (\<lambda>d. map mn_user_id
     (sort_func (\<lambda>a b. if mn_created_at a \<noteq> mn_created_at b then ord_cmp (mn_created_at a) (mn_created_at b)
         else ord_cmp (mn_id a) (mn_id b))
       (filter (\<lambda>r. mn_maint_id r = mid) (d_mentions d))))"

section \<open>Users\<close>

record list_users_cmd =
  lu_ids :: "uuid list"
  lu_roles :: "role list"
  lu_exclude_blocked :: bool
  lu_limit :: int
  lu_offset :: int

definition listWhereExpr :: "list_users_cmd \<Rightarrow> user \<Rightarrow> bool" where
  "listWhereExpr cmd u = ((lu_ids cmd \<noteq> [] \<longrightarrow> u_id u \<in> set (lu_ids cmd))
     \<and> (lu_roles cmd \<noteq> [] \<longrightarrow> set (u_roles u) \<inter> set (lu_roles cmd) \<noteq> {})
     \<and> (lu_exclude_blocked cmd \<longrightarrow> u_blocked_at u = None))"

definition UsersList :: "list_users_cmd \<Rightarrow> (user list \<times> int) op" where
  "UsersList cmd = obind (db_query (\<lambda>d. int (length (filter (listWhereExpr cmd) (d_users d))))) (\<lambda>total.
     obind (db_call (\<lambda>_ _ d. if lu_limit cmd < 0 \<or> lu_offset cmd < 0 then Inl (PgOther 2201) else
       Inr (take (nat (lu_limit cmd)) (drop (nat (lu_offset cmd))
         (sort_func (\<lambda>a b. if u_name a \<noteq> u_name b then ord_cmp (u_name a) (u_name b)
             else ord_cmp (u_id a) (u_id b)) (filter (listWhereExpr cmd) (d_users d)))), d)))
       (\<lambda>us. ret (us, total)))"

definition CountActiveAdmins :: "int op" where
  "CountActiveAdmins = db_query (\<lambda>d. int (length (filter (\<lambda>u. RoleAdmin \<in> set (u_roles u) \<and> u_blocked_at u = None) (d_users d))))"

text \<open>
  \<open>ListUsers\<close> also reads the sign-in methods of the users it found; nothing here uses
  them, so of that read only its failure is kept.
\<close>

definition ListUsers :: "list_users_cmd \<Rightarrow> (user list \<times> int \<times> int) op" where
  "ListUsers cmd = obind (UsersList cmd) (\<lambda>(us, total). obind CountActiveAdmins (\<lambda>admins.
     osequel (if us = [] then ret () else db_query (\<lambda>_. ())) (ret (us, total, admins))))"

lemmas maint_store_defs = CreateMaint_def getMaint_def GetMaint_store_def GetMaintForUpdate_def
  UpdateMaint_store_def ListOverdueNotStarted_def countPendingApprovals_def ListPendingApprovals_store_def
  AddResources_def DeleteResources_def GetMaintResources_def AddSteps_def DeleteSteps_def getSteps_def
  GetMaintSteps_def GetMaintStepsForUpdate_def UpdateStep_def AddMentions_def DeleteMentions_def
  GetMaintMentions_def UsersList_def CountActiveAdmins_def ListUsers_def

lemma maint_store_db_only [db_only_rules]:
  "db_only (CreateMaint m)" "db_only (GetMaint_store mid)" "db_only (GetMaintForUpdate mid)"
  "db_only (UpdateMaint_store m)" "db_only (ListOverdueNotStarted c l)"
  "db_only (ListPendingApprovals_store a l off)" "db_only (AddResources mid rs)"
  "db_only (DeleteResources mid)" "db_only (GetMaintResources ids)" "db_only (AddSteps mid ss)"
  "db_only (DeleteSteps mid)" "db_only (GetMaintSteps mid)" "db_only (GetMaintStepsForUpdate mid)"
  "db_only (UpdateStep mid s)" "db_only (AddMentions mid us)" "db_only (DeleteMentions mid)"
  "db_only (GetMaintMentions mid)" "db_only (UsersList cmd)" "db_only (ListUsers cmd)"
  by (auto simp: maint_store_defs Let_def intro!: db_only_rules)

section \<open>The round trip of a maintenance row\<close>

lemma fromDB_toDB_fields [simp]:
  "m_id (fromDBMaintenance r) = mt_id r" "m_status (fromDBMaintenance r) = mt_status r"
  "m_planned (fromDBMaintenance r) = mt_planned r" "deref_actual (fromDBMaintenance r) = mt_actual r"
  "m_scope (fromDBMaintenance r) = mt_scope r" "m_approver (fromDBMaintenance r) = mt_approver r"
  "m_actual (fromDBMaintenance r) = map_option OwnPeriod (mt_actual r)"
  "mt_id (toDBMaintenance m) = m_id m" "mt_status (toDBMaintenance m) = m_status m"
  "mt_planned (toDBMaintenance m) = m_planned m" "mt_actual (toDBMaintenance m) = deref_actual m"
  "mt_scope (toDBMaintenance m) = m_scope m"
  by (auto simp: fromDBMaintenance_def toDBMaintenance_def deref_actual_def split: option.splits)

lemma toDB_fromDB_row:
  "toDBMaintenance (fromDBMaintenance r) = r\<lparr>
     mt_cancel_code := Some (case mt_cancel_code r of None \<Rightarrow> ReasonUnset | Some c \<Rightarrow> c),
     mt_cancel_comment := Some (case mt_cancel_comment r of None \<Rightarrow> [] | Some c \<Rightarrow> c)\<rparr>"
  by (cases r) (simp add: toDBMaintenance_def fromDBMaintenance_def deref_actual_def split: option.splits)

lemma find_maint_Some: "find_maint d mid = Some r \<Longrightarrow> r \<in> set (d_maints d) \<and> mt_id r = mid"
  by (auto simp: find_maint_def find_Some_iff)

lemma find_maint_None: "find_maint d mid = None \<longleftrightarrow> \<not> has_maint d mid"
  by (auto simp: find_maint_def has_maint_def find_None_iff)

lemma find_maint_update_row:
  "find_maint (update_row r d) mid = (if mid = mt_id r \<and> has_maint d mid then Some r else find_maint d mid)"
proof -
  have "find (\<lambda>x. mt_id x = mid) (map (\<lambda>x. if mt_id x = mt_id r then r else x) rs)
      = (if mid = mt_id r \<and> mid \<in> mt_id ` set rs then Some r else find (\<lambda>x. mt_id x = mid) rs)" for rs
    by (induction rs) auto
  then show ?thesis by (auto simp: find_maint_def update_row_def has_maint_def)
qed

section \<open>Child tables\<close>

locale child_table =
  fixes content :: "db \<Rightarrow> uuid \<Rightarrow> 'c"
    and none :: 'c
    and added :: "env \<Rightarrow> 'v list \<Rightarrow> 'c"
    and del :: "uuid \<Rightarrow> unit op"
    and add :: "uuid \<Rightarrow> 'v list \<Rightarrow> 'x op"
    and others :: "db \<Rightarrow> db"
  assumes del_db_only: "db_only (del mid)"
    and del_content: "post (del mid) (\<lambda>_ w'. content (w_db w') mid = none) (\<lambda>_ _. True) w"
    and del_frame: "post (del mid) (\<lambda>_ w'. others (w_db w') = others (w_db w)
          \<and> (mid' \<noteq> mid \<longrightarrow> content (w_db w') mid' = content (w_db w) mid')) (\<lambda>_ _. True) w"
    and add_content: "content (w_db w) mid = none \<Longrightarrow>
          post (add mid vs) (\<lambda>_ w'. content (w_db w') mid = added (w_env w) vs) (\<lambda>_ _. True) w"
    and add_frame: "post (add mid vs) (\<lambda>_ w'. others (w_db w') = others (w_db w)
          \<and> (mid' \<noteq> mid \<longrightarrow> content (w_db w') mid' = content (w_db w) mid')) (\<lambda>_ _. True) w"
begin

text \<open>Delete-all then create-all replaces the rows of one maintenance and touches nothing else.\<close>

lemma del_env: "post (del mid) (\<lambda>_ w'. content (w_db w') mid = none \<and> w_env w' = w_env w) (\<lambda>_ _. True) w"
  by (rule post_mono [OF del_content]) (use db_onlyD [OF del_db_only] in \<open>auto simp: same_frame_def\<close>)

lemma replace_content:
  "post (osequel (del mid) (add mid vs)) (\<lambda>_ w'. content (w_db w') mid = added (w_env w) vs) (\<lambda>_ _. True) w"
  by simp (rule post_weaken [OF del_env], use add_content in metis, simp)

lemma replace_others:
  "post (osequel (del mid) (add mid vs)) (\<lambda>_ w'. others (w_db w') = others (w_db w)
     \<and> (mid' \<noteq> mid \<longrightarrow> content (w_db w') mid' = content (w_db w) mid')) (\<lambda>_ _. True) w"
proof -
  have "post (add mid vs) (\<lambda>_ w'. others (w_db w') = others (w_db w)
      \<and> (mid' \<noteq> mid \<longrightarrow> content (w_db w') mid' = content (w_db w) mid')) (\<lambda>_ _. True) v"
    if "others (w_db v) = others (w_db w) \<and> (mid' \<noteq> mid \<longrightarrow> content (w_db v) mid' = content (w_db w) mid')" for v
    by (rule post_weaken [OF add_frame [where mid = mid and vs = vs and mid' = mid' and w = v]]) (use that in auto)
  then show ?thesis by simp (rule post_weaken [OF del_frame [where mid = mid and mid' = mid' and w = w]], auto)
qed

end

lemma post_db_call: "post (db_call f) Q R w =
  (case fault (w_env w) (w_tick w) of Some e \<Rightarrow> R e (tick w)
   | None \<Rightarrow> (case f (w_env w) (w_tick w) (w_db w) of Inl e \<Rightarrow> R e (tick w)
       | Inr (a, d) \<Rightarrow> Q a ((tick w)\<lparr>w_db := d\<rparr>)))"
  by (simp add: post_def db_call_def split: option.split sum.split prod.split)

lemma post_db_query: "post (db_query q) Q R w =
  (case fault (w_env w) (w_tick w) of Some e \<Rightarrow> R e (tick w) | None \<Rightarrow> Q (q (w_db w)) (tick w))"
  by (simp add: db_query_def post_db_call split: option.split)

lemma post_now [simp]: "post UTCNow Q R w = Q (clock (w_env w) (w_tick w)) (tick w)"
  by (simp add: post_def UTCNow_def)

lemma uniq_distinct: "distinct xs \<Longrightarrow> uniq xs = xs"
  by (induction xs) (auto simp: filter_id_conv)

lemma uniq_map_inj: "inj f \<Longrightarrow> uniq (map f xs) = map f (uniq xs)"
  by (induction xs) (simp_all add: filter_map comp_def inj_eq)

lemma filter_eq_Nil_id: "(\<And>x. x \<in> set xs \<Longrightarrow> P x) \<Longrightarrow> filter P xs = xs"
  by (simp add: filter_id_conv)

lemma map_snd_pairs: "map snd (filter (\<lambda>p. fst p = m) (map (Pair m') rs)) = (if m = m' then rs else [])"
  by (induction rs) auto

interpretation resources_tab: child_table resource_ids "[]" "\<lambda>_. uniq" DeleteResources AddResources
  "\<lambda>d. d\<lparr>d_resources_of := []\<rparr>"
proof unfold_locales
  have pairs: "map snd (filter (\<lambda>p. fst p = m) (uniq (filter (\<lambda>x. x \<notin> set old) (map (Pair m') rs))))
      = (if m = m' then uniq (filter (\<lambda>r. (m', r) \<notin> set old) rs) else [])" for m m' rs and old :: "(uuid \<times> uuid) list"
  proof -
    have "uniq (filter (\<lambda>x. x \<notin> set old) (map (Pair m') rs)) = map (Pair m') (uniq (filter (\<lambda>r. (m', r) \<notin> set old) rs))"
      by (simp add: filter_map comp_def uniq_map_inj inj_def)
    then show ?thesis by (simp only: map_snd_pairs)
  qed
  show "db_only (DeleteResources mid)" for mid by (rule db_only_rules)
  show "post (DeleteResources mid) (\<lambda>_ w'. resource_ids (w_db w') mid = []) (\<lambda>_ _. True) w" for mid w
    by (auto simp: DeleteResources_def post_db_call resource_ids_def split: option.split)
  show "post (DeleteResources mid) (\<lambda>_ w'. (w_db w')\<lparr>d_resources_of := []\<rparr> = (w_db w)\<lparr>d_resources_of := []\<rparr>
      \<and> (mid' \<noteq> mid \<longrightarrow> resource_ids (w_db w') mid' = resource_ids (w_db w) mid')) (\<lambda>_ _. True) w" for mid mid' w
    by (auto simp: DeleteResources_def post_db_call resource_ids_def split: option.split
        intro!: arg_cong [of _ _ "map snd"] filter_cong)
  show "post (AddResources mid vs) (\<lambda>_ w'. resource_ids (w_db w') mid = uniq vs) (\<lambda>_ _. True) w"
    if "resource_ids (w_db w) mid = []" for w mid vs
  proof -
    have "(mid, r) \<notin> set (d_resources_of (w_db w))" for r
      using that by (auto simp: resource_ids_def filter_empty_conv)
    with that show ?thesis
      by (auto simp: AddResources_def post_db_call resource_ids_def insert_new_def pairs uniq_map_inj inj_def
          map_snd_pairs comp_def split: option.split)
  qed
  show "post (AddResources mid vs) (\<lambda>_ w'. (w_db w')\<lparr>d_resources_of := []\<rparr> = (w_db w)\<lparr>d_resources_of := []\<rparr>
      \<and> (mid' \<noteq> mid \<longrightarrow> resource_ids (w_db w') mid' = resource_ids (w_db w) mid')) (\<lambda>_ _. True) w" for mid vs mid' w
    by (auto simp: AddResources_def post_db_call resource_ids_def insert_new_def pairs split: option.split)
qed

definition step_value :: "step_row \<Rightarrow> int \<times> string \<times> string \<times> int \<times> step_status" where
  "step_value r = (st_order r, st_description r, st_rollback r, st_duration_minutes r, st_status r)"

definition step_values :: "db \<Rightarrow> uuid \<Rightarrow> (int \<times> string \<times> string \<times> int \<times> step_status) list" where
  "step_values d mid = map step_value (filter (\<lambda>r. st_maint_id r = mid) (d_steps d))"

definition steps_added :: "maint_step list \<Rightarrow> (int \<times> string \<times> string \<times> int \<times> step_status) list" where
  "steps_added ss = map (\<lambda>s. step_value (toDBMaintenanceStep nil_uuid s)) ss"

lemma new_step_rows_maint: "r \<in> set (new_step_rows e t mid ss) \<Longrightarrow> st_maint_id r = mid"
  by (auto simp: new_step_rows_def toDBMaintenanceStep_def)

lemma new_step_rows_values: "map step_value (new_step_rows e t mid ss) = steps_added ss"
  unfolding new_step_rows_def steps_added_def
  by (rule map_indexed) (simp add: step_value_def toDBMaintenanceStep_def pg_step_row_def)

interpretation steps_tab: child_table step_values "[]" "\<lambda>_. steps_added" DeleteSteps AddSteps "\<lambda>d. d\<lparr>d_steps := []\<rparr>"
proof unfold_locales
  have new: "filter (\<lambda>r. st_maint_id r = m) (new_step_rows e t mid ss) = (if m = mid then new_step_rows e t mid ss else [])"
    for m e t mid ss
    by (auto intro!: filter_all filter_none dest: new_step_rows_maint)
  show "db_only (DeleteSteps mid)" for mid by (rule db_only_rules)
  show "post (DeleteSteps mid) (\<lambda>_ w'. step_values (w_db w') mid = []) (\<lambda>_ _. True) w" for mid w
    by (auto simp: DeleteSteps_def post_db_call step_values_def split: option.split)
  show "post (DeleteSteps mid) (\<lambda>_ w'. (w_db w')\<lparr>d_steps := []\<rparr> = (w_db w)\<lparr>d_steps := []\<rparr>
      \<and> (mid' \<noteq> mid \<longrightarrow> step_values (w_db w') mid' = step_values (w_db w) mid')) (\<lambda>_ _. True) w" for mid mid' w
    by (auto simp: DeleteSteps_def post_db_call step_values_def split: option.split
        intro!: arg_cong [of _ _ "map step_value"] filter_cong)
  show "post (AddSteps mid vs) (\<lambda>_ w'. step_values (w_db w') mid = steps_added vs) (\<lambda>_ _. True) w"
    if "step_values (w_db w) mid = []" for w mid vs
    using that by (auto simp: AddSteps_def post_db_call step_values_def new new_step_rows_values Let_def
        steps_added_def [of "[]"] split: option.split)
  show "post (AddSteps mid vs) (\<lambda>_ w'. (w_db w')\<lparr>d_steps := []\<rparr> = (w_db w)\<lparr>d_steps := []\<rparr>
      \<and> (mid' \<noteq> mid \<longrightarrow> step_values (w_db w') mid' = step_values (w_db w) mid')) (\<lambda>_ _. True) w" for mid vs mid' w
    by (auto simp: AddSteps_def post_db_call step_values_def new Let_def split: option.split)
qed

lemma new_mention_rows_maint: "r \<in> set (new_mention_rows e t mid us) \<Longrightarrow> mn_maint_id r = mid"
  by (auto simp: new_mention_rows_def)

lemma new_mention_rows_users: "map mn_user_id (new_mention_rows e t mid us) = us"
  unfolding new_mention_rows_def by (subst map_indexed [where h = "\<lambda>x. x"]) simp_all

interpretation mentions_tab: child_table mention_ids "[]" "\<lambda>_. uniq" DeleteMentions AddMentions "\<lambda>d. d\<lparr>d_mentions := []\<rparr>"
proof unfold_locales
  have new: "filter (\<lambda>r. mn_maint_id r = m) (new_mention_rows e t mid us)
      = (if m = mid then new_mention_rows e t mid us else [])" for m e t mid us
    by (auto intro!: filter_all filter_none dest: new_mention_rows_maint)
  show "db_only (DeleteMentions mid)" for mid by (rule db_only_rules)
  show "post (DeleteMentions mid) (\<lambda>_ w'. mention_ids (w_db w') mid = []) (\<lambda>_ _. True) w" for mid w
    by (auto simp: DeleteMentions_def post_db_call mention_ids_def split: option.split)
  show "post (DeleteMentions mid) (\<lambda>_ w'. (w_db w')\<lparr>d_mentions := []\<rparr> = (w_db w)\<lparr>d_mentions := []\<rparr>
      \<and> (mid' \<noteq> mid \<longrightarrow> mention_ids (w_db w') mid' = mention_ids (w_db w) mid')) (\<lambda>_ _. True) w" for mid mid' w
    by (auto simp: DeleteMentions_def post_db_call mention_ids_def split: option.split
        intro!: arg_cong [of _ _ "map mn_user_id"] filter_cong)
  show "post (AddMentions mid vs) (\<lambda>_ w'. mention_ids (w_db w') mid = uniq vs) (\<lambda>_ _. True) w"
    if "mention_ids (w_db w) mid = []" for w mid vs
  proof -
    have none: "filter (\<lambda>r. mn_maint_id r = mid) (d_mentions (w_db w)) = []"
      using that by (simp add: mention_ids_def)
    have "filter (\<lambda>u. u \<notin> set (mention_ids (w_db w) mid)) vs = vs" by (simp add: that)
    then show ?thesis
      by (cases "vs = []") (simp_all add: AddMentions_def that post_db_call new new_mention_rows_users Let_def none
          mention_ids_def [of "d_mentions_update f d" for f d] split: option.split)
  qed
  show "post (AddMentions mid vs) (\<lambda>_ w'. (w_db w')\<lparr>d_mentions := []\<rparr> = (w_db w)\<lparr>d_mentions := []\<rparr>
      \<and> (mid' \<noteq> mid \<longrightarrow> mention_ids (w_db w') mid' = mention_ids (w_db w) mid')) (\<lambda>_ _. True) w" for mid vs mid' w
    by (auto simp: AddMentions_def post_db_call mention_ids_def new Let_def split: option.split)
qed

section \<open>Running a read\<close>

lemma run_query: "obind (db_query q) k w = (case fault (w_env w) (w_tick w) of Some e \<Rightarrow> (Inl e, tick w)
    | None \<Rightarrow> k (q (w_db w)) (tick w))"
  by (simp add: obind_def db_query_def db_call_def split: option.split)

lemma run_now: "obind UTCNow k w = k (clock (w_env w) (w_tick w)) (tick w)"
  by (simp add: obind_def UTCNow_def)

lemma run_getMaint: "obind (getMaint mid) k w = (case fault (w_env w) (w_tick w) of Some e \<Rightarrow> (Inl e, tick w)
    | None \<Rightarrow> (case find_maint (w_db w) mid of None \<Rightarrow> (Inl ErrMaintNotFound, tick w)
       | Some r \<Rightarrow> k (fromDBMaintenance r) (tick w)))"
  by (simp add: getMaint_def obind_def [of "obind m f" for m f] run_query raise_def ret_def split: option.split)

lemma run_call: "obind (db_call f) k w = (case fault (w_env w) (w_tick w) of Some e \<Rightarrow> (Inl e, tick w)
    | None \<Rightarrow> (case f (w_env w) (w_tick w) (w_db w) of Inl e \<Rightarrow> (Inl e, tick w)
       | Inr (a, d) \<Rightarrow> k a ((tick w)\<lparr>w_db := d\<rparr>)))"
  by (simp add: obind_def db_call_def split: option.split sum.split prod.split)

text \<open>A run in which the driver fails no statement.\<close>

definition fault_free :: "world \<Rightarrow> bool" where
  "fault_free w \<longleftrightarrow> (\<forall>t. fault (w_env w) t = None)"

lemma fault_freeD [simp]: "fault_free w \<Longrightarrow> fault (w_env w) t = None"
  by (simp add: fault_free_def)

lemma WithinTx_fault_free:
  assumes "w_tx w = None" "fault_free w" "fn ((tick w)\<lparr>w_tx := Some (w_db w)\<rparr>) = (Inr a, w2)" "w_env w2 = w_env w"
  shows "WithinTx fn w = (Inr a, (tick w2)\<lparr>w_tx := None\<rparr>)"
  using assms by (simp add: WithinTx_def tx_begin_def tx_commit_def run_query fault_free_def)

end
