(* ===== verification/ConflictEntity.thy ===== *)
theory ConflictEntity
  imports Entity "HOL-Library.List_Lexorder" "HOL-Library.Char_ord" "HOL-Library.Product_Lexorder"
begin

text \<open>
  \<open>internal/entity/conflict.go\<close>: the fingerprint that gates an approval, the marking of
  conflicts the approver had seen, and the response order. The digest
  \<open>hex(sha256(buf))\<close> is a parameter \<open>h\<close>; the bytes it is applied to are built here
  exactly as the code appends them.
\<close>

section \<open>The bytes of a fingerprint\<close>

definition uuid_bytes :: "uuid \<Rightarrow> string" where
  "uuid_bytes u = map (\<lambda>i. char_of (unat u div 256 ^ (15 - i))) [0..<16]"

definition scope_string :: "maint_scope \<Rightarrow> string" where
  "scope_string s = (case s of ScopeGlobal \<Rightarrow> ''global'' | ScopeResources \<Rightarrow> ''resource'' | ScopeUnset \<Rightarrow> '''')"

fun show_nat :: "nat \<Rightarrow> string" where
  "show_nat n = (if n < 10 then [char_of (48 + n)] else show_nat (n div 10) @ [char_of (48 + n mod 10)])"

declare show_nat.simps [simp del]

definition show_int :: "int \<Rightarrow> string" where
  "show_int i = (if i < 0 then CHR ''-'' # show_nat (nat (- i)) else show_nat (nat i))"

definition conflictResourcesFingerprint :: "uuid list \<Rightarrow> string" where
  "conflictResourcesFingerprint rs = concat (map (\<lambda>r. ''id='' @ uuid_bytes r) rs)"

definition conflict_bytes :: "conflict_wr \<Rightarrow> string" where
  "conflict_bytes c = ''maintenance_id='' @ uuid_bytes (c_maint_id c)
     @ ''scope='' @ scope_string (c_scope c)
     @ ''overlap_start='' @ show_int (unix_seconds (c_overlap_start c))
     @ ''overlap_end='' @ show_int (unix_seconds (c_overlap_end c))
     @ ''resources='' @ conflictResourcesFingerprint (c_resources c)"

definition SortResources :: "uuid list \<Rightarrow> uuid list" where
  "SortResources rs = sort_func ord_cmp rs"

definition fingerprint_cmp :: "conflict_wr \<Rightarrow> conflict_wr \<Rightarrow> int" where
  "fingerprint_cmp a b =
     (if c_maint_id a \<noteq> c_maint_id b then ord_cmp (c_maint_id a) (c_maint_id b)
      else if c_overlap_start a \<noteq> c_overlap_start b then ord_cmp (c_overlap_start a) (c_overlap_start b)
      else if c_overlap_end a \<noteq> c_overlap_end b then ord_cmp (c_overlap_end a) (c_overlap_end b)
      else ord_cmp (scope_string (c_scope a)) (scope_string (c_scope b)))"

definition fingerprint_buf :: "conflict_wr list \<Rightarrow> string" where
  "fingerprint_buf cs = (if cs = [] then ''EMPTY_CONFLICT_SET''
     else concat (map conflict_bytes
       (map (\<lambda>c. c\<lparr>c_resources := SortResources (c_resources c)\<rparr>) (sort_func fingerprint_cmp cs))))"

definition ConflictFingerprint :: "(string \<Rightarrow> string) \<Rightarrow> conflict_wr list \<Rightarrow> string" where
  "ConflictFingerprint h cs = h (fingerprint_buf cs)"

definition project_shared :: "uuid list \<Rightarrow> conflict_wr option list \<Rightarrow> conflict_wr list" where
  "project_shared own cs = map (\<lambda>c. c\<lparr>c_resources := filter (\<lambda>i. i \<in> set own) (c_resources c), c_known := False\<rparr>)
     (map the (filter (\<lambda>c. c \<noteq> None) cs))"

definition ConflictFingerprintFor :: "(string \<Rightarrow> string) \<Rightarrow> conflict_wr option list \<Rightarrow> uuid list \<Rightarrow> string" where
  "ConflictFingerprintFor h cs own = ConflictFingerprint h (project_shared own cs)"

section \<open>Marking and ordering\<close>

definition MarkKnownAtApproval :: "conflict_wr list \<Rightarrow> conflict_wr list \<Rightarrow> conflict_wr list" where
  "MarkKnownAtApproval live snap = (if live = [] \<or> snap = [] then live
     else map (\<lambda>c. c\<lparr>c_known := (c_maint_id c \<in> set (map c_maint_id snap))\<rparr>) live)"

definition conflicts_cmp :: "conflict_wr \<Rightarrow> conflict_wr \<Rightarrow> int" where
  "conflicts_cmp a b =
     (if c_known a \<noteq> c_known b then (if c_known a then 1 else -1)
      else if c_overlap_start a \<noteq> c_overlap_start b then ord_cmp (c_overlap_start a) (c_overlap_start b)
      else ord_cmp (c_maint_id a) (c_maint_id b))"

definition SortConflicts :: "conflict_wr list \<Rightarrow> conflict_wr list" where
  "SortConflicts cs = sort_func conflicts_cmp cs"

section \<open>The comparators are comparators\<close>

definition fingerprint_key :: "conflict_wr \<Rightarrow> uuid \<times> time \<times> time \<times> string" where
  "fingerprint_key c = (c_maint_id c, c_overlap_start c, c_overlap_end c, scope_string (c_scope c))"

definition conflicts_key :: "conflict_wr \<Rightarrow> bool \<times> time \<times> uuid" where
  "conflicts_key c = (c_known c, c_overlap_start c, c_maint_id c)"

lemma fingerprint_cmp_key: "fingerprint_cmp a b = ord_cmp (fingerprint_key a) (fingerprint_key b)"
  by (auto simp: fingerprint_cmp_def fingerprint_key_def ord_cmp_def less_prod_def)

lemma conflicts_cmp_key: "conflicts_cmp a b = ord_cmp (conflicts_key a) (conflicts_key b)"
  by (auto simp: conflicts_cmp_def conflicts_key_def ord_cmp_def less_prod_def)

interpretation fp: comparator fingerprint_cmp
  unfolding fingerprint_cmp_key by (rule ord_on.comparator_axioms)

interpretation sc: comparator conflicts_cmp
  unfolding conflicts_cmp_key by (rule ord_on.comparator_axioms)

section \<open>The encoding can be read back\<close>

text \<open>Two strings split at the first character outside a class split the same way.\<close>

lemma span_cancel:
  assumes "xs @ u = ys @ v" "\<forall>c \<in> set xs. P c" "\<forall>c \<in> set ys. P c"
    and "u \<noteq> [] \<Longrightarrow> \<not> P (hd u)" "v \<noteq> [] \<Longrightarrow> \<not> P (hd v)"
  shows "xs = ys \<and> u = v"
  using assms
proof (induction xs arbitrary: ys)
  case Nil
  then show ?case by (cases ys) auto
next
  case (Cons x xs)
  then show ?case by (cases ys) auto
qed

lemma length_uuid_bytes [simp]: "length (uuid_bytes u) = 16"
  by (simp add: uuid_bytes_def)

lemma uuid_bytes_nth: "i < 16 \<Longrightarrow> uuid_bytes u ! i = char_of (unat u div 256 ^ (15 - i))"
  unfolding uuid_bytes_def by (subst nth_map_upt) simp_all

lemma byte_eq: "char_of (m::nat) = (char_of n :: char) \<longleftrightarrow> m mod 256 = n mod 256"
  using char_of_mod_256 by (metis of_char_of)

lemma base256_eq:
  "(\<And>i. i < k \<Longrightarrow> (m::nat) div 256 ^ i mod 256 = n div 256 ^ i mod 256) \<Longrightarrow> m mod 256 ^ k = n mod 256 ^ k"
proof (induction k)
  case (Suc k)
  have split: "x mod 256 ^ Suc k = x mod 256 ^ k + 256 ^ k * (x div 256 ^ k mod 256)" for x :: nat
    by (metis mod_mult2_eq power_Suc2 add.commute)
  show ?case using Suc.IH Suc.prems by (simp only: split)
qed simp

lemma uuid_bytes_inj [simp]: "uuid_bytes u = uuid_bytes v \<longleftrightarrow> u = v"
proof
  assume eq: "uuid_bytes u = uuid_bytes v"
  have "unat u div 256 ^ i mod 256 = unat v div 256 ^ i mod 256" if "i < 16" for i
  proof -
    have "uuid_bytes u ! (15 - i) = uuid_bytes v ! (15 - i)" using eq by simp
    then show ?thesis using that by (simp add: uuid_bytes_nth byte_eq)
  qed
  then have "unat u mod 256 ^ 16 = unat v mod 256 ^ 16" by (rule base256_eq)
  moreover have "unat w < 256 ^ 16" for w :: uuid
    using unsigned_less [of w, where ?'a = nat] by simp
  ultimately show "u = v" by (simp add: word_unat_eq_iff)
qed simp

lemma show_nat_digits: "\<forall>c \<in> set (show_nat n). of_char c \<in> {48..57::nat}"
proof (induction n rule: show_nat.induct)
  case (1 n)
  show ?case
  proof (cases "n < 10")
    case True
    then show ?thesis by (simp add: show_nat.simps [of n] of_char_of)
  next
    case False
    with 1 have "\<forall>c \<in> set (show_nat (n div 10)). of_char c \<in> {48..57::nat}" by simp
    moreover have "n mod 10 < 10" by simp
    ultimately show ?thesis using False by (simp add: show_nat.simps [of n] of_char_of)
  qed
qed

lemma show_nat_value: "foldl (\<lambda>a c. a * 10 + (of_char c - 48)) 0 (show_nat n) = n"
proof (induction n rule: show_nat.induct)
  case (1 n)
  show ?case
  proof (cases "n < 10")
    case True
    then show ?thesis by (simp add: show_nat.simps [of n] of_char_of)
  next
    case False
    then show ?thesis using 1 by (simp add: show_nat.simps [of n] of_char_of)
  qed
qed

lemma show_nat_inj: "show_nat m = show_nat n \<longleftrightarrow> m = n"
  by (metis show_nat_value)

lemma show_int_inj: "show_int i = show_int j \<longleftrightarrow> i = j"
proof -
  have minus: "CHR ''-'' \<notin> set (show_nat n)" for n
    using show_nat_digits [of n] by force
  then have "show_nat n \<noteq> CHR ''-'' # xs" for n xs by (metis list.set_intros(1))
  then show ?thesis by (auto simp: show_int_def show_nat_inj dest: sym)
qed

lemma show_int_chars: "c \<in> set (show_int i) \<Longrightarrow> c \<noteq> CHR ''o'' \<and> c \<noteq> CHR ''r''"
  using show_nat_digits [of "nat i"] show_nat_digits [of "nat (- i)"]
  by (auto simp: show_int_def split: if_splits)

lemma show_int_cancel:
  assumes "show_int i @ u = show_int j @ v" "u \<noteq> []" "v \<noteq> []" "hd u \<in> set ''or''" "hd v \<in> set ''or''"
  shows "i = j \<and> u = v"
  using span_cancel [of "show_int i" u "show_int j" v "\<lambda>c. c \<notin> set ''or''"] assms show_int_chars
    show_int_inj by auto

lemma scope_cancel:
  "scope_string s @ ''overlap_start='' @ u = scope_string t @ ''overlap_start='' @ v \<longleftrightarrow> s = t \<and> u = v"
  by (cases s; cases t) (auto simp: scope_string_def)

lemma resources_cancel:
  "conflictResourcesFingerprint rs @ u = conflictResourcesFingerprint rs' @ v \<Longrightarrow>
   (u \<noteq> [] \<Longrightarrow> hd u = CHR ''m'') \<Longrightarrow> (v \<noteq> [] \<Longrightarrow> hd v = CHR ''m'') \<Longrightarrow> rs = rs' \<and> u = v"
proof (induction rs arbitrary: rs')
  case Nil
  then show ?case by (cases rs') (auto simp: conflictResourcesFingerprint_def)
next
  case (Cons r rs)
  show ?case
  proof (cases rs')
    case Nil
    with Cons.prems show ?thesis by (auto simp: conflictResourcesFingerprint_def)
  next
    case (Cons r' rs'')
    with Cons.prems(1) have "uuid_bytes r @ conflictResourcesFingerprint rs @ u
        = uuid_bytes r' @ conflictResourcesFingerprint rs'' @ v"
      by (simp add: conflictResourcesFingerprint_def)
    then have "uuid_bytes r = uuid_bytes r'"
      and rest: "conflictResourcesFingerprint rs @ u = conflictResourcesFingerprint rs'' @ v"
      by (simp_all add: append_eq_append_conv)
    with Cons.IH [OF rest Cons.prems(2,3)] Cons show ?thesis by simp
  qed
qed

text \<open>What the digest depends on: the fields it hashes, instants cut to whole seconds.\<close>

definition hashed :: "conflict_wr \<Rightarrow> uuid \<times> maint_scope \<times> int \<times> int \<times> uuid list" where
  "hashed c = (c_maint_id c, c_scope c, unix_seconds (c_overlap_start c), unix_seconds (c_overlap_end c),
     c_resources c)"

lemma conflict_bytes_cancel:
  assumes "conflict_bytes c @ u = conflict_bytes d @ v"
    and "u \<noteq> [] \<Longrightarrow> hd u = CHR ''m''" "v \<noteq> [] \<Longrightarrow> hd v = CHR ''m''"
  shows "hashed c = hashed d \<and> u = v"
proof -
  let ?tl = "\<lambda>c u. ''resources='' @ conflictResourcesFingerprint (c_resources c) @ u"
  let ?te = "\<lambda>c u. show_int (unix_seconds (c_overlap_end c)) @ ?tl c u"
  let ?ts = "\<lambda>c u. show_int (unix_seconds (c_overlap_start c)) @ ''overlap_end='' @ ?te c u"
  have id: "c_maint_id c = c_maint_id d" "scope_string (c_scope c) @ ''overlap_start='' @ ?ts c u
      = scope_string (c_scope d) @ ''overlap_start='' @ ?ts d v"
    using assms(1) by (auto simp: conflict_bytes_def append_eq_append_conv)
  then have sc: "c_scope c = c_scope d" "?ts c u = ?ts d v"
    unfolding scope_cancel by simp_all
  then have st: "unix_seconds (c_overlap_start c) = unix_seconds (c_overlap_start d)" "?te c u = ?te d v"
    using show_int_cancel [OF sc(2)] by auto
  then have en: "unix_seconds (c_overlap_end c) = unix_seconds (c_overlap_end d)" "?tl c u = ?tl d v"
    using show_int_cancel [OF st(2)] by auto
  then have "c_resources c = c_resources d" "u = v"
    using resources_cancel [of "c_resources c" u "c_resources d" v] assms(2,3) by auto
  with id sc st en show ?thesis by (simp add: hashed_def)
qed

lemma conflict_bytes_hd: "cs \<noteq> [] \<Longrightarrow> hd (concat (map conflict_bytes cs)) = CHR ''m''"
  by (cases cs) (simp_all add: conflict_bytes_def)

lemma conflicts_bytes_inj:
  "concat (map conflict_bytes cs) = concat (map conflict_bytes ds) \<Longrightarrow> map hashed cs = map hashed ds"
proof (induction cs arbitrary: ds)
  case Nil
  then show ?case by (cases ds) (auto simp: conflict_bytes_def)
next
  case (Cons c cs)
  then obtain d ds' where ds: "ds = d # ds'" by (cases ds) (auto simp: conflict_bytes_def)
  have hd: "concat (map conflict_bytes es) \<noteq> [] \<Longrightarrow> hd (concat (map conflict_bytes es)) = CHR ''m''" for es
    using conflict_bytes_hd [of es] by (cases "es = []") auto
  have "hashed c = hashed d \<and> concat (map conflict_bytes cs) = concat (map conflict_bytes ds')"
    by (rule conflict_bytes_cancel) (use Cons.prems ds hd in auto)
  with Cons.IH ds show ?case by simp
qed

section \<open>What the approve gate compares\<close>

text \<open>
  The view of a neighbor the gate is meant to compare: who it is, its scope, the overlap
  window to the second, and the resources it shares with the approving maintenance.
\<close>

definition gate_view :: "uuid list \<Rightarrow> conflict_wr \<Rightarrow> uuid \<times> maint_scope \<times> int \<times> int \<times> uuid multiset" where
  "gate_view own c = (c_maint_id c, c_scope c, unix_seconds (c_overlap_start c), unix_seconds (c_overlap_end c),
     filter_mset (\<lambda>i. i \<in> set own) (mset (c_resources c)))"

definition present :: "conflict_wr option list \<Rightarrow> conflict_wr list" where
  "present cs = map the (filter (\<lambda>c. c \<noteq> None) cs)"

definition normalized :: "uuid list \<Rightarrow> conflict_wr list \<Rightarrow> conflict_wr list" where
  "normalized own cs = map (\<lambda>c. c\<lparr>c_resources := SortResources (c_resources c)\<rparr>)
     (sort_func fingerprint_cmp (map (\<lambda>c. c\<lparr>c_resources := filter (\<lambda>i. i \<in> set own) (c_resources c),
        c_known := False\<rparr>) cs))"

lemma fingerprint_buf_normalized:
  "fingerprint_buf (project_shared own cs) = (if present cs = [] then ''EMPTY_CONFLICT_SET''
     else concat (map conflict_bytes (normalized own (present cs))))"
  by (simp add: fingerprint_buf_def project_shared_def present_def normalized_def)

lemma SortResources_eq_iff: "SortResources rs = SortResources rs' \<longleftrightarrow> mset rs = mset rs'"
proof
  show "mset rs = mset rs'" if "SortResources rs = SortResources rs'"
    using arg_cong [OF that, of mset] by (simp add: SortResources_def)
  show "SortResources rs = SortResources rs'" if "mset rs = mset rs'"
    unfolding SortResources_def using that by (rule ord.sort_func_perm) simp
qed

lemma mset_SortResources [simp]: "mset (SortResources rs) = mset rs"
  by (simp add: SortResources_def)

lemma normalized_Nil [simp]: "normalized own cs = [] \<longleftrightarrow> cs = []"
proof -
  have "length (normalized own cs) = length cs" by (simp add: normalized_def)
  then show ?thesis by (cases cs) auto
qed

definition hashed_mset :: "conflict_wr \<Rightarrow> uuid \<times> maint_scope \<times> int \<times> int \<times> uuid multiset" where
  "hashed_mset c = (c_maint_id c, c_scope c, unix_seconds (c_overlap_start c), unix_seconds (c_overlap_end c),
     mset (c_resources c))"

lemma mset_gate_view:
  "mset (map hashed_mset (normalized own cs)) = mset (map (gate_view own) cs)"
  by (simp add: normalized_def multiset.map_comp comp_def hashed_mset_def gate_view_def [abs_def] mset_filter)

lemma sorted_ids_normalized: "sorted (map c_maint_id (normalized own cs))"
proof -
  let ?p = "map (\<lambda>c. c\<lparr>c_resources := filter (\<lambda>i. i \<in> set own) (c_resources c), c_known := False\<rparr>) cs"
  have "sorted_wrt (\<lambda>a b. c_maint_id a \<le> c_maint_id b) (sort_func fingerprint_cmp ?p)"
    by (rule sorted_wrt_mono_rel [OF _ fp.sorted_sort_func])
      (auto simp: fingerprint_cmp_key fingerprint_key_def less_eq_prod_def)
  then show ?thesis by (simp add: normalized_def sorted_map comp_def sorted_wrt_map)
qed

text \<open>Two lists sorted by a key that is injective on them and equal as multisets are equal.\<close>

lemma map_eq_by_key:
  assumes "sorted (map k xs)" "sorted (map k ys)" "distinct (map k xs)" "mset xs = mset ys"
  shows "xs = ys"
  using assms
proof -
  have "inj_on k (set xs)" using assms(3) by (simp add: distinct_map)
  moreover have "map k xs = map k ys"
    using assms by (metis mset_map properties_for_sort sorted_sort_id)
  ultimately show ?thesis using assms(4) by (metis map_inj_on mset_eq_setD sup.idem)
qed

lemma hashed_by_ids:
  assumes "mset (map hashed_mset xs) = mset (map hashed_mset ys)"
    and "sorted (map c_maint_id xs)" "sorted (map c_maint_id ys)" "distinct (map c_maint_id xs)"
  shows "map hashed_mset xs = map hashed_mset ys"
proof (rule map_eq_by_key [where k = fst])
  have fst: "fst \<circ> hashed_mset = c_maint_id" by (auto simp: hashed_mset_def)
  show "sorted (map fst (map hashed_mset xs))" "sorted (map fst (map hashed_mset ys))"
    "distinct (map fst (map hashed_mset xs))"
    using assms(2-4) by (simp_all add: fst)
qed (rule assms(1))

lemma hashed_sorted_eq:
  assumes "map hashed_mset (map (\<lambda>c. c\<lparr>c_resources := SortResources (c_resources c)\<rparr>) xs)
     = map hashed_mset (map (\<lambda>c. c\<lparr>c_resources := SortResources (c_resources c)\<rparr>) ys)"
  shows "map conflict_bytes (map (\<lambda>c. c\<lparr>c_resources := SortResources (c_resources c)\<rparr>) xs)
     = map conflict_bytes (map (\<lambda>c. c\<lparr>c_resources := SortResources (c_resources c)\<rparr>) ys)"
  using assms
proof (induction xs arbitrary: ys)
  case (Cons x xs)
  then obtain y ys' where "ys = y # ys'" by (cases ys) auto
  moreover from this Cons.prems have "mset (c_resources x) = mset (c_resources y)"
    by (simp add: hashed_mset_def)
  then have "SortResources (c_resources x) = SortResources (c_resources y)"
    by (simp add: SortResources_eq_iff)
  ultimately show ?case using Cons by (simp add: hashed_mset_def conflict_bytes_def)
qed simp

lemma hashed_imp_hashed_mset: "map hashed xs = map hashed ys \<Longrightarrow> map hashed_mset xs = map hashed_mset ys"
proof -
  let ?g = "\<lambda>(i, s, a, b, rs). (i, s, a, b, mset rs)"
  have g: "hashed_mset = ?g \<circ> hashed" by (auto simp: hashed_def hashed_mset_def)
  show "map hashed_mset xs = map hashed_mset ys" if "map hashed xs = map hashed ys"
    using arg_cong [OF that, of "map ?g"] unfolding g by simp
qed

lemma buf_eq_iff:
  assumes "distinct (map c_maint_id (present live))"
  shows "fingerprint_buf (project_shared own live) = fingerprint_buf (project_shared own snap)
    \<longleftrightarrow> mset (map (gate_view own) (present live)) = mset (map (gate_view own) (present snap))"
    (is "?B \<longleftrightarrow> ?M")
proof
  assume ?B
  show ?M
  proof (cases "present live = [] \<or> present snap = []")
    case True
    have "concat (map conflict_bytes (normalized own cs)) \<noteq> ''EMPTY_CONFLICT_SET''" if "cs \<noteq> []" for cs
      using conflict_bytes_hd [of "normalized own cs"] that by auto
    with True \<open>?B\<close> show ?thesis
      by (auto simp: fingerprint_buf_normalized split: if_splits dest: sym)
  next
    case False
    with \<open>?B\<close> have "map hashed_mset (normalized own (present live)) = map hashed_mset (normalized own (present snap))"
      by (intro hashed_imp_hashed_mset conflicts_bytes_inj) (simp add: fingerprint_buf_normalized)
    then show ?thesis by (metis mset_gate_view)
  qed
next
  assume ?M
  then have len: "length (present live) = length (present snap)" by (metis length_map mset_eq_length)
  have "distinct (map c_maint_id (normalized own (present live)))"
  proof -
    have "mset (map c_maint_id (normalized own cs)) = mset (map c_maint_id cs)" for cs
      by (simp add: normalized_def multiset.map_comp comp_def)
    then show ?thesis using assms by (metis mset_eq_imp_distinct_iff)
  qed
  then have "map hashed_mset (normalized own (present live)) = map hashed_mset (normalized own (present snap))"
    using \<open>?M\<close> by (intro hashed_by_ids) (simp_all add: mset_gate_view sorted_ids_normalized del: mset_map)
  then have "map conflict_bytes (normalized own (present live)) = map conflict_bytes (normalized own (present snap))"
    unfolding normalized_def by (rule hashed_sorted_eq)
  with len show ?B by (auto simp: fingerprint_buf_normalized)
qed

end
