(* ===== verification/MaintValidate.thy ===== *)
theory MaintValidate
  imports MaintStore ConflictEntity
begin

text \<open>
  Command validation: \<open>validateCreate\<close>, \<open>validateUpdate\<close> and their element rules from
  \<open>internal/services/maint\<close>, and \<open>HTTPLinkURL\<close> of \<open>internal/utils/xvalidation\<close>. The
  rules of the validation library are the record \<open>ozzo\<close> of the environment, \<open>url.Parse\<close>
  the function \<open>url_parse\<close>; \<open>ozzo_documented\<close> states what their documentation promises.
\<close>

section \<open>Link rule\<close>

definition maxLinkURLLength :: nat where "maxLinkURLLength = 2048"

definition isPrintableASCII :: "string \<Rightarrow> bool" where
  "isPrintableASCII s = (\<forall>c \<in> set s. \<not> (of_char c < (0x21::nat) \<or> of_char c > (0x7e::nat)))"

definition HTTPLinkURL :: "(string \<Rightarrow> url_parts option) \<Rightarrow> string option \<Rightarrow> string option" where
  "HTTPLinkURL parse value = (case value of None \<Rightarrow> None | Some raw \<Rightarrow>
     if raw = [] then None
     else if length raw > maxLinkURLLength then Some ''validation_url_too_long''
     else if \<not> isPrintableASCII raw then Some ''validation_url_not_ascii''
     else if (\<exists>c \<in> set ''<>|\"''. c \<in> set raw) then Some ''validation_url_forbidden_char''
     else case parse raw of None \<Rightarrow> Some ''validation_url_invalid''
     | Some u \<Rightarrow>
         if url_hostname u = [] then Some ''validation_url_not_absolute''
         else if url_scheme u \<noteq> ''http'' \<and> url_scheme u \<noteq> ''https'' then Some ''validation_url_not_http''
         else if \<not> isPrintableASCII (url_hostname u) then Some ''validation_url_not_ascii''
         else if url_has_user u then Some ''validation_url_has_userinfo''
         else None)"

definition UUIDNotNil :: "uuid \<Rightarrow> bool" where
  "UUIDNotNil u = (u \<noteq> nil_uuid)"

section \<open>Element rules\<close>

definition maxSteps :: nat where "maxSteps = 100"
definition minSteps :: nat where "minSteps = 1"
definition minStepDurationsMinutes :: int where "minStepDurationsMinutes = 5"
definition minNotifyTargets :: nat where "minNotifyTargets = 1"
definition maxNotifyTargets :: nat where "maxNotifyTargets = 10"
definition minDeferredNotifications :: nat where "minDeferredNotifications = 0"
definition maxDeferredNotifications :: nat where "maxDeferredNotifications = 10"
definition minMentions :: nat where "minMentions = 0"
definition maxMentions :: nat where "maxMentions = 10"

lemmas limit_defs = maxSteps_def minSteps_def minStepDurationsMinutes_def minNotifyTargets_def maxNotifyTargets_def
  minDeferredNotifications_def maxDeferredNotifications_def minMentions_def maxMentions_def

definition validateStepInput :: "ozzo \<Rightarrow> step_input \<Rightarrow> bool" where
  "validateStepInput oz s = (oz_required_int oz (si_order s) \<and> oz_min oz 1 (si_order s)
     \<and> oz_required_string oz (si_description s) \<and> oz_required_string oz (si_rollback s)
     \<and> oz_required_int oz (si_duration_minutes s) \<and> oz_min oz minStepDurationsMinutes (si_duration_minutes s))"

definition validateMentionInput :: "ozzo \<Rightarrow> uuid \<Rightarrow> bool" where
  "validateMentionInput oz u = (oz_required_uuid oz u \<and> UUIDNotNil u)"

definition validateDeferredNotificationInput :: "ozzo \<Rightarrow> time \<Rightarrow> bool" where
  "validateDeferredNotificationInput oz t = oz_required_time oz t"

definition validateNotifyTargetsInput :: "ozzo \<Rightarrow> uuid \<Rightarrow> bool" where
  "validateNotifyTargetsInput oz c = oz_required_uuid oz c"

definition validatePlanedPeriod :: "period \<Rightarrow> unit op" where
  "validatePlanedPeriod p = (let start = p_start p; end_at = (case p_end p of None \<Rightarrow> zero_time | Some e \<Rightarrow> e) in
     if start = zero_time \<or> end_at = zero_time then raise ErrInvalidPeriodEmptyStartOrEnd
     else if end_at < start \<or> start = end_at then raise ErrInvalidPeriodStartOrEnd
     else obind UTCNow (\<lambda>now. if start < now then raise ErrInvalidPeriodStartOrEnd else ret ()))"

section \<open>Commands\<close>

definition impact_string :: "maint_impact \<Rightarrow> string" where
  "impact_string i = (case i of ImpactNone \<Rightarrow> ''none'' | ImpactPartial \<Rightarrow> ''partial_outage'' | ImpactFull \<Rightarrow> ''full_outage''
     | ImpactUnset \<Rightarrow> [])"

definition check_fields :: "(string \<times> bool) list \<Rightarrow> unit op" where
  "check_fields fs = (let bad = map fst (filter (\<lambda>f. \<not> snd f) fs) in
     if bad = [] then ret () else raise (ErrFields bad))"

definition create_fields :: "ozzo \<Rightarrow> (string \<Rightarrow> url_parts option) \<Rightarrow> bool \<Rightarrow> create_cmd \<Rightarrow> (string \<times> bool) list" where
  "create_fields oz parse period_ok cmd = [
     (''Title'', oz_required_string oz (cc_title cmd)),
     (''CreatedByUserID'', oz_required_uuid oz (cc_created_by cmd)),
     (''ApproverUserID'', oz_required_uuid oz (cc_approver cmd)),
     (''Resources'', (cc_scope cmd = ScopeResources \<longrightarrow> oz_required_slice oz (length (cc_resources cmd)))
        \<and> list_all UUIDNotNil (cc_resources cmd)),
     (''Description'', oz_required_string oz (cc_description cmd)),
     (''TaskTrackerURL'', HTTPLinkURL parse (Some (cc_task_url cmd)) = None),
     (''PlannedPeriod'', period_ok),
     (''Impact'', oz_required_string oz (impact_string (cc_impact cmd))),
     (''Scope'', oz_required_string oz (scope_string (cc_scope cmd))),
     (''Steps'', oz_required_slice oz (length (cc_steps cmd)) \<and> oz_length oz minSteps maxSteps (length (cc_steps cmd))
        \<and> list_all (validateStepInput oz) (cc_steps cmd)),
     (''NotifyTargets'', oz_required_slice oz (length (cc_notify_targets cmd))
        \<and> oz_length oz minNotifyTargets maxNotifyTargets (length (cc_notify_targets cmd))
        \<and> list_all (validateNotifyTargetsInput oz) (cc_notify_targets cmd)),
     (''DeferredNotifications'', oz_length oz minDeferredNotifications maxDeferredNotifications (length (cc_deferred cmd))
        \<and> list_all (validateDeferredNotificationInput oz) (cc_deferred cmd)),
     (''Mentions'', oz_length oz minMentions maxMentions (length (cc_mentions cmd))
        \<and> list_all (validateMentionInput oz) (cc_mentions cmd))]"

definition planned_field :: "ozzo \<Rightarrow> period \<Rightarrow> bool op" where
  "planned_field oz p = (if \<not> oz_required_period oz p then ret False
     else ocatch (osequel (validatePlanedPeriod p) (ret True)) (\<lambda>_. ret False))"

definition validateCreate :: "create_cmd \<Rightarrow> unit op" where
  "validateCreate cmd = obind (read_world w_env) (\<lambda>e.
     obind (planned_field (rules e) (cc_planned cmd)) (\<lambda>ok.
     check_fields (create_fields (rules e) (url_parse e) ok cmd)))"

definition opt_ok :: "('a \<Rightarrow> bool) \<Rightarrow> 'a option \<Rightarrow> bool" where
  "opt_ok p x = (case x of None \<Rightarrow> True | Some v \<Rightarrow> p v)"

definition or_empty :: "'a list option \<Rightarrow> 'a list" where
  "or_empty x = (case x of None \<Rightarrow> [] | Some xs \<Rightarrow> xs)"

definition update_fields :: "ozzo \<Rightarrow> (string \<Rightarrow> url_parts option) \<Rightarrow> update_cmd \<Rightarrow> (string \<times> bool) list" where
  "update_fields oz parse cmd = [
     (''Title'', opt_ok (oz_not_empty_string oz) (uc_title cmd)),
     (''Description'', opt_ok (oz_not_empty_string oz) (uc_description cmd)),
     (''TaskTrackerURL'', HTTPLinkURL parse (uc_task_url cmd) = None),
     (''ApproverUserID'', opt_ok (\<lambda>u. oz_not_empty_uuid oz u \<and> UUIDNotNil u) (uc_approver cmd)),
     (''PlannedStart'', opt_ok (oz_not_empty_time oz) (uc_planned_start cmd)),
     (''Scope'', opt_ok (\<lambda>s. oz_not_empty_string oz (scope_string s)) (uc_scope cmd)),
     (''Impact'', opt_ok (\<lambda>i. oz_not_empty_string oz (impact_string i)) (uc_impact cmd)),
     (''Resources'', list_all UUIDNotNil (uc_resources cmd)),
     (''Steps'', oz_length oz 0 maxSteps (length (uc_steps cmd)) \<and> list_all (validateStepInput oz) (uc_steps cmd)),
     (''NotifyTargets'', oz_length oz 0 maxNotifyTargets (length (uc_notify_targets cmd))
        \<and> list_all (validateNotifyTargetsInput oz) (uc_notify_targets cmd)),
     (''DeferredNotifications'', opt_ok (\<lambda>xs. oz_length oz 0 maxDeferredNotifications (length xs)) (uc_deferred cmd)),
     (''Mentions'', opt_ok (\<lambda>xs. oz_length oz minMentions maxMentions (length xs)) (uc_mentions cmd))]"

definition validateUpdate :: "update_cmd \<Rightarrow> unit op" where
  "validateUpdate cmd = obind (read_world w_env) (\<lambda>e.
     osequel (check_fields (update_fields (rules e) (url_parse e) cmd))
     (osequel (check_fields [(''DeferredNotifications'',
        list_all (validateDeferredNotificationInput (rules e)) (or_empty (uc_deferred cmd)))])
     (check_fields [(''Mentions'', list_all (validateMentionInput (rules e)) (or_empty (uc_mentions cmd)))])))"

definition validateApprover :: "uuid \<Rightarrow> unit op" where
  "validateApprover approver = obind (ListUsers \<lparr>lu_ids = [approver], lu_roles = ApproverEligibleRoles,
       lu_exclude_blocked = True, lu_limit = 1, lu_offset = 0\<rparr>) (\<lambda>(us, _, _).
     if us = [] then raise ErrApproverNotEligible else ret ())"

lemma validate_db_only [db_only_rules]:
  "db_only (validatePlanedPeriod p)" "db_only (check_fields fs)" "db_only (planned_field oz p)"
  "db_only (validateCreate cmd)" "db_only (validateUpdate ucmd)" "db_only (validateApprover a)"
  by (auto simp: validatePlanedPeriod_def check_fields_def planned_field_def validateCreate_def validateUpdate_def
      validateApprover_def Let_def intro!: db_only_rules)

section \<open>What validation guarantees\<close>

text \<open>The documented behaviour of the rules.\<close>

definition ozzo_documented :: "ozzo \<Rightarrow> bool" where
  "ozzo_documented oz \<longleftrightarrow> (\<forall>s. oz_required_string oz s \<longleftrightarrow> s \<noteq> []) \<and> (\<forall>i. oz_required_int oz i \<longleftrightarrow> i \<noteq> 0)
     \<and> (\<forall>n. oz_required_slice oz n \<longleftrightarrow> n \<noteq> 0) \<and> (\<forall>t. oz_required_time oz t \<longleftrightarrow> t \<noteq> zero_time)
     \<and> (\<forall>a b n. oz_length oz a b n \<longleftrightarrow> n = 0 \<or> a \<le> n \<and> (b = 0 \<or> n \<le> b))
     \<and> (\<forall>m i. oz_min oz m i \<longleftrightarrow> i = 0 \<or> m \<le> i)"

lemma sample_rules_documented: "ozzo_documented sample_rules"
  by (simp add: ozzo_documented_def sample_rules_def)

lemma check_fields_ok: "check_fields fs w = (Inr (), w') \<longleftrightarrow> w' = w \<and> (\<forall>f \<in> set fs. snd f)"
  by (auto simp: check_fields_def ret_def raise_def filter_empty_conv Let_def)

lemma planned_field_ok:
  "planned_field oz p w = (Inr True, w') \<Longrightarrow>
     \<exists>e. p_end p = Some e \<and> p_start p < e \<and> clock (w_env w) (w_tick w) \<le> p_start p \<and> w' = tick w"
  by (auto simp: planned_field_def validatePlanedPeriod_def op_defs UTCNow_def Let_def split: if_splits option.splits)

definition valid_step :: "step_input \<Rightarrow> bool" where
  "valid_step s = (1 \<le> si_order s \<and> si_description s \<noteq> [] \<and> si_rollback s \<noteq> [] \<and> 5 \<le> si_duration_minutes s)"

lemma validateStepInput_documented: "ozzo_documented oz \<Longrightarrow> validateStepInput oz s = valid_step s"
  by (auto simp: ozzo_documented_def validateStepInput_def valid_step_def limit_defs)

lemma create_fields_ok:
  assumes "ozzo_documented oz" "\<forall>f \<in> set (create_fields oz parse ok cmd). snd f"
  shows "ok" "cc_title cmd \<noteq> []" "1 \<le> length (cc_steps cmd)" "length (cc_steps cmd) \<le> 100"
    "\<forall>s \<in> set (cc_steps cmd). valid_step s" "1 \<le> length (cc_notify_targets cmd)" "length (cc_notify_targets cmd) \<le> 10"
    "length (cc_deferred cmd) \<le> 10" "length (cc_mentions cmd) \<le> 10"
    "cc_scope cmd = ScopeResources \<longrightarrow> cc_resources cmd \<noteq> []" "nil_uuid \<notin> set (cc_resources cmd)"
    "nil_uuid \<notin> set (cc_mentions cmd)" "HTTPLinkURL parse (Some (cc_task_url cmd)) = None"
  using assms(2) validateStepInput_documented [OF assms(1)] assms(1)
  by (auto simp: create_fields_def list_all_iff limit_defs ozzo_documented_def UUIDNotNil_def validateMentionInput_def)

text \<open>A create command passes validation only if it is well formed: a title, between one and a hundred
  steps of at least five minutes each, between one and ten notify targets, at most ten reminders and ten
  mentions, no nil identifiers among resources and mentions, at least one resource when it is
  resource-scoped, and a planned period that is ordered and does not start before the clock reading.\<close>

theorem validateCreate_sound:
  assumes "validateCreate cmd w = (Inr (), w')" "ozzo_documented (rules (w_env w))"
  shows "cc_title cmd \<noteq> [] \<and> length (cc_steps cmd) \<in> {1..100} \<and> (\<forall>s \<in> set (cc_steps cmd). valid_step s)
    \<and> length (cc_notify_targets cmd) \<in> {1..10} \<and> length (cc_deferred cmd) \<le> 10 \<and> length (cc_mentions cmd) \<le> 10
    \<and> nil_uuid \<notin> set (cc_resources cmd) \<and> nil_uuid \<notin> set (cc_mentions cmd)
    \<and> (cc_scope cmd = ScopeResources \<longrightarrow> cc_resources cmd \<noteq> [])
    \<and> (\<exists>e. p_end (cc_planned cmd) = Some e \<and> p_start (cc_planned cmd) < e
         \<and> clock (w_env w) (w_tick w) \<le> p_start (cc_planned cmd))"
proof -
  let ?e = "w_env w"
  obtain r w1 where p: "planned_field (rules ?e) (cc_planned cmd) w = (r, w1)" by fastforce
  from assms(1) p obtain ok where ok: "r = Inr ok"
      "\<forall>f \<in> set (create_fields (rules ?e) (url_parse ?e) ok cmd). snd f"
    by (cases r) (auto simp: validateCreate_def obind_def read_world_def check_fields_ok)
  note f = create_fields_ok [OF assms(2) ok(2)]
  from f(1) p ok(1) have "planned_field (rules ?e) (cc_planned cmd) w = (Inr True, w1)" by simp
  from planned_field_ok [OF this] f show ?thesis by auto
qed

definition sample_create :: create_cmd where
  "sample_create = \<lparr>cc_title = ''t'', cc_description = ''d'', cc_planned = NewPeriod (100 * second) (400 * second),
     cc_scope = ScopeResources, cc_impact = ImpactNone, cc_resources = [4],
     cc_steps = [\<lparr>si_order = 1, si_description = ''a'', si_rollback = ''b'', si_duration_minutes = 5\<rparr>],
     cc_notify_targets = [9], cc_deferred = [50 * second], cc_mentions = [7], cc_approver = 7, cc_created_by = 8,
     cc_task_url = [], cc_actor = SystemUser\<rparr>"

theorem validateCreate_sound_witness:
  "validateCreate sample_create (quiet_world empty_db) = (Inr (), tick (quiet_world empty_db))
   \<and> list_all valid_step (cc_steps sample_create)"
proof -
  let ?w = "quiet_world empty_db"
  have run: "validateCreate sample_create ?w = (Inr (), tick ?w)"
    by (simp add: validateCreate_def planned_field_def validatePlanedPeriod_def op_defs UTCNow_def check_fields_def
        create_fields_def sample_create_def sample_defs limit_defs validateStepInput_def validateMentionInput_def
        validateDeferredNotificationInput_def validateNotifyTargetsInput_def HTTPLinkURL_def UUIDNotNil_def
        scope_string_def impact_string_def NewPeriod_def second_def zero_time_def Let_def)
  with validateCreate_sound [OF run] sample_rules_documented show ?thesis
    by (simp add: quiet_world_def quiet_env_def list_all_iff)
qed

text \<open>A link the rule accepts is empty or at most 2048 printable ASCII characters, none of which is one of
  \<open><\<close>, \<open>>\<close>, \<open>|\<close> and the double quote, and parses to an \<open>http\<close> or \<open>https\<close> url with an ASCII host name and
  no credentials; every other link is rejected.\<close>

theorem HTTPLinkURL_exact:
  "HTTPLinkURL parse (Some raw) = None \<longleftrightarrow> raw = [] \<or>
     (length raw \<le> 2048 \<and> isPrintableASCII raw \<and> set raw \<inter> set ''<>|\"'' = {}
      \<and> (\<exists>u. parse raw = Some u \<and> url_hostname u \<noteq> [] \<and> isPrintableASCII (url_hostname u)
           \<and> (url_scheme u = ''http'' \<or> url_scheme u = ''https'') \<and> \<not> url_has_user u))"
  by (auto simp: HTTPLinkURL_def maxLinkURLLength_def split: option.splits)

end
