(* ===== verification/Conflicts.thy ===== *)
theory Conflicts
  imports MaintStore ConflictEntity
begin

text \<open>
  Conflict detection: the two overlap queries and the resource lookup of
  \<open>internal/storages/conflicts\<close>, the frozen approval snapshot of
  \<open>internal/storages/conflict_snapshots\<close> and \<open>internal/services/conflicts\<close>.
\<close>

section \<open>The overlap queries\<close>

text \<open>
  The bounds the statement passes. An open period has no upper time: the statement is
  then built from Go's zero time.
\<close>

definition query_lower :: "env \<Rightarrow> period \<Rightarrow> time" where
  "query_lower e p = pg_time e (p_start p)"

definition query_upper :: "env \<Rightarrow> period \<Rightarrow> time" where
  "query_upper e p = pg_time e (case p_end p of None \<Rightarrow> zero_time | Some t \<Rightarrow> t)"

text \<open>The operator \<open>&&\<close> of two ranges closed below and open above; empty ranges overlap nothing.\<close>

definition range_overlap :: "period \<Rightarrow> time \<Rightarrow> time \<Rightarrow> bool" where
  "range_overlap p l h = (l < h \<and> p_start p < h
     \<and> (case p_end p of None \<Rightarrow> True | Some t \<Rightarrow> p_start p < t \<and> l < t))"

definition scope_overlap :: "db \<Rightarrow> conflict_query_cmd \<Rightarrow> maint_row \<Rightarrow> bool" where
  "scope_overlap d cmd r = (cq_scope cmd = ScopeGlobal \<or> mt_scope r = ScopeGlobal
     \<or> (cq_resource_ids cmd \<noteq> [] \<and> cq_scope cmd = ScopeResources \<and> mt_scope r = ScopeResources
        \<and> (\<exists>i \<in> set (resource_ids d (mt_id r)). i \<in> set (cq_resource_ids cmd))))"

definition overlap_conflict :: "time \<Rightarrow> time \<Rightarrow> maint_row \<Rightarrow> period \<Rightarrow> conflict" where
  "overlap_conflict l h r p = \<lparr>c_maint_id = mt_id r, c_title = mt_title r,
     c_overlap_start = max (p_start p) l,
     c_overlap_end = (case p_end p of None \<Rightarrow> h | Some t \<Rightarrow> min t h), c_scope = mt_scope r\<rparr>"

definition conflicted_rows :: "env \<Rightarrow> db \<Rightarrow> conflict_query_cmd \<Rightarrow> maint_row list" where
  "conflicted_rows e d cmd = filter (\<lambda>r. mt_id r \<noteq> cq_maint_id cmd
     \<and> (mt_status r = StatusPlanned \<or> mt_status r = StatusInProgress)
     \<and> range_overlap (mt_planned r) (query_lower e (cq_period cmd)) (query_upper e (cq_period cmd))
     \<and> scope_overlap d cmd r) (d_maints d)"

definition ConflictedMaints :: "conflict_query_cmd \<Rightarrow> conflict list op" where
  "ConflictedMaints cmd = db_call (\<lambda>e _ d.
     let l = query_lower e (cq_period cmd); h = query_upper e (cq_period cmd) in
     if h < l then Inl (PgOther 22000)
     else Inr (map (\<lambda>r. overlap_conflict l h r (mt_planned r)) (conflicted_rows e d cmd), d))"

definition ActualConflictsLimit :: nat where "ActualConflictsLimit = 200"

definition actual_conflicted :: "env \<Rightarrow> db \<Rightarrow> conflict_query_cmd \<Rightarrow> conflict list" where
  "actual_conflicted e d cmd = (let l = query_lower e (cq_period cmd); h = query_upper e (cq_period cmd) in
     sort_func (\<lambda>a b. if c_overlap_start a \<noteq> c_overlap_start b
         then ord_cmp (c_overlap_start a) (c_overlap_start b) else ord_cmp (c_maint_id a) (c_maint_id b))
       (concat (map (\<lambda>r. case mt_actual r of None \<Rightarrow> []
          | Some p \<Rightarrow> if mt_id r \<noteq> cq_maint_id cmd \<and> range_overlap p l h \<and> scope_overlap d cmd r
              then [overlap_conflict l h r p] else []) (d_maints d))))"

definition ActualConflictedMaints :: "conflict_query_cmd \<Rightarrow> (conflict list \<times> bool) op" where
  "ActualConflictedMaints cmd = (if IsOpen (cq_period cmd) then raise ErrActualPeriodOpen
     else obind (db_call (\<lambda>e _ d.
         if query_upper e (cq_period cmd) < query_lower e (cq_period cmd) then Inl (PgOther 22000)
         else Inr (take (ActualConflictsLimit + 1) (actual_conflicted e d cmd), d)))
       (\<lambda>rows. let truncated = length rows > ActualConflictsLimit in
         ret (if truncated then take ActualConflictsLimit rows else rows, truncated)))"

definition ConflictedResources :: "uuid list \<Rightarrow> (uuid \<Rightarrow> uuid list) op" where
  "ConflictedResources ids = (if ids = [] then ret (\<lambda>_. [])
     else db_query (\<lambda>d mid. if mid \<in> set ids then resource_ids d mid else []))"

section \<open>The approval snapshot\<close>

text \<open>An empty range is stored as such: it has no bounds to read back.\<close>

definition snapshot_row_of :: "uuid \<Rightarrow> conflict_wr \<Rightarrow> uuid option \<Rightarrow> snapshot_row" where
  "snapshot_row_of mid c ro = \<lparr>sn_maint_id = mid, sn_conflicted_id = c_maint_id c, sn_resource_id = ro,
     sn_period = Some (NewPeriod (c_overlap_start c) (c_overlap_end c))\<rparr>"

definition toDBSnaphots :: "uuid \<Rightarrow> conflict_wr list \<Rightarrow> snapshot_row list" where
  "toDBSnaphots mid cs = concat (map (\<lambda>c. if c_resources c \<noteq> []
     then map (\<lambda>i. snapshot_row_of mid c (Some i)) (c_resources c)
     else [snapshot_row_of mid c None]) cs)"

definition pg_range :: "env \<Rightarrow> period \<Rightarrow> period option" where
  "pg_range e p = (let q = pg_period e p in if p_end q = Some (p_start q) then None else Some q)"

definition pg_snapshot_row :: "env \<Rightarrow> snapshot_row \<Rightarrow> snapshot_row" where
  "pg_snapshot_row e r = r\<lparr>sn_period := Option.bind (sn_period r) (pg_range e)\<rparr>"

definition snapshot_reversed :: "env \<Rightarrow> snapshot_row \<Rightarrow> bool" where
  "snapshot_reversed e r = (case sn_period r of None \<Rightarrow> False | Some p \<Rightarrow> range_reversed (pg_period e p))"

definition snapshots_Save :: "uuid \<Rightarrow> conflict_wr option list \<Rightarrow> unit op" where
  "snapshots_Save mid snaps = (if snaps = [] then ret ()
     else if None \<in> set snaps then raise Panic
     else db_call (\<lambda>e _ d.
       let rows = toDBSnaphots mid (map the snaps) in
       if (\<exists>r \<in> set rows. snapshot_reversed e r) then Inl (PgOther 22000)
       else if \<not> has_maint d mid \<or> (\<exists>r \<in> set rows. \<not> has_maint d (sn_conflicted_id r)) then Inl PgForeignKeyViolation
       else Inr ((), d\<lparr>d_snapshots := d_snapshots d @ map (pg_snapshot_row e) rows\<rparr>)))"

definition joined_snapshots :: "db \<Rightarrow> uuid \<Rightarrow> (snapshot_row \<times> maint_row) list" where
  "joined_snapshots d mid = concat (map (\<lambda>s. map (Pair s) (filter (\<lambda>m. mt_id m = sn_conflicted_id s) (d_maints d)))
     (filter (\<lambda>s. sn_maint_id s = mid) (d_snapshots d)))"

definition snapshot_conflict :: "(snapshot_row \<times> maint_row) list \<Rightarrow> uuid \<Rightarrow> conflict_wr" where
  "snapshot_conflict rows cid = (let g = filter (\<lambda>p. sn_conflicted_id (fst p) = cid) rows; (s, m) = hd g in
     \<lparr>c_maint_id = cid, c_title = mt_title m,
      c_overlap_start = (case sn_period s of None \<Rightarrow> zero_time | Some p \<Rightarrow> p_start p),
      c_overlap_end = (case sn_period s of None \<Rightarrow> zero_time
         | Some p \<Rightarrow> (case p_end p of None \<Rightarrow> zero_time | Some t \<Rightarrow> t)),
      c_scope = mt_scope m,
      c_resources = List.map_filter (\<lambda>p. sn_resource_id (fst p)) g, c_known = False\<rparr>)"

text \<open>Go ranges over the map of groups in an order of its own.\<close>

definition fromDBSnaphots :: "(uuid list \<Rightarrow> uuid list) \<Rightarrow> (snapshot_row \<times> maint_row) list \<Rightarrow> conflict_wr list" where
  "fromDBSnaphots rng rows = map (snapshot_conflict rows) (rng (uniq (map (\<lambda>p. sn_conflicted_id (fst p)) rows)))"

definition GetSnapshots :: "uuid \<Rightarrow> conflict_wr list op" where
  "GetSnapshots mid = db_call (\<lambda>e t d. Inr (fromDBSnaphots (map_range e t) (joined_snapshots d mid), d))"

section \<open>The service\<close>

definition with_resources :: "uuid list \<Rightarrow> conflict \<Rightarrow> conflict_wr" where
  "with_resources rs c = conflict.extend c \<lparr>c_resources = rs, c_known = False\<rparr>"

definition attachResources :: "conflict list \<Rightarrow> conflict_wr list op" where
  "attachResources cs = obind (ConflictedResources (map c_maint_id cs)) (\<lambda>res.
     ret (map (\<lambda>c. with_resources (res (c_maint_id c)) c) cs))"

definition GetConflicts :: "conflict_query_cmd \<Rightarrow> conflict_wr list op" where
  "GetConflicts cmd = obind (ConflictedMaints cmd) attachResources"

definition GetActualConflicts :: "conflict_query_cmd \<Rightarrow> (conflict_wr list \<times> bool) op" where
  "GetActualConflicts cmd = obind (ActualConflictedMaints cmd) (\<lambda>(cs, truncated).
     obind (attachResources cs) (\<lambda>ws. ret (ws, truncated)))"

definition GetApprovalSnapshot :: "uuid \<Rightarrow> conflict_wr list op" where
  "GetApprovalSnapshot mid = obind (GetSnapshots mid) (\<lambda>snap.
     obind (attachResources (map conflict.truncate snap)) (\<lambda>resolved.
     ret (SortConflicts (map (\<lambda>c. c\<lparr>c_known := True\<rparr>) resolved))))"

definition MarkApprovalState :: "uuid \<Rightarrow> conflict_wr list \<Rightarrow> conflict_wr list op" where
  "MarkApprovalState mid live = (if live = [] then ret []
     else ocatch (obind (GetSnapshots mid) (\<lambda>snap. ret (SortConflicts (MarkKnownAtApproval live snap))))
       (\<lambda>_. ret (SortConflicts live)))"

definition SaveSnapshot :: "uuid \<Rightarrow> conflict_wr option list \<Rightarrow> unit op" where
  "SaveSnapshot mid snaps = snapshots_Save mid snaps"

lemmas conflicts_defs = ConflictedMaints_def ActualConflictedMaints_def ConflictedResources_def
  snapshots_Save_def GetSnapshots_def attachResources_def GetConflicts_def GetActualConflicts_def
  GetApprovalSnapshot_def MarkApprovalState_def SaveSnapshot_def

lemma conflicts_db_only [db_only_rules]:
  "db_only (ConflictedMaints cmd)" "db_only (ActualConflictedMaints cmd)" "db_only (ConflictedResources ids)"
  "db_only (snapshots_Save mid snaps)" "db_only (GetSnapshots mid)" "db_only (attachResources cs)"
  "db_only (GetConflicts cmd)" "db_only (GetActualConflicts cmd)" "db_only (GetApprovalSnapshot mid)"
  "db_only (MarkApprovalState mid live)" "db_only (SaveSnapshot mid snaps)"
  by (auto simp: conflicts_defs Let_def intro!: db_only_rules)

section \<open>What the queries find\<close>

text \<open>Membership of an instant in a period, the meaning of a stored range.\<close>

definition in_period :: "period \<Rightarrow> time \<Rightarrow> bool" where
  "in_period p t = (p_start p \<le> t \<and> (case p_end p of None \<Rightarrow> True | Some e \<Rightarrow> t < e))"

lemma range_overlap_iff: "range_overlap p l h \<longleftrightarrow> (\<exists>t. in_period p t \<and> l \<le> t \<and> t < h)"
proof
  assume "range_overlap p l h"
  then have "in_period p (max (p_start p) l) \<and> l \<le> max (p_start p) l \<and> max (p_start p) l < h"
    by (auto simp: range_overlap_def in_period_def split: option.splits)
  then show "\<exists>t. in_period p t \<and> l \<le> t \<and> t < h" by blast
next
  assume "\<exists>t. in_period p t \<and> l \<le> t \<and> t < h"
  then show "range_overlap p l h" by (auto simp: range_overlap_def in_period_def split: option.splits)
qed

lemma overlap_window:
  "c_overlap_start (overlap_conflict l h r p) \<le> t \<and> t < c_overlap_end (overlap_conflict l h r p)
    \<longleftrightarrow> in_period p t \<and> l \<le> t \<and> t < h"
  by (auto simp: overlap_conflict_def in_period_def split: option.splits)

lemma overlap_conflict_id [simp]: "c_maint_id (overlap_conflict l h r p) = mt_id r"
  by (simp add: overlap_conflict_def)

text \<open>The query a maintenance asks about itself, from its stored row.\<close>

definition query_of :: "db \<Rightarrow> maint_row \<Rightarrow> conflict_query_cmd" where
  "query_of d r = \<lparr>cq_maint_id = mt_id r, cq_period = mt_planned r, cq_scope = mt_scope r,
     cq_resource_ids = resource_ids d (mt_id r)\<rparr>"

definition active :: "maint_row \<Rightarrow> bool" where
  "active r = (mt_status r = StatusPlanned \<or> mt_status r = StatusInProgress)"

lemma range_overlap_sym:
  assumes "p_end p = Some e" "p_end q = Some f"
  shows "range_overlap p (p_start q) f \<longleftrightarrow> range_overlap q (p_start p) e"
  using assms by (auto simp: range_overlap_iff in_period_def)

lemma scope_overlap_sym: "scope_overlap d (query_of d a) b \<longleftrightarrow> scope_overlap d (query_of d b) a"
  by (auto simp: scope_overlap_def query_of_def)

definition kept_by_column :: "env \<Rightarrow> period \<Rightarrow> bool" where
  "kept_by_column e p = (pg_period e p = p)"

lemma query_bounds_stored:
  assumes "kept_by_column e p" "p_end p = Some t"
  shows "query_lower e p = p_start p" "query_upper e p = t"
  using arg_cong [of _ _ p_start, OF assms(1) [unfolded kept_by_column_def]]
    arg_cong [of _ _ p_end, OF assms(1) [unfolded kept_by_column_def]] assms(2)
  by (simp_all add: query_lower_def query_upper_def)

section \<open>Ordering and truncation of the factual query\<close>

interpretation actual_order: comparator "\<lambda>a b :: conflict. if c_overlap_start a \<noteq> c_overlap_start b
    then ord_cmp (c_overlap_start a) (c_overlap_start b) else ord_cmp (c_maint_id a) (c_maint_id b)"
  by unfold_locales (auto split: if_splits)

definition before_or_same :: "conflict \<Rightarrow> conflict \<Rightarrow> bool" where
  "before_or_same a b = (c_overlap_start a < c_overlap_start b
     \<or> c_overlap_start a = c_overlap_start b \<and> c_maint_id a \<le> c_maint_id b)"

lemma sorted_actual: "sorted_wrt before_or_same (actual_conflicted e d cmd)"
  unfolding actual_conflicted_def Let_def
  by (rule sorted_wrt_mono_rel [OF _ actual_order.sorted_sort_func])
    (auto simp: before_or_same_def split: if_splits)

lemma set_actual_conflicted:
  "c \<in> set (actual_conflicted e d cmd) \<longleftrightarrow> (\<exists>r p. r \<in> set (d_maints d) \<and> mt_actual r = Some p
     \<and> mt_id r \<noteq> cq_maint_id cmd \<and> scope_overlap d cmd r
     \<and> range_overlap p (query_lower e (cq_period cmd)) (query_upper e (cq_period cmd))
     \<and> c = overlap_conflict (query_lower e (cq_period cmd)) (query_upper e (cq_period cmd)) r p)"
proof -
  let ?l = "query_lower e (cq_period cmd)" and ?h = "query_upper e (cq_period cmd)"
  let ?f = "\<lambda>r. case mt_actual r of None \<Rightarrow> []
          | Some p \<Rightarrow> if mt_id r \<noteq> cq_maint_id cmd \<and> range_overlap p ?l ?h \<and> scope_overlap d cmd r
              then [overlap_conflict ?l ?h r p] else []"
  have "c \<in> set (?f r) \<longleftrightarrow> (\<exists>p. mt_actual r = Some p \<and> mt_id r \<noteq> cq_maint_id cmd \<and> scope_overlap d cmd r
     \<and> range_overlap p ?l ?h \<and> c = overlap_conflict ?l ?h r p)" for r
    by (cases "mt_actual r") auto
  then show ?thesis
    unfolding actual_conflicted_def Let_def set_sort_func set_concat set_map by blast
qed

lemma ActualConflictedMaints_result:
  assumes "\<not> IsOpen (cq_period cmd)" "fault (w_env w) (w_tick w) = None"
    and "query_lower (w_env w) (cq_period cmd) \<le> query_upper (w_env w) (cq_period cmd)"
  shows "ActualConflictedMaints cmd w = (Inr (take ActualConflictsLimit (actual_conflicted (w_env w) (w_db w) cmd),
     ActualConflictsLimit < length (actual_conflicted (w_env w) (w_db w) cmd)), tick w)"
  using assms by (auto simp: ActualConflictedMaints_def op_defs db_call_def Let_def)

section \<open>The snapshot read back\<close>

text \<open>What a saved conflict reads back as: title and scope come from the neighbour's own row.\<close>

definition as_stored :: "env \<Rightarrow> db \<Rightarrow> conflict_wr \<Rightarrow> conflict_wr" where
  "as_stored e d c = (case find_maint d (c_maint_id c) of None \<Rightarrow> c
     | Some m \<Rightarrow> c\<lparr>c_title := mt_title m, c_scope := mt_scope m, c_overlap_start := pg_time e (c_overlap_start c),
         c_overlap_end := pg_time e (c_overlap_end c), c_known := False\<rparr>)"

definition snapshot_rows :: "env \<Rightarrow> uuid \<Rightarrow> conflict_wr \<Rightarrow> snapshot_row list" where
  "snapshot_rows e mid c = map (pg_snapshot_row e) (toDBSnaphots mid [c])"

lemma snapshot_rows_concat: "map (pg_snapshot_row e) (toDBSnaphots mid cs) = concat (map (snapshot_rows e mid) cs)"
  by (induction cs) (simp_all add: snapshot_rows_def toDBSnaphots_def)

lemma snapshot_rows_fields:
  assumes "x \<in> set (snapshot_rows e mid c)" "pg_time e (c_overlap_start c) < pg_time e (c_overlap_end c)"
  shows "sn_maint_id x = mid" "sn_conflicted_id x = c_maint_id c"
    "sn_period x = Some (NewPeriod (pg_time e (c_overlap_start c)) (pg_time e (c_overlap_end c)))"
  using assms by (auto simp: snapshot_rows_def toDBSnaphots_def snapshot_row_of_def pg_snapshot_row_def pg_range_def
      pg_period_def NewPeriod_def Let_def split: if_splits)

lemma snapshot_rows_nonempty: "snapshot_rows e mid c \<noteq> []"
  by (simp add: snapshot_rows_def toDBSnaphots_def)

lemma snapshot_rows_resources: "List.map_filter sn_resource_id (snapshot_rows e mid c) = c_resources c"
  by (simp add: snapshot_rows_def toDBSnaphots_def List.map_filter_def snapshot_row_of_def pg_snapshot_row_def comp_def)

lemma find_maint_filter:
  assumes "distinct (map mt_id (d_maints d))" "find_maint d i = Some m"
  shows "filter (\<lambda>r. mt_id r = i) (d_maints d) = [m]"
proof -
  have "distinct (map mt_id rs) \<Longrightarrow> find (\<lambda>r. mt_id r = i) rs = Some m \<Longrightarrow> filter (\<lambda>r. mt_id r = i) rs = [m]" for rs
    by (induction rs) (auto split: if_splits simp: filter_empty_conv image_iff)
  with assms show ?thesis by (simp add: find_maint_def)
qed

lemma snapshot_conflict_stored:
  assumes m: "find_maint d (c_maint_id c) = Some m"
    and w: "pg_time e (c_overlap_start c) < pg_time e (c_overlap_end c)"
    and g: "filter (\<lambda>p. sn_conflicted_id (fst p) = c_maint_id c) rows = map (\<lambda>s. (s, m)) (snapshot_rows e mid c)"
  shows "snapshot_conflict rows (c_maint_id c) = as_stored e d c"
proof -
  obtain s ss where ss: "snapshot_rows e mid c = s # ss" using snapshot_rows_nonempty by (cases "snapshot_rows e mid c") auto
  then have "sn_period s = Some (NewPeriod (pg_time e (c_overlap_start c)) (pg_time e (c_overlap_end c)))"
    by (intro snapshot_rows_fields(3) [OF _ w, of _ mid]) simp
  moreover have "List.map_filter (\<lambda>p. sn_resource_id (fst p)) (map (\<lambda>s. (s, m)) (snapshot_rows e mid c)) = c_resources c"
    using snapshot_rows_resources [of e mid c] by (simp add: List.map_filter_def filter_map comp_def)
  ultimately show ?thesis
    by (intro conflict_wr.equality) (simp_all add: snapshot_conflict_def g ss as_stored_def m NewPeriod_def Let_def)
qed

lemma joined_snapshots_saved:
  assumes "distinct (map mt_id (d_maints d))" "\<forall>s \<in> set (d_snapshots d). sn_maint_id s \<noteq> mid"
    and "\<forall>c \<in> set cs. find_maint d (c_maint_id c) = Some (row c)"
    and "\<forall>c \<in> set cs. pg_time e (c_overlap_start c) < pg_time e (c_overlap_end c)"
  shows "joined_snapshots (d\<lparr>d_snapshots := d_snapshots d @ map (pg_snapshot_row e) (toDBSnaphots mid cs)\<rparr>) mid
    = concat (map (\<lambda>c. map (\<lambda>s. (s, row c)) (snapshot_rows e mid c)) cs)"
proof -
  let ?new = "concat (map (snapshot_rows e mid) cs)"
  have old: "filter (\<lambda>s. sn_maint_id s = mid) (d_snapshots d) = []" using assms(2) by (intro filter_none) auto
  have new: "filter (\<lambda>s. sn_maint_id s = mid) ?new = ?new"
    using assms(4) by (intro filter_all) (auto dest: snapshot_rows_fields(1))
  have block: "concat (map (\<lambda>s. map (Pair s) (filter (\<lambda>m. mt_id m = sn_conflicted_id s) (d_maints d)))
      (snapshot_rows e mid c)) = map (\<lambda>s. (s, row c)) (snapshot_rows e mid c)" if c: "c \<in> set cs" for c
  proof -
    have "map (Pair s) (filter (\<lambda>m. mt_id m = sn_conflicted_id s) (d_maints d)) = [(s, row c)]"
      if "s \<in> set (snapshot_rows e mid c)" for s
      using find_maint_filter [OF assms(1), of "c_maint_id c" "row c"] assms(3,4) c snapshot_rows_fields(2) [OF that]
      by simp
    then show ?thesis by (simp cong: map_cong)
  qed
  have "concat (map (\<lambda>s. map (Pair s) (filter (\<lambda>m. mt_id m = sn_conflicted_id s) (d_maints d))) ?new)
      = concat (map (\<lambda>c. concat (map (\<lambda>s. map (Pair s) (filter (\<lambda>m. mt_id m = sn_conflicted_id s) (d_maints d)))
          (snapshot_rows e mid c))) cs)"
    by (induction cs) simp_all
  also have "\<dots> = concat (map (\<lambda>c. map (\<lambda>s. (s, row c)) (snapshot_rows e mid c)) cs)"
    using block by (simp cong: map_cong)
  finally show ?thesis by (simp add: joined_snapshots_def snapshot_rows_concat old new)
qed

lemma fromDB_saved:
  assumes "distinct (map c_maint_id cs)" "\<forall>c \<in> set cs. find_maint d (c_maint_id c) = Some (row c)"
    and "\<forall>c \<in> set cs. pg_time e (c_overlap_start c) < pg_time e (c_overlap_end c)" "\<And>xs. mset (rng xs) = mset xs"
  shows "mset (fromDBSnaphots rng (concat (map (\<lambda>c. map (\<lambda>s. (s, row c)) (snapshot_rows e mid c)) cs)))
    = mset (map (as_stored e d) cs)"
proof -
  let ?rows = "concat (map (\<lambda>c. map (\<lambda>s. (s, row c)) (snapshot_rows e mid c)) cs)"
  have key: "sn_conflicted_id (fst x) = c_maint_id c"
    if "c \<in> set cs" "x \<in> set (map (\<lambda>s. (s, row c)) (snapshot_rows e mid c))" for c x
    using that assms(3) snapshot_rows_fields(2) by fastforce
  have "uniq (map (\<lambda>p. sn_conflicted_id (fst p)) ?rows) = map c_maint_id cs"
    by (rule uniq_blocks) (use assms(1) key snapshot_rows_nonempty in auto)
  moreover have "snapshot_conflict ?rows (c_maint_id c) = as_stored e d c" if c: "c \<in> set cs" for c
  proof -
    have "filter (\<lambda>p. sn_conflicted_id (fst p) = c_maint_id c) ?rows = map (\<lambda>s. (s, row c)) (snapshot_rows e mid c)"
      by (rule filter_block) (use assms(1) key c in auto)
    then show ?thesis using assms(2,3) c by (intro snapshot_conflict_stored) auto
  qed
  ultimately have "map (snapshot_conflict ?rows) (uniq (map (\<lambda>p. sn_conflicted_id (fst p)) ?rows)) = map (as_stored e d) cs"
    by simp
  then have "mset (map (as_stored e d) cs) = image_mset (snapshot_conflict ?rows) (mset (uniq (map (\<lambda>p. sn_conflicted_id (fst p)) ?rows)))"
    by (simp only: mset_map [symmetric])
  then show ?thesis unfolding fromDBSnaphots_def mset_map assms(4) by (simp only:)
qed

section \<open>Sample data\<close>

definition two_maints :: db where
  "two_maints = empty_db\<lparr>d_maints := [sample_row 1 StatusPlanned ScopeResources (NewPeriod 0 10),
     (sample_row 2 StatusInProgress ScopeResources (NewPeriod 5 15))\<lparr>mt_actual := Some (NewOpenEndedPeriod 6)\<rparr>],
     d_resources_of := [(1, 4), (2, 4), (2, 5)], d_resources := [\<lparr>rs_id = 4, rs_name = ''a''\<rparr>, \<lparr>rs_id = 5, rs_name = ''b''\<rparr>]\<rparr>"

definition sample_query :: conflict_query_cmd where
  "sample_query = \<lparr>cq_maint_id = 1, cq_period = NewPeriod 0 10, cq_scope = ScopeResources, cq_resource_ids = [4]\<rparr>"

lemmas two_maints_defs = two_maints_def sample_query_def sample_defs NewPeriod_def NewOpenEndedPeriod_def

section \<open>Properties\<close>



text \<open>Conflict detection is symmetric: of two stored maintenances that are both planned or running,
  each one's own query reports the other, or neither does.\<close>

theorem conflicts_symmetric:
  assumes "a \<in> set (d_maints d)" "b \<in> set (d_maints d)" "active a" "active b"
    and "row_ok a" "row_ok b" "kept_by_column e (mt_planned a)" "kept_by_column e (mt_planned b)"
  shows "b \<in> set (conflicted_rows e d (query_of d a)) \<longleftrightarrow> a \<in> set (conflicted_rows e d (query_of d b))"
proof -
  obtain ea eb where ends: "p_end (mt_planned a) = Some ea" "p_end (mt_planned b) = Some eb"
    using assms(5,6) by (auto simp: row_ok_def planned_ok_def split: option.splits)
  have "range_overlap (mt_planned b) (p_start (mt_planned a)) ea \<longleftrightarrow> range_overlap (mt_planned a) (p_start (mt_planned b)) eb"
    by (rule range_overlap_sym) (simp_all add: ends)
  then show ?thesis
    using assms(1-4) query_bounds_stored [OF assms(7) ends(1)] query_bounds_stored [OF assms(8) ends(2)]
      scope_overlap_sym [of d a b]
    by (auto simp: conflicted_rows_def active_def query_of_def)
qed

theorem conflicts_symmetric_witness:
  "(\<exists>a b. d_maints two_maints = [a, b]
     \<and> (b \<in> set (conflicted_rows quiet_env two_maints (query_of two_maints a))
        \<longleftrightarrow> a \<in> set (conflicted_rows quiet_env two_maints (query_of two_maints b))))"
  using conflicts_symmetric [of "sample_row 1 StatusPlanned ScopeResources (NewPeriod 0 10)" two_maints
      "(sample_row 2 StatusInProgress ScopeResources (NewPeriod 5 15))\<lparr>mt_actual := Some (NewOpenEndedPeriod 6)\<rparr>" quiet_env]
  by (simp add: two_maints_defs active_def row_ok_def planned_ok_def actual_ok_def kept_by_column_def pg_period_def)

text \<open>The factual query of a closed window matches the other maintenances whose actual period shares an
  instant with it and whose zone it touches, whatever their status; it reports at most 200 of them, in the
  order of their overlap, says whether it left any out, and what it leaves out overlaps no earlier than
  what it keeps.\<close>

theorem actual_conflicts_truncation:
  assumes "\<not> IsOpen (cq_period cmd)" "fault (w_env w) (w_tick w) = None"
    and "query_lower (w_env w) (cq_period cmd) \<le> query_upper (w_env w) (cq_period cmd)"
  shows "\<exists>cs truncated. ActualConflictedMaints cmd w = (Inr (cs, truncated), tick w)
    \<and> length cs \<le> 200 \<and> sorted_wrt before_or_same cs
    \<and> (\<forall>c. c \<in> set (actual_conflicted (w_env w) (w_db w) cmd) \<longleftrightarrow> (\<exists>r p. r \<in> set (d_maints (w_db w))
         \<and> mt_actual r = Some p \<and> mt_id r \<noteq> cq_maint_id cmd \<and> scope_overlap (w_db w) cmd r
         \<and> (\<exists>t. in_period p t \<and> query_lower (w_env w) (cq_period cmd) \<le> t \<and> t < query_upper (w_env w) (cq_period cmd))
         \<and> c = overlap_conflict (query_lower (w_env w) (cq_period cmd)) (query_upper (w_env w) (cq_period cmd)) r p))
    \<and> (truncated \<longleftrightarrow> 200 < length (actual_conflicted (w_env w) (w_db w) cmd))
    \<and> (\<not> truncated \<longrightarrow> cs = actual_conflicted (w_env w) (w_db w) cmd)
    \<and> (\<forall>x \<in> set (drop (length cs) (actual_conflicted (w_env w) (w_db w) cmd)). \<forall>c \<in> set cs. before_or_same c x)"
proof -
  let ?all = "actual_conflicted (w_env w) (w_db w) cmd"
  have sorted: "sorted_wrt before_or_same (take 200 ?all @ drop 200 ?all)"
    by (simp add: sorted_actual)
  have "before_or_same c x" if "x \<in> set (drop (length (take 200 ?all)) ?all)" "c \<in> set (take 200 ?all)" for c x
    using that sorted [unfolded sorted_wrt_append] by (cases "length ?all \<le> 200") (auto simp: min_def)
  moreover have "sorted_wrt before_or_same (take 200 ?all)" by (rule sorted_wrt_take [OF sorted_actual])
  ultimately show ?thesis
    using ActualConflictedMaints_result [OF assms] unfolding set_actual_conflicted range_overlap_iff
    by (intro exI conjI) (auto simp: ActualConflictsLimit_def)
qed

theorem actual_conflicts_truncation_witness:
  "\<not> IsOpen (cq_period sample_query)
   \<and> (\<exists>cs t. ActualConflictedMaints sample_query (quiet_world two_maints) = (Inr (cs, t), tick (quiet_world two_maints))
        \<and> length cs \<le> 200)"
  using actual_conflicts_truncation [of sample_query "quiet_world two_maints"]
  by (auto simp: two_maints_defs query_lower_def query_upper_def IsOpen_def)

text \<open>C32. The approval snapshot survives the round trip: conflicts saved for a maintenance that had none are
  read back one for one, in whatever order Go ranges over them, with their windows as the column keeps them
  and their resources in order, the title and the scope coming from the neighbour's own row.\<close>

theorem snapshot_roundtrip:
  assumes "fault (w_env w) (w_tick w) = None" "fault (w_env w) (Suc (w_tick w)) = None"
    and "distinct (map mt_id (d_maints (w_db w)))" "has_maint (w_db w) mid"
    and "\<forall>s \<in> set (d_snapshots (w_db w)). sn_maint_id s \<noteq> mid"
    and "distinct (map c_maint_id cs)" "\<forall>c \<in> set cs. has_maint (w_db w) (c_maint_id c)"
    and "\<forall>c \<in> set cs. pg_time (w_env w) (c_overlap_start c) < pg_time (w_env w) (c_overlap_end c)"
    and "\<And>t xs. mset (map_range (w_env w) t xs) = mset xs"
  shows "\<exists>cs'. fst (osequel (SaveSnapshot mid (map Some cs)) (GetSnapshots mid) w) = Inr cs'
    \<and> mset cs' = mset (map (as_stored (w_env w) (w_db w)) cs)"
proof -
  let ?d = "w_db w" and ?e = "w_env w"
  define row where "row c = the (find_maint ?d (c_maint_id c))" for c :: conflict_wr
  have rows: "\<forall>c \<in> set cs. find_maint ?d (c_maint_id c) = Some (row c)"
    using assms(7) find_maint_None by (fastforce simp: row_def)
  have read: "mset (fromDBSnaphots (map_range ?e t) (joined_snapshots (?d\<lparr>d_snapshots := d_snapshots ?d @ map (pg_snapshot_row ?e) (toDBSnaphots mid cs)\<rparr>) mid))
      = mset (map (as_stored ?e ?d) cs)" for t
    using joined_snapshots_saved [OF assms(3,5) rows assms(8)] fromDB_saved [OF assms(6) rows assms(8) assms(9)] by simp
  have none: "\<not> snapshot_reversed ?e r \<and> has_maint ?d (sn_conflicted_id r)" if "r \<in> set (toDBSnaphots mid cs)" for r
    using that assms(7,8)
    by (auto simp: toDBSnaphots_def snapshot_row_of_def snapshot_reversed_def range_reversed_def NewPeriod_def split: if_splits)
  show ?thesis
  proof (cases "cs = []")
    case True
    with read assms(1) show ?thesis
      by (simp add: op_defs SaveSnapshot_def snapshots_Save_def GetSnapshots_def db_query_def db_call_def toDBSnaphots_def)
  next
    case False
    have "SaveSnapshot mid (map Some cs) w = (Inr (), (tick w)\<lparr>w_db := ?d\<lparr>d_snapshots := d_snapshots ?d @
        map (pg_snapshot_row ?e) (toDBSnaphots mid cs)\<rparr>\<rparr>)"
      using False assms(1,4) none by (auto simp: SaveSnapshot_def snapshots_Save_def db_call_def Let_def comp_def)
    then show ?thesis
      using read assms(2) by (simp add: op_defs GetSnapshots_def db_query_def db_call_def)
  qed
qed

definition sample_conflict :: conflict_wr where
  "sample_conflict = \<lparr>c_maint_id = 2, c_title = ''t'', c_overlap_start = 5, c_overlap_end = 10,
     c_scope = ScopeResources, c_resources = [4, 5], c_known = False\<rparr>"

theorem snapshot_roundtrip_witness:
  "\<exists>cs'. fst (osequel (SaveSnapshot 1 (map Some [sample_conflict])) (GetSnapshots 1) (quiet_world two_maints)) = Inr cs'
    \<and> mset cs' = mset (map (as_stored quiet_env two_maints) [sample_conflict])"
  using snapshot_roundtrip [of "quiet_world two_maints" 1 "[sample_conflict]"]
  by (simp add: two_maints_defs sample_conflict_def has_maint_def)

end
