(* ===== verification/NotifyTargets.thy ===== *)
theory NotifyTargets
  imports MaintStore
begin

text \<open>
  The notify targets of a maintenance: \<open>internal/storages/notifytargets\<close>, the channel
  catalog read of \<open>internal/storages/notifychannel\<close> and \<open>internal/services/notifytargets\<close>.
  A target references a catalog channel; its delivery address is joined in on every read.
\<close>

section \<open>Channel catalog\<close>

definition channel_get :: "uuid \<Rightarrow> channel_row op" where
  "channel_get cid = obind (db_query (\<lambda>d. find (\<lambda>c. chn_id c = cid) (d_channels d)))
     (\<lambda>c. case c of None \<Rightarrow> raise ErrNotifyChannelNotFound | Some c \<Rightarrow> ret c)"

section \<open>The targets table\<close>

definition rootRefFromDB :: "target_row \<Rightarrow> message_ref option" where
  "rootRefFromDB r = (case tg_root_message_id r of None \<Rightarrow> None
     | Some i \<Rightarrow> if i = [] then None else Some \<lparr>mr_message_id = i\<rparr>)"

definition target_toDB :: "uuid \<Rightarrow> notify_target \<Rightarrow> target_row" where
  "target_toDB mid t = \<lparr>tg_id = nil_uuid, tg_maint_id = mid, tg_channel_id = nt_channel_id t,
     tg_created_at = zero_time, tg_root_message_id = None, tg_root_channel = None\<rparr>"

definition target_fromDB :: "target_row \<Rightarrow> notify_target" where
  "target_fromDB r = \<lparr>nt_id = tg_id r, nt_maint_id = tg_maint_id r, nt_channel_id = tg_channel_id r,
     nt_created_at = tg_created_at r, nt_transport = [], nt_transport_channel_id = [],
     nt_channel_name = [], nt_root_ref = rootRefFromDB r,
     nt_root_channel = (case tg_root_channel r of None \<Rightarrow> [] | Some c \<Rightarrow> c)\<rparr>"

definition new_target_rows :: "env \<Rightarrow> nat \<Rightarrow> uuid \<Rightarrow> notify_target list \<Rightarrow> target_row list" where
  "new_target_rows e t mid ts = map (\<lambda>(i, x). (target_toDB mid x)\<lparr>tg_id := gen e t i, tg_created_at := pg_time e (clock e t)\<rparr>)
     (zip [0..<length ts] ts)"

definition targets_unique :: "target_row list \<Rightarrow> bool" where
  "targets_unique rows = (distinct (map tg_id rows) \<and> distinct (map (\<lambda>r. (tg_maint_id r, tg_channel_id r)) rows))"

definition targets_CreateMany :: "uuid \<Rightarrow> notify_target list \<Rightarrow> notify_target list op" where
  "targets_CreateMany mid ts = (if ts = [] then ret [] else
     ocatch (db_call (\<lambda>e t d.
       let rows = new_target_rows e t mid ts in
       if \<not> targets_unique (d_targets d @ rows) then Inl PgUniqueViolation
       else if \<not> has_maint d mid \<or> \<not> set (map nt_channel_id ts) \<subseteq> set (map chn_id (d_channels d))
       then Inl PgForeignKeyViolation
       else Inr (map target_fromDB rows, d\<lparr>d_targets := d_targets d @ rows\<rparr>)))
     (\<lambda>e. if e = PgUniqueViolation then raise ErrNotifyTargetsAlreadyExists else raise e))"

definition targets_Delete :: "uuid \<Rightarrow> unit op" where
  "targets_Delete mid = db_call (\<lambda>_ _ d. Inr ((), d\<lparr>d_targets := filter (\<lambda>r. tg_maint_id r \<noteq> mid) (d_targets d)\<rparr>))"

definition target_rows :: "db \<Rightarrow> uuid \<Rightarrow> target_row list" where
  "target_rows d mid = sort_func (\<lambda>a b. if tg_created_at a \<noteq> tg_created_at b
       then ord_cmp (tg_created_at a) (tg_created_at b) else ord_cmp (tg_channel_id a) (tg_channel_id b))
     (filter (\<lambda>r. tg_maint_id r = mid) (d_targets d))"

definition list_row :: "target_row \<Rightarrow> channel_row \<Rightarrow> notify_target" where
  "list_row r c = (target_fromDB r)\<lparr>nt_transport := chn_transport c,
     nt_transport_channel_id := chn_address c, nt_channel_name := chn_name c\<rparr>"

definition joined_targets :: "db \<Rightarrow> uuid \<Rightarrow> notify_target list" where
  "joined_targets d mid = concat (map (\<lambda>r.
     map (list_row r) (filter (\<lambda>c. chn_id c = tg_channel_id r) (d_channels d))) (target_rows d mid))"

definition targets_ListByMaint_store :: "uuid \<Rightarrow> notify_target list op" where
  "targets_ListByMaint_store mid = db_query (\<lambda>d. joined_targets d mid)"

definition SetRootRef :: "uuid \<Rightarrow> uuid \<Rightarrow> string \<Rightarrow> string \<Rightarrow> unit op" where
  "SetRootRef mid cid message channel = db_call (\<lambda>_ _ d. Inr ((), d\<lparr>d_targets :=
     map (\<lambda>r. if tg_maint_id r = mid \<and> tg_channel_id r = cid
        then r\<lparr>tg_root_message_id := Some message, tg_root_channel := Some channel\<rparr> else r) (d_targets d)\<rparr>))"

section \<open>The service\<close>

definition ResolveNotifyTarget :: "uuid \<Rightarrow> uuid list \<Rightarrow> notify_target list op" where
  "ResolveNotifyTarget mid input = map_each input (\<lambda>cid.
     obind (ocatch (channel_get cid)
        (\<lambda>e. if e = ErrNotifyChannelNotFound then raise (ErrUnknownChannel cid) else raise e)) (\<lambda>c.
     ret \<lparr>nt_id = nil_uuid, nt_maint_id = mid, nt_channel_id = chn_id c, nt_created_at = zero_time,
       nt_transport = chn_transport c, nt_transport_channel_id = chn_address c,
       nt_channel_name = chn_name c, nt_root_ref = None, nt_root_channel = []\<rparr>))"

definition targets_Create :: "uuid \<Rightarrow> uuid list \<Rightarrow> notify_target list op" where
  "targets_Create mid input = obind (ResolveNotifyTarget mid input) (targets_CreateMany mid)"

definition targets_replace :: "uuid \<Rightarrow> notify_target list \<Rightarrow> unit op" where
  "targets_replace mid ts = osequel (osequel (targets_Delete mid) (targets_CreateMany mid ts)) (ret ())"

definition targets_Replace :: "uuid \<Rightarrow> notify_target list \<Rightarrow> unit op" where
  "targets_Replace mid ts = WithinTx (targets_replace mid ts)"

definition targets_ListByMaint :: "uuid \<Rightarrow> notify_target list op" where
  "targets_ListByMaint mid = targets_ListByMaint_store mid"

lemmas targets_defs = channel_get_def targets_CreateMany_def targets_Delete_def
  targets_ListByMaint_store_def SetRootRef_def ResolveNotifyTarget_def targets_Create_def
  targets_replace_def targets_ListByMaint_def

lemma targets_db_only [db_only_rules]:
  "db_only (channel_get c)" "db_only (targets_CreateMany mid ts)" "db_only (targets_Delete mid)"
  "db_only (targets_ListByMaint_store mid)" "db_only (SetRootRef mid c s ch)"
  "db_only (ResolveNotifyTarget mid input)" "db_only (targets_Create mid input)"
  "db_only (targets_replace mid ts)" "db_only (targets_ListByMaint mid)"
  by (auto simp: targets_defs intro!: db_only_rules)

section \<open>The targets as a child table\<close>

definition target_channels :: "db \<Rightarrow> uuid \<Rightarrow> uuid list" where
  "target_channels d mid = map tg_channel_id (filter (\<lambda>r. tg_maint_id r = mid) (d_targets d))"

lemma new_target_rows_channels: "map tg_channel_id (new_target_rows e t mid ts) = map nt_channel_id ts"
  unfolding new_target_rows_def by (rule map_indexed) (simp add: target_toDB_def)

lemma filter_new_target_rows:
  "filter (\<lambda>r. tg_maint_id r = m) (new_target_rows e t mid ts) = (if m = mid then new_target_rows e t mid ts else [])"
  by (auto simp: new_target_rows_def target_toDB_def intro!: filter_all filter_none)

interpretation targets_tab: child_table target_channels "[]" "\<lambda>_. map nt_channel_id" targets_Delete
  targets_CreateMany "\<lambda>d. d\<lparr>d_targets := []\<rparr>"
proof unfold_locales
  show "db_only (targets_Delete mid)" for mid by (rule db_only_rules)
  show "post (targets_Delete mid) (\<lambda>_ w'. target_channels (w_db w') mid = []) (\<lambda>_ _. True) w" for mid w
    by (auto simp: targets_Delete_def post_db_call target_channels_def split: option.split)
  show "post (targets_Delete mid) (\<lambda>_ w'. (w_db w')\<lparr>d_targets := []\<rparr> = (w_db w)\<lparr>d_targets := []\<rparr>
      \<and> (mid' \<noteq> mid \<longrightarrow> target_channels (w_db w') mid' = target_channels (w_db w) mid')) (\<lambda>_ _. True) w" for mid mid' w
    by (auto simp: targets_Delete_def post_db_call target_channels_def split: option.split
        intro!: arg_cong [of _ _ "map tg_channel_id"] filter_cong)
  show "post (targets_CreateMany mid vs) (\<lambda>_ w'. target_channels (w_db w') mid = map nt_channel_id vs) (\<lambda>_ _. True) w"
    if "target_channels (w_db w) mid = []" for w mid vs
    using that by (cases "vs = []") (simp_all add: targets_CreateMany_def post_db_call target_channels_def
        filter_new_target_rows new_target_rows_channels Let_def split: option.split)
  show "post (targets_CreateMany mid vs) (\<lambda>_ w'. (w_db w')\<lparr>d_targets := []\<rparr> = (w_db w)\<lparr>d_targets := []\<rparr>
      \<and> (mid' \<noteq> mid \<longrightarrow> target_channels (w_db w') mid' = target_channels (w_db w) mid')) (\<lambda>_ _. True) w" for mid vs mid' w
    by (cases "vs = []") (simp_all add: targets_CreateMany_def post_db_call target_channels_def
        filter_new_target_rows Let_def split: option.split)
qed

end
