(* ===== verification/Deferred.thy ===== *)
theory Deferred
  imports MaintStore ConflictEntity
begin

text \<open>
  Deferred notifications (reminders): \<open>internal/storages/deferrednotifications\<close>, the queue
  adapter \<open>internal/services/messaging/scheduler\<close> and
  \<open>internal/services/deferrednotifications\<close>. The queue library is the three functions
  \<open>goque_new_task\<close>, \<open>goque_add\<close> and \<open>goque_cancel\<close> of the environment; its task table
  lives in the same database, so the calls join the caller's transaction.
\<close>

section \<open>The table\<close>

definition deferred_toDB :: "uuid \<Rightarrow> deferred_notification \<Rightarrow> deferred_row" where
  "deferred_toDB mid n = \<lparr>df_id = nil_uuid, df_maint_id = mid, df_fire_at = dn_fire_at n,
     df_task_id = dn_goque_task_id n, df_created_at = zero_time\<rparr>"

definition deferred_fromDB :: "deferred_row \<Rightarrow> deferred_notification" where
  "deferred_fromDB r = \<lparr>dn_id = df_id r, dn_maint_id = df_maint_id r, dn_fire_at = df_fire_at r,
     dn_goque_task_id = df_task_id r\<rparr>"

definition new_deferred_rows :: "env \<Rightarrow> nat \<Rightarrow> uuid \<Rightarrow> deferred_notification list \<Rightarrow> deferred_row list" where
  "new_deferred_rows e t mid ns = map (\<lambda>(i, n). (deferred_toDB mid n)\<lparr>df_id := gen e t i,
       df_fire_at := pg_time e (dn_fire_at n), df_created_at := pg_time e (clock e t)\<rparr>)
     (zip [0..<length ns] ns)"

definition deferred_CreateMany :: "uuid \<Rightarrow> deferred_notification list \<Rightarrow> deferred_notification list op" where
  "deferred_CreateMany mid ns = (if ns = [] then ret [] else db_call (\<lambda>e t d.
     let rows = new_deferred_rows e t mid ns in
     if \<not> distinct (map df_id (d_deferred d @ rows)) then Inl PgUniqueViolation
     else if \<not> has_maint d mid then Inl PgForeignKeyViolation
     else Inr (map deferred_fromDB rows, d\<lparr>d_deferred := d_deferred d @ rows\<rparr>)))"

definition DeleteByMaint :: "uuid \<Rightarrow> unit op" where
  "DeleteByMaint mid = db_call (\<lambda>_ _ d. Inr ((), d\<lparr>d_deferred := filter (\<lambda>r. df_maint_id r \<noteq> mid) (d_deferred d)\<rparr>))"

definition deferred_rows :: "db \<Rightarrow> uuid \<Rightarrow> deferred_row list" where
  "deferred_rows d mid = sort_func (\<lambda>a b. if df_fire_at a \<noteq> df_fire_at b
       then ord_cmp (df_fire_at a) (df_fire_at b) else ord_cmp (df_id a) (df_id b))
     (filter (\<lambda>r. df_maint_id r = mid) (d_deferred d))"

definition deferred_ListByMaint_store :: "uuid \<Rightarrow> deferred_notification list op" where
  "deferred_ListByMaint_store mid = db_query (\<lambda>d. map deferred_fromDB (deferred_rows d mid))"

definition SetTaskID :: "uuid \<Rightarrow> uuid \<Rightarrow> unit op" where
  "SetTaskID did tid = db_call (\<lambda>_ _ d. Inr ((), d\<lparr>d_deferred :=
     map (\<lambda>r. if df_id r = did then r\<lparr>df_task_id := Some tid\<rparr> else r) (d_deferred d)\<rparr>))"

section \<open>The queue adapter\<close>

definition new_task :: "string \<Rightarrow> task_payload \<Rightarrow> string \<Rightarrow> task op" where
  "new_task ty p key w = (goque_new_task (w_env w) (w_tick w) ty p key, tick w)"

definition ScheduleDelayed :: "string \<Rightarrow> task_payload \<Rightarrow> duration \<Rightarrow> string \<Rightarrow> uuid op" where
  "ScheduleDelayed ty p delay key = obind (new_task ty p key) (\<lambda>task.
     let task' = (if delay > 0 then task\<lparr>tk_next_attempt_at := tk_next_attempt_at task + delay\<rparr> else task) in
     osequel (db_call (\<lambda>e _ d. case goque_add e task' (d_tasks d) of Inl err \<Rightarrow> Inl err
       | Inr ts \<Rightarrow> Inr ((), d\<lparr>d_tasks := ts\<rparr>)))
     (ret (tk_id task')))"

definition scheduler_Schedule :: "string \<Rightarrow> task_payload \<Rightarrow> string \<Rightarrow> uuid op" where
  "scheduler_Schedule ty p key = ScheduleDelayed ty p 0 key"

definition scheduler_Cancel :: "uuid \<Rightarrow> unit op" where
  "scheduler_Cancel tid = db_call (\<lambda>e _ d. case goque_cancel e tid (d_tasks d) of Inl err \<Rightarrow> Inl err
     | Inr ts \<Rightarrow> Inr ((), d\<lparr>d_tasks := ts\<rparr>))"

section \<open>The service\<close>

definition hex_digit :: "int \<Rightarrow> char" where
  "hex_digit n = ''0123456789abcdef'' ! nat (n mod 16)"

definition hex_digits :: "nat \<Rightarrow> int \<Rightarrow> string" where
  "hex_digits k n = map (\<lambda>i. hex_digit (n div 16 ^ (k - 1 - i))) [0..<k]"

text \<open>\<open>uuid.UUID.String\<close>: the 8-4-4-4-12 grouping of the 32 hexadecimal digits.\<close>

definition uuid_string :: "uuid \<Rightarrow> string" where
  "uuid_string u = (let h = hex_digits 32 (uint u) in
     take 8 h @ ''-'' @ take 4 (drop 8 h) @ ''-'' @ take 4 (drop 12 h) @ ''-'' @ take 4 (drop 16 h)
       @ ''-'' @ drop 20 h)"

definition idempotencyKey :: "(string \<Rightarrow> string) \<Rightarrow> uuid \<Rightarrow> uuid \<Rightarrow> string" where
  "idempotencyKey h mid did = h (''maint|reminder|'' @ uuid_string mid @ ''|'' @ uuid_string did)"

definition ProcessorTaskMaintReminder :: string where
  "ProcessorTaskMaintReminder = ''maint.reminder''"

definition deferred_Create :: "uuid \<Rightarrow> deferred_notification list \<Rightarrow> deferred_notification list op" where
  "deferred_Create mid ns = deferred_CreateMany mid ns"

definition deferred_ListByMaint :: "uuid \<Rightarrow> deferred_notification list op" where
  "deferred_ListByMaint mid = deferred_ListByMaint_store mid"

definition cancelEnqueued :: "uuid \<Rightarrow> unit op" where
  "cancelEnqueued mid = obind (deferred_ListByMaint_store mid) (\<lambda>ns.
     for_each ns (\<lambda>n. if \<not> IsScheduled n then ret ()
       else scheduler_Cancel (case dn_goque_task_id n of None \<Rightarrow> nil_uuid | Some t \<Rightarrow> t)))"

definition deferred_Cancel :: "uuid \<Rightarrow> unit op" where
  "deferred_Cancel mid = cancelEnqueued mid"

definition deferred_Replace :: "uuid \<Rightarrow> deferred_notification list \<Rightarrow> unit op" where
  "deferred_Replace mid ns = osequel (cancelEnqueued mid)
     (osequel (osequel (DeleteByMaint mid) (deferred_CreateMany mid ns)) (ret ()))"

definition deferred_Schedule :: "uuid \<Rightarrow> unit op" where
  "deferred_Schedule mid = obind (deferred_ListByMaint_store mid) (\<lambda>ns.
     obind UTCNow (\<lambda>now. obind (read_world (\<lambda>w. sha256_hex (w_env w))) (\<lambda>h.
     for_each ns (\<lambda>n.
       obind (ScheduleDelayed ProcessorTaskMaintReminder (ReminderPayload mid (dn_id n))
           (max (time_sub (dn_fire_at n) now) 0) (idempotencyKey h mid (dn_id n))) (\<lambda>tid.
       SetTaskID (dn_id n) tid)))))"

lemmas deferred_defs = deferred_CreateMany_def DeleteByMaint_def deferred_ListByMaint_store_def
  SetTaskID_def ScheduleDelayed_def scheduler_Schedule_def scheduler_Cancel_def deferred_Create_def
  deferred_ListByMaint_def cancelEnqueued_def deferred_Cancel_def deferred_Replace_def deferred_Schedule_def

lemma db_only_new_task [db_only_rules]: "db_only (new_task ty p key)"
  by (simp add: db_only_def new_task_def)

lemma deferred_db_only [db_only_rules]:
  "db_only (deferred_CreateMany mid ns)" "db_only (DeleteByMaint mid)" "db_only (deferred_ListByMaint_store mid)"
  "db_only (SetTaskID did tid)" "db_only (ScheduleDelayed ty p dl key)" "db_only (scheduler_Cancel tid)"
  "db_only (deferred_Create mid ns)" "db_only (deferred_ListByMaint mid)" "db_only (cancelEnqueued mid)"
  "db_only (deferred_Cancel mid)" "db_only (deferred_Replace mid ns)" "db_only (deferred_Schedule mid)"
  by (auto simp: deferred_defs Let_def intro!: db_only_rules)

section \<open>The schedule as a child table\<close>

definition deferred_plan :: "db \<Rightarrow> uuid \<Rightarrow> (time \<times> uuid option) list" where
  "deferred_plan d mid = map (\<lambda>r. (df_fire_at r, df_task_id r)) (filter (\<lambda>r. df_maint_id r = mid) (d_deferred d))"

definition plan_added :: "env \<Rightarrow> deferred_notification list \<Rightarrow> (time \<times> uuid option) list" where
  "plan_added e ns = map (\<lambda>n. (pg_time e (dn_fire_at n), dn_goque_task_id n)) ns"

lemma new_deferred_rows_plan: "map (\<lambda>r. (df_fire_at r, df_task_id r)) (new_deferred_rows e t mid ns) = plan_added e ns"
  unfolding new_deferred_rows_def plan_added_def by (rule map_indexed) (simp add: deferred_toDB_def)

lemma filter_new_deferred_rows:
  "filter (\<lambda>r. df_maint_id r = m) (new_deferred_rows e t mid ns) = (if m = mid then new_deferred_rows e t mid ns else [])"
  by (auto simp: new_deferred_rows_def deferred_toDB_def intro!: filter_all filter_none)

interpretation deferred_tab: child_table deferred_plan "[]" plan_added DeleteByMaint
  deferred_CreateMany "\<lambda>d. d\<lparr>d_deferred := []\<rparr>"
proof unfold_locales
  show "db_only (DeleteByMaint mid)" for mid by (rule db_only_rules)
  show "post (DeleteByMaint mid) (\<lambda>_ w'. deferred_plan (w_db w') mid = []) (\<lambda>_ _. True) w" for mid w
    by (auto simp: DeleteByMaint_def post_db_call deferred_plan_def split: option.split)
  show "post (DeleteByMaint mid) (\<lambda>_ w'. (w_db w')\<lparr>d_deferred := []\<rparr> = (w_db w)\<lparr>d_deferred := []\<rparr>
      \<and> (mid' \<noteq> mid \<longrightarrow> deferred_plan (w_db w') mid' = deferred_plan (w_db w) mid')) (\<lambda>_ _. True) w" for mid mid' w
    by (auto simp: DeleteByMaint_def post_db_call deferred_plan_def split: option.split
        intro!: arg_cong [of _ _ "map (\<lambda>r. (df_fire_at r, df_task_id r))"] filter_cong)
  show "post (deferred_CreateMany mid vs) (\<lambda>_ w'. deferred_plan (w_db w') mid = plan_added (w_env w) vs) (\<lambda>_ _. True) w"
    if "deferred_plan (w_db w) mid = []" for w mid vs
    using that by (cases "vs = []") (simp_all add: deferred_CreateMany_def post_db_call deferred_plan_def
        filter_new_deferred_rows new_deferred_rows_plan Let_def plan_added_def [of _ "[]"] split: option.split)
  show "post (deferred_CreateMany mid vs) (\<lambda>_ w'. (w_db w')\<lparr>d_deferred := []\<rparr> = (w_db w)\<lparr>d_deferred := []\<rparr>
      \<and> (mid' \<noteq> mid \<longrightarrow> deferred_plan (w_db w') mid' = deferred_plan (w_db w) mid')) (\<lambda>_ _. True) w" for mid vs mid' w
    by (cases "vs = []") (simp_all add: deferred_CreateMany_def post_db_call deferred_plan_def
        filter_new_deferred_rows Let_def split: option.split)
qed

end
