(* ===== verification/Notify.thy ===== *)
theory Notify
  imports NotifyTargets "HOL-Library.Sublist"
begin

text \<open>
  Notification dispatch: \<open>internal/services/maintnotify\<close> and the synchronous
  \<open>internal/services/messaging/sender\<close>. Rendering a template, the transport behind the
  registry and the lookup of a user's mention are functions of the environment; a
  delivery the transport accepted is appended to \<open>w_sent\<close>.
\<close>

section \<open>The sender\<close>

definition Send :: "string \<Rightarrow> string \<Rightarrow> notify_message \<Rightarrow> message_ref option \<Rightarrow> send_result op" where
  "Send tr addr msg reply w = (case w_tx w of Some _ \<Rightarrow> (Inl ErrSendInsideTx, w)
   | None \<Rightarrow> (case transport_send (w_env w) (w_tick w) tr addr msg reply of
       Inl e \<Rightarrow> (Inl e, tick w)
     | Inr r \<Rightarrow> (Inr r, (tick w)\<lparr>w_sent := w_sent w @ [\<lparr>dl_transport = tr, dl_address = addr, dl_message = msg,
          dl_reply_to = reply\<rparr>]\<rparr>)))"

section \<open>Dispatch\<close>

definition fillEvent :: "notify_event \<Rightarrow> notify_event op" where
  "fillEvent ev = obind (if ne_occurred_at ev = zero_time
       then obind UTCNow (\<lambda>now. ret (ev\<lparr>ne_occurred_at := now\<rparr>)) else ret ev) (\<lambda>ev1.
     read_world (\<lambda>w. if ne_frontend_url ev1 = [] then ev1\<lparr>ne_frontend_url := frontend_url (w_env w)\<rparr> else ev1))"

definition fill_owner :: "notify_event \<Rightarrow> notify_event op" where
  "fill_owner ev = read_world (\<lambda>w. if ne_created_by ev \<noteq> nil_uuid
     then ev\<lparr>ne_owner_mention := resolve_owner (w_env w) (ne_created_by ev)\<rparr> else ev)"

definition resolveMentions :: "notify_event \<Rightarrow> user_mention list op" where
  "resolveMentions ev = (if IsStep (ne_kind ev) then ret []
     else ocatch (obind (GetMaintMentions (ne_maint_id ev)) (\<lambda>ids.
         let ids' = filter (\<lambda>i. i \<noteq> ne_created_by ev) ids in
         if ids' = [] then ret [] else read_world (\<lambda>w. resolve_mentions_of (w_env w) ids')))
       (\<lambda>_. ret []))"

fun renderPerTransport :: "(string \<Rightarrow> notify_event \<Rightarrow> apperr + notify_message) \<Rightarrow> notify_event \<Rightarrow> notify_target list
    \<Rightarrow> (string \<rightharpoonup> notify_message) \<Rightarrow> apperr + (string \<rightharpoonup> notify_message)" where
  "renderPerTransport rend ev [] messages = Inr messages"
| "renderPerTransport rend ev (t # ts) messages =
     (if messages (nt_transport t) \<noteq> None then renderPerTransport rend ev ts messages
      else case rend (nt_transport t) ev of Inl e \<Rightarrow> Inl e
        | Inr msg \<Rightarrow> renderPerTransport rend ev ts (messages(nt_transport t \<mapsto> msg)))"

definition replyTo :: "notify_event \<Rightarrow> notify_target \<Rightarrow> message_ref option" where
  "replyTo ev t = (if ne_kind ev = EventMaintStarted \<or> ne_kind ev = EventMaintReminder then None
     else if nt_root_ref t = None then None
     else if nt_root_channel t \<noteq> [] \<and> nt_root_channel t \<noteq> nt_transport_channel_id t then None
     else nt_root_ref t)"

definition recordRoot :: "notify_event \<Rightarrow> notify_target \<Rightarrow> send_result \<Rightarrow> unit op" where
  "recordRoot ev t res = (case sr_ref res of None \<Rightarrow> ret ()
     | Some ref \<Rightarrow> if ne_kind ev = EventMaintStarted \<or> sr_root_replaced res
         then best_effort (SetRootRef (ne_maint_id ev) (nt_channel_id t) (mr_message_id ref) (nt_transport_channel_id t))
         else ret ())"

definition empty_message :: notify_message where
  "empty_message = \<lparr>nm_subject = [], nm_body = [], nm_mime = []\<rparr>"

definition message_for :: "(string \<rightharpoonup> notify_message) \<Rightarrow> notify_target \<Rightarrow> notify_message" where
  "message_for messages t = (case messages (nt_transport t) of None \<Rightarrow> empty_message | Some m \<Rightarrow> m)"

definition deliver :: "notify_event \<Rightarrow> (string \<rightharpoonup> notify_message) \<Rightarrow> notify_target \<Rightarrow> unit op" where
  "deliver ev messages t = ocatch
     (obind (Send (nt_transport t) (nt_transport_channel_id t) (message_for messages t) (replyTo ev t)) (recordRoot ev t))
     (\<lambda>_. ret ())"

definition render_messages :: "notify_event \<Rightarrow> notify_target list \<Rightarrow> (string \<rightharpoonup> notify_message) op" where
  "render_messages ev ts w = (renderPerTransport (render (w_env w)) ev ts Map.empty, w)"

definition dispatchSync :: "notify_event \<Rightarrow> unit op" where
  "dispatchSync ev = obind (targets_ListByMaint_store (ne_maint_id ev)) (\<lambda>ts.
     if ts = [] then ret () else
     obind (fillEvent ev) (\<lambda>ev1. obind (fill_owner ev1) (\<lambda>ev2.
     obind (resolveMentions ev2) (\<lambda>ms. let ev3 = ev2\<lparr>ne_mentions := ms\<rparr> in
     obind (render_messages ev3 ts) (\<lambda>messages. for_each ts (deliver ev3 messages))))))"

section \<open>Events\<close>

definition NotifyMaintLifecycle :: "event_kind \<Rightarrow> maintenance \<Rightarrow> unit op" where
  "NotifyMaintLifecycle kind m = (if IsStep kind then ret () else best_effort (dispatchSync (empty_event\<lparr>
     ne_kind := kind, ne_maint_id := m_id m, ne_maint_title := m_title m, ne_task_url := m_task_url m,
     ne_created_by := m_created_by m, ne_cancel_reason := m_cancel_reason m,
     ne_cancel_comment := m_cancel_comment m\<rparr>)))"

definition NotifyStepLifecycle :: "event_kind \<Rightarrow> maintenance \<Rightarrow> maint_step \<Rightarrow> unit op" where
  "NotifyStepLifecycle kind m s = (if \<not> IsStep kind then ret () else best_effort (dispatchSync (empty_event\<lparr>
     ne_kind := kind, ne_maint_id := m_id m, ne_maint_title := m_title m, ne_step_id := s_id s,
     ne_step_order := s_order s, ne_step_description := s_description s\<rparr>)))"

definition NotifyMaintReminder :: "maintenance \<Rightarrow> unit op" where
  "NotifyMaintReminder m = dispatchSync (empty_event\<lparr>ne_kind := EventMaintReminder, ne_maint_id := m_id m,
     ne_maint_title := m_title m, ne_planned_start := p_start (m_planned m), ne_task_url := m_task_url m,
     ne_created_by := m_created_by m\<rparr>)"

section \<open>The reminder worker\<close>

definition shouldRemind :: "maintenance \<Rightarrow> bool" where
  "shouldRemind m = (m_status m = StatusPlanned)"

definition reminder_ProcessTask :: "uuid \<Rightarrow> uuid \<Rightarrow> unit op" where
  "reminder_ProcessTask mid did = obind (ocatch (obind (GetMaint_store mid) (\<lambda>m. ret (Some m)))
       (\<lambda>e. if e = ErrMaintNotFound then ret None else raise e)) (\<lambda>mo.
     case mo of None \<Rightarrow> ret () | Some m \<Rightarrow> if \<not> shouldRemind m then ret () else NotifyMaintReminder m)"

section \<open>What dispatch leaves alone\<close>

definition notify_frame :: "world \<Rightarrow> world \<Rightarrow> bool" where
  "notify_frame w w' \<longleftrightarrow> w_env w' = w_env w \<and> w_tx w' = w_tx w \<and> w_audit w' = w_audit w
     \<and> (w_db w')\<lparr>d_targets := []\<rparr> = (w_db w)\<lparr>d_targets := []\<rparr>"

definition notify_only :: "'a op \<Rightarrow> bool" where
  "notify_only m \<longleftrightarrow> (\<forall>w0. keeps (notify_frame w0) m)"

named_theorems notify_rules \<open>operations that change deliveries and thread roots only\<close>

lemma notify_only_ops [notify_rules]:
  "notify_only (ret a)" "notify_only (raise e)" "notify_only (read_world f)"
  "notify_only m \<Longrightarrow> (\<And>x. notify_only (g x)) \<Longrightarrow> notify_only (obind m g)"
  "notify_only m \<Longrightarrow> notify_only (best_effort m)"
  "notify_only m \<Longrightarrow> (\<And>er. notify_only (h er)) \<Longrightarrow> notify_only (ocatch m h)"
  "notify_only m \<Longrightarrow> notify_only k \<Longrightarrow> notify_only (if b then m else k)"
  "(\<And>x. notify_only (g' x)) \<Longrightarrow> notify_only (for_each xs g')"
  "notify_only m \<Longrightarrow> (\<And>x. notify_only (k' x)) \<Longrightarrow> notify_only (case xo of None \<Rightarrow> m | Some x \<Rightarrow> k' x)"
  for m k :: "'b op"
  unfolding notify_only_def by (auto intro!: keep_rules)

lemma notify_only_db:
  assumes "db_only m" "\<And>w. (w_db (snd (m w)))\<lparr>d_targets := []\<rparr> = (w_db w)\<lparr>d_targets := []\<rparr>"
  shows "notify_only m"
  using assms by (auto simp: notify_only_def keeps_def notify_frame_def db_only_def same_frame_def)

lemma db_query_same_db: "w_db (snd (db_query q w)) = w_db w"
  by (simp add: db_query_def db_call_def split: option.split)

lemma notify_only_base [notify_rules]:
  "notify_only UTCNow" "notify_only (db_query q)" "notify_only (SetRootRef mid c s ch)"
  "notify_only (Send tr addr msg rep)" "notify_only (render_messages ev ts)"
proof -
  show "notify_only UTCNow" by (rule notify_only_db) (simp_all add: db_only_rules UTCNow_def)
  show "notify_only (db_query q)" by (rule notify_only_db) (simp_all add: db_only_rules db_query_same_db)
  show "notify_only (SetRootRef mid c s ch)"
    by (rule notify_only_db) (auto simp: db_only_rules SetRootRef_def db_call_def split: option.split)
  show "notify_only (Send tr addr msg rep)"
    by (auto simp: notify_only_def keeps_def notify_frame_def Send_def split: option.split sum.split)
  show "notify_only (render_messages ev ts)"
    by (simp add: notify_only_def keeps_def render_messages_def)
qed

lemma notify_only_dispatch [notify_rules]: "notify_only (dispatchSync ev)"
  by (auto simp: dispatchSync_def targets_ListByMaint_store_def fillEvent_def fill_owner_def resolveMentions_def
      GetMaintMentions_def deliver_def recordRoot_def Let_def intro!: notify_rules)

lemma notify_only_events [notify_rules]:
  "notify_only (NotifyMaintLifecycle k m)" "notify_only (NotifyStepLifecycle k m s)" "notify_only (NotifyMaintReminder m)"
  by (auto simp: NotifyMaintLifecycle_def NotifyStepLifecycle_def NotifyMaintReminder_def intro!: notify_rules)

lemma notify_onlyD: "notify_only m \<Longrightarrow> m w = (r, w') \<Longrightarrow> notify_frame w w'"
  unfolding notify_only_def keeps_def by (metis notify_frame_def snd_conv)

section \<open>What dispatch sends\<close>

definition delivery_of :: "event_kind \<Rightarrow> (string \<rightharpoonup> notify_message) \<Rightarrow> notify_target \<Rightarrow> delivery" where
  "delivery_of k messages t = \<lparr>dl_transport = nt_transport t, dl_address = nt_transport_channel_id t,
     dl_message = message_for messages t, dl_reply_to = replyTo (empty_event\<lparr>ne_kind := k\<rparr>) t\<rparr>"

lemma replyTo_kind: "replyTo ev t = replyTo (empty_event\<lparr>ne_kind := ne_kind ev\<rparr>) t"
  by (simp add: replyTo_def)

lemma render_from:
  assumes "renderPerTransport rend ev ts messages = Inr m'" "\<forall>tr m. messages tr = Some m \<longrightarrow> rend tr ev = Inr m"
  shows "(\<forall>tr m. m' tr = Some m \<longrightarrow> rend tr ev = Inr m) \<and> (\<forall>t \<in> set ts. m' (nt_transport t) \<noteq> None)
    \<and> (\<forall>tr. messages tr \<noteq> None \<longrightarrow> m' tr \<noteq> None)"
  using assms
proof (induction ts arbitrary: messages)
  case (Cons t ts)
  show ?case
  proof (cases "messages (nt_transport t)")
    case None
    then obtain msg where msg: "rend (nt_transport t) ev = Inr msg"
        "renderPerTransport rend ev ts (messages(nt_transport t \<mapsto> msg)) = Inr m'"
      using Cons.prems(1) by (auto split: sum.splits)
    have "\<forall>tr m. (messages(nt_transport t \<mapsto> msg)) tr = Some m \<longrightarrow> rend tr ev = Inr m"
      using msg(1) Cons.prems(2) by simp
    from Cons.IH [OF msg(2) this] show ?thesis by (metis fun_upd_apply option.distinct(1) set_ConsD)
  next
    case (Some m)
    with Cons.prems(1) have "renderPerTransport rend ev ts messages = Inr m'" by simp
    from Cons.IH [OF this Cons.prems(2)] Some show ?thesis by (metis option.distinct(1) set_ConsD)
  qed
qed simp

lemma SetRootRef_sent: "w_sent (snd (best_effort (SetRootRef mid c s ch) w)) = w_sent w"
  using db_onlyD [OF targets_db_only(5)] by (metis best_effort_def prod.collapse same_frame_def snd_conv)

lemma recordRoot_result: "\<exists>w'. recordRoot ev t res w = (Inr (), w') \<and> w_sent w' = w_sent w \<and> notify_frame w w'"
proof -
  have n: "notify_only (recordRoot ev t res)" by (auto simp: recordRoot_def intro!: notify_rules)
  have "fst (recordRoot ev t res w) = Inr () \<and> w_sent (snd (recordRoot ev t res w)) = w_sent w"
    by (auto simp: recordRoot_def SetRootRef_sent split: option.split)
      (simp_all add: ret_def best_effort_def)
  with notify_onlyD [OF n] show ?thesis by (metis prod.collapse)
qed

lemma deliver_result:
  "\<exists>w' us. deliver ev messages t w = (Inr (), w') \<and> subseq us [t]
     \<and> w_sent w' = w_sent w @ map (delivery_of (ne_kind ev) messages) us \<and> (w_tx w \<noteq> None \<longrightarrow> us = []) \<and> w_tx w' = w_tx w"
proof -
  obtain r w1 where s: "Send (nt_transport t) (nt_transport_channel_id t) (message_for messages t) (replyTo ev t) w = (r, w1)"
    by fastforce
  show ?thesis
  proof (cases r)
    case (Inl e)
    with s have "deliver ev messages t w = (Inr (), w1)" "w_sent w1 = w_sent w" "w_tx w1 = w_tx w"
      by (auto simp: deliver_def op_defs Send_def split: option.splits sum.splits)
    then show ?thesis by (intro exI [of _ w1] exI [of _ "[]"]) simp
  next
    case (Inr res)
    then have w1: "w_tx w = None" "w_tx w1 = None" "w_sent w1 = w_sent w @ [delivery_of (ne_kind ev) messages t]"
      using s by (auto simp: Send_def delivery_of_def replyTo_kind [of ev] split: option.splits sum.splits)
    obtain w2 where "recordRoot ev t res w1 = (Inr (), w2)" "w_sent w2 = w_sent w1" "notify_frame w1 w2"
      using recordRoot_result by blast
    with s Inr w1 show ?thesis
      by (intro exI [of _ w2] exI [of _ "[t]"]) (simp add: deliver_def op_defs notify_frame_def)
  qed
qed

lemma deliver_all:
  "\<exists>w' us. for_each ts (deliver ev messages) w = (Inr (), w') \<and> subseq us ts
     \<and> w_sent w' = w_sent w @ map (delivery_of (ne_kind ev) messages) us \<and> (w_tx w \<noteq> None \<longrightarrow> us = [])"
proof (induction ts arbitrary: w)
  case Nil
  then show ?case by (intro exI [of _ w] exI [of _ "[]"]) (simp add: ret_def)
next
  case (Cons t ts)
  obtain w1 us1 where 1: "deliver ev messages t w = (Inr (), w1)" "subseq us1 [t]"
      "w_sent w1 = w_sent w @ map (delivery_of (ne_kind ev) messages) us1" "w_tx w \<noteq> None \<longrightarrow> us1 = []" "w_tx w1 = w_tx w"
    using deliver_result by blast
  obtain w2 us2 where 2: "for_each ts (deliver ev messages) w1 = (Inr (), w2)" "subseq us2 ts"
      "w_sent w2 = w_sent w1 @ map (delivery_of (ne_kind ev) messages) us2" "w_tx w1 \<noteq> None \<longrightarrow> us2 = []"
    using Cons.IH by blast
  have "subseq (us1 @ us2) (t # ts)" using 1(2) 2(2) list_emb_append_mono [of "(=)" us1 "[t]" us2 ts] by simp
  with 1 2 show ?case
    by (intro exI [of _ w2] exI [of _ "us1 @ us2"]) (auto simp: osequel_def obind_def)
qed

text \<open>Everything before the send loop: it sends nothing and fixes the event's kind.\<close>

definition prepare :: "notify_event \<Rightarrow> notify_event op" where
  "prepare ev = obind (fillEvent ev) (\<lambda>ev1. obind (fill_owner ev1) (\<lambda>ev2.
     obind (resolveMentions ev2) (\<lambda>ms. ret (ev2\<lparr>ne_mentions := ms\<rparr>))))"

lemma obind_assoc: "obind (obind m f) g = obind m (\<lambda>x. obind (f x) g)"
  by (simp add: obind_def fun_eq_iff split: prod.split sum.split)

lemma obind_ret [simp]: "obind (ret x) g = g x"
  by (simp add: obind_def ret_def fun_eq_iff)

lemma dispatchSync_prepare:
  "dispatchSync ev = obind (targets_ListByMaint_store (ne_maint_id ev)) (\<lambda>ts. if ts = [] then ret () else
     obind (prepare ev) (\<lambda>ev3. obind (render_messages ev3 ts) (\<lambda>messages. for_each ts (deliver ev3 messages))))"
  unfolding dispatchSync_def prepare_def obind_assoc obind_ret Let_def by (rule refl)

lemma prepare_db_only: "db_only (prepare ev)"
  by (auto simp: prepare_def fillEvent_def fill_owner_def resolveMentions_def Let_def intro!: db_only_rules)

lemma prepare_kind: "post (prepare ev) (\<lambda>ev3 _. ne_kind ev3 = ne_kind ev \<and> ne_maint_id ev3 = ne_maint_id ev) (\<lambda>_ _. True) w"
proof -
  have "post (resolveMentions ev2) (\<lambda>ms w'. ne_kind (ev2\<lparr>ne_mentions := ms\<rparr>) = ne_kind ev \<and>
      ne_maint_id (ev2\<lparr>ne_mentions := ms\<rparr>) = ne_maint_id ev) (\<lambda>_ _. True) w'"
    if "ne_kind ev2 = ne_kind ev" "ne_maint_id ev2 = ne_maint_id ev" for ev2 w'
    using that by (simp add: post_def split: prod.split sum.split)
  then show ?thesis by (simp add: prepare_def fillEvent_def fill_owner_def split: if_split)
qed

text \<open>One run of dispatch: what the tables held, what was rendered, which targets were reached.\<close>

lemma dispatch_run:
  assumes "dispatchSync ev w = (r, w')"
  obtains (nothing) "w_sent w' = w_sent w"
  | (sent) ev3 messages us where "r = Inr ()" "ne_kind ev3 = ne_kind ev"
      "renderPerTransport (render (w_env w)) ev3 (joined_targets (w_db w) (ne_maint_id ev)) Map.empty = Inr messages"
      "subseq us (joined_targets (w_db w) (ne_maint_id ev))"
      "w_sent w' = w_sent w @ map (delivery_of (ne_kind ev) messages) us" "w_tx w \<noteq> None \<longrightarrow> us = []"
proof -
  let ?ts = "joined_targets (w_db w) (ne_maint_id ev)"
  show thesis
  proof (cases "fault (w_env w) (w_tick w) = None \<and> ?ts \<noteq> []")
    case False
    with assms have "w_sent w' = w_sent w"
      by (auto simp: dispatchSync_def targets_ListByMaint_store_def obind_def db_query_def db_call_def
          ret_def split: option.splits)
    then show thesis by (rule nothing)
  next
    case True
    then have d: "obind (prepare ev) (\<lambda>ev3. obind (render_messages ev3 ?ts) (\<lambda>messages. for_each ?ts (deliver ev3 messages)))
        (tick w) = (r, w')"
      using assms by (simp add: dispatchSync_prepare targets_ListByMaint_store_def obind_def db_query_def db_call_def)
    obtain p w1 where p: "prepare ev (tick w) = (p, w1)" by fastforce
    then have fr: "same_frame (tick w) w1" by (rule db_onlyD [OF prepare_db_only])
    then have f1: "w_sent w1 = w_sent w" "w_env w1 = w_env w" "w_tx w1 = w_tx w" by (simp_all add: same_frame_def)
    show thesis
    proof (cases p)
      case (Inl e)
      with d p f1 have "w_sent w' = w_sent w" by (simp add: obind_def)
      then show thesis by (rule nothing)
    next
      case (Inr ev3)
      have k: "ne_kind ev3 = ne_kind ev" using post_InrD [OF prepare_kind] p Inr by blast
      show thesis
      proof (cases "renderPerTransport (render (w_env w)) ev3 ?ts Map.empty")
        case (Inl e)
        with d p f1 \<open>p = Inr ev3\<close> have "w_sent w' = w_sent w" by (simp add: obind_def render_messages_def)
        then show thesis by (rule nothing)
      next
        case m: (Inr messages)
        with d p Inr f1 have "for_each ?ts (deliver ev3 messages) w1 = (r, w')"
          by (simp add: obind_def render_messages_def)
        moreover obtain w2 us where "for_each ?ts (deliver ev3 messages) w1 = (Inr (), w2)" "subseq us ?ts"
            "w_sent w2 = w_sent w1 @ map (delivery_of (ne_kind ev3) messages) us" "w_tx w1 \<noteq> None \<longrightarrow> us = []"
          using deliver_all by blast
        ultimately show thesis using k f1 m by (intro sent [of ev3 messages us]) simp_all
      qed
    qed
  qed
qed

section \<open>Sample data\<close>

definition notify_db :: db where
  "notify_db = empty_db\<lparr>d_maints := [sample_row 1 StatusInProgress ScopeGlobal (NewPeriod 0 10)],
     d_channels := [\<lparr>chn_id = 9, chn_transport = ''slack'', chn_address = ''#ops'', chn_name = ''ops''\<rparr>],
     d_targets := [\<lparr>tg_id = 3, tg_maint_id = 1, tg_channel_id = 9, tg_created_at = 0,
        tg_root_message_id = Some ''7'', tg_root_channel = Some ''#ops''\<rparr>]\<rparr>"

definition completed_event :: notify_event where
  "completed_event = empty_event\<lparr>ne_kind := EventMaintCompleted, ne_maint_id := 1\<rparr>"

lemmas notify_sample_defs = notify_db_def completed_event_def sample_defs NewPeriod_def empty_event_def

lemma joined_notify_db: "joined_targets (w_db (quiet_world notify_db)) 1 = [\<lparr>nt_id = 3, nt_maint_id = 1, nt_channel_id = 9,
    nt_created_at = 0, nt_transport = ''slack'', nt_transport_channel_id = ''#ops'', nt_channel_name = ''ops'',
    nt_root_ref = Some \<lparr>mr_message_id = ''7''\<rparr>, nt_root_channel = ''#ops''\<rparr>]"
  by (simp add: joined_targets_def target_rows_def list_row_def target_fromDB_def rootRefFromDB_def notify_sample_defs)

section \<open>Properties\<close>

text \<open>Dispatch never reports an error once it has delivered anything, so a retried task cannot deliver
  twice: on an error, and whenever one of the targets' transports cannot render the event, nothing was sent.
  Inside a transaction nothing is sent either.\<close>

theorem dispatch_error_sends_nothing:
  assumes "dispatchSync ev w = (r, w')"
  shows "(isl r \<longrightarrow> w_sent w' = w_sent w)
    \<and> ((\<exists>t \<in> set (joined_targets (w_db w) (ne_maint_id ev)). \<forall>ev'. isl (render (w_env w) (nt_transport t) ev'))
        \<longrightarrow> w_sent w' = w_sent w)
    \<and> (w_tx w \<noteq> None \<longrightarrow> w_sent w' = w_sent w)"
  using assms
proof (cases rule: dispatch_run)
  case nothing
  then show ?thesis by simp
next
  case (sent ev3 messages us)
  have "\<exists>m. render (w_env w) (nt_transport t) ev3 = Inr m" if "t \<in> set (joined_targets (w_db w) (ne_maint_id ev))" for t
    using render_from [OF sent(3)] that by (metis option.distinct(1) option.exhaust)
  with sent show ?thesis by (metis (no_types, lifting) append_Nil2 isl_def list.simps(8) sum.distinct(1))
qed

theorem dispatch_error_sends_nothing_witness:
  "let w = (quiet_world notify_db)\<lparr>w_tx := Some notify_db\<rparr> in w_sent (snd (dispatchSync completed_event w)) = []"
  using dispatch_error_sends_nothing [of completed_event "(quiet_world notify_db)\<lparr>w_tx := Some notify_db\<rparr>"
      "fst (dispatchSync completed_event ((quiet_world notify_db)\<lparr>w_tx := Some notify_db\<rparr>))"
      "snd (dispatchSync completed_event ((quiet_world notify_db)\<lparr>w_tx := Some notify_db\<rparr>))"]
  by (simp add: quiet_world_def)



text \<open>A reminder task notifies only while its maintenance is planned: for a maintenance in any other status,
  or one that is gone, the worker sends nothing, and for one that is gone it does not ask for a retry.\<close>

theorem reminder_only_when_planned:
  assumes "reminder_ProcessTask mid did w = (r, w')"
    and "\<forall>row. find_maint (w_db w) mid = Some row \<longrightarrow> mt_status row \<noteq> StatusPlanned"
  shows "w_sent w' = w_sent w \<and> w_db w' = w_db w \<and> (fault (w_env w) (w_tick w) = None \<longrightarrow> r = Inr ())"
proof (cases "fault (w_env w) (w_tick w)")
  case (Some e)
  with assms(1) show ?thesis
    by (simp add: reminder_ProcessTask_def GetMaint_store_def getMaint_def op_defs db_query_def db_call_def split: if_splits)
      auto
next
  case None
  show ?thesis
  proof (cases "find_maint (w_db w) mid")
    case none: None
    with assms(1) \<open>fault _ _ = None\<close> show ?thesis
      by (auto simp: reminder_ProcessTask_def GetMaint_store_def getMaint_def op_defs db_query_def db_call_def)
  next
    case (Some row)
    with assms \<open>fault _ _ = None\<close> show ?thesis
      by (auto simp: reminder_ProcessTask_def GetMaint_store_def getMaint_def op_defs db_query_def db_call_def shouldRemind_def)
  qed
qed

theorem reminder_only_when_planned_witness:
  "w_sent (snd (reminder_ProcessTask 1 2 (quiet_world notify_db))) = []
   \<and> fst (reminder_ProcessTask 1 2 (quiet_world notify_db)) = Inr ()"
  using reminder_only_when_planned [of 1 2 "quiet_world notify_db" "fst (reminder_ProcessTask 1 2 (quiet_world notify_db))"
      "snd (reminder_ProcessTask 1 2 (quiet_world notify_db))"]
  by (simp add: notify_sample_defs find_maint_def)

end
