(* ===== verification/MaintService.thy ===== *)
theory MaintService
  imports MaintValidate Conflicts NotifyTargets Deferred Notify
begin

text \<open>
  The maintenance service, \<open>internal/services/maint\<close>: drafts and their edits, approval
  behind the conflict gate, the lifecycle of a maintenance and of its steps, the sweep of
  overdue maintenances and the reads. Every mutation reads the row under a lock, applies
  a guard and a change, writes the row back in one transaction, and only then notifies
  and audits.
\<close>

section \<open>Mappers\<close>

definition stepsFromCmd :: "step_input list \<Rightarrow> step_status \<Rightarrow> maint_step list" where
  "stepsFromCmd inputs st = map (\<lambda>i. \<lparr>s_id = nil_uuid, s_order = si_order i, s_description = si_description i,
     s_rollback = si_rollback i, s_duration_minutes = si_duration_minutes i, s_status = st,
     s_actual_started_at = None, s_actual_completed_at = None, s_created_at = zero_time, s_updated_at = None\<rparr>) inputs"

definition deferredNotificationsFromCmd :: "uuid \<Rightarrow> time list \<Rightarrow> deferred_notification list" where
  "deferredNotificationsFromCmd mid inputs = map (\<lambda>t. \<lparr>dn_id = nil_uuid, dn_maint_id = mid, dn_fire_at = t,
     dn_goque_task_id = None\<rparr>) inputs"

definition total_duration :: "maint_step list \<Rightarrow> duration" where
  "total_duration steps = foldl (\<lambda>acc s. i64 (acc + i64 (s_duration_minutes s * minute))) 0 steps"

definition recalculatePlannedPeriod :: "time \<Rightarrow> maint_step list \<Rightarrow> period" where
  "recalculatePlannedPeriod start steps = (let total = total_duration steps in
     if total = 0 then NewOpenEndedPeriod start else NewPeriod start (start + total))"

section \<open>Audit\<close>

text \<open>A failed enqueue of the audit action is logged and dropped.\<close>

definition publishAudit :: "audit_action \<Rightarrow> unit op" where
  "publishAudit a w = (case fault (w_env w) (w_tick w) of Some _ \<Rightarrow> (Inr (), tick w)
     | None \<Rightarrow> (Inr (), (tick w)\<lparr>w_audit := w_audit w @ [a]\<rparr>))"

section \<open>Create\<close>

definition draft_of :: "create_cmd \<Rightarrow> maintenance" where
  "draft_of cmd = \<lparr>m_id = nil_uuid, m_title = cc_title cmd, m_description = cc_description cmd,
     m_planned = cc_planned cmd, m_actual = None, m_resources = [], m_scope = cc_scope cmd,
     m_impact = cc_impact cmd, m_status = StatusDraft, m_cancel_reason = ReasonUnset, m_cancel_comment = [],
     m_created_by = cc_created_by cmd, m_created_at = zero_time, m_updated_at = None, m_steps = [],
     m_notify_targets = [], m_deferred = [], m_mentions = [], m_approver = cc_approver cmd,
     m_task_url = cc_task_url cmd\<rparr>"

definition create_tx :: "create_cmd \<Rightarrow> maintenance op" where
  "create_tx cmd = obind (CreateMaint (draft_of cmd)) (\<lambda>m0.
     let m = Normalize (m0\<lparr>m_resources := cc_resources cmd\<rparr>) in
     osequel (if m_resources m \<noteq> [] then AddResources (m_id m) (m_resources m) else ret ())
     (obind (AddSteps (m_id m) (stepsFromCmd (cc_steps cmd) StepPlanned)) (\<lambda>steps.
      obind (targets_Create (m_id m) (cc_notify_targets cmd)) (\<lambda>ts.
      obind (deferred_Create (m_id m) (deferredNotificationsFromCmd (m_id m) (cc_deferred cmd))) (\<lambda>ds.
      osequel (AddMentions (m_id m) (uniq (cc_mentions cmd)))
      (ret (m\<lparr>m_steps := steps, m_notify_targets := ts, m_deferred := ds, m_mentions := uniq (cc_mentions cmd)\<rparr>)))))))"

definition CreateDraft :: "create_cmd \<Rightarrow> maintenance op" where
  "CreateDraft cmd = osequel (validateCreate cmd) (osequel (validateApprover (cc_approver cmd))
     (obind (WithinTx (create_tx cmd)) (\<lambda>m.
      osequel (publishAudit (AuditMaintCreated (cc_actor cmd) m)) (ret m))))"

section \<open>The transactional update\<close>

definition maintLifecycleEvent :: "maint_status \<Rightarrow> maint_status \<Rightarrow> event_kind option" where
  "maintLifecycleEvent from to =
     (if from = StatusPlanned \<and> to = StatusInProgress then Some EventMaintStarted
      else if from = StatusPlanned \<and> to = StatusCancelled then Some EventMaintCancelled
      else if from = StatusInProgress \<and> to = StatusCancelled then Some EventMaintCancelled
      else if from = StatusInProgress \<and> to = StatusCompleted then Some EventMaintCompleted
      else None)"

definition dispatchMaintLifecycle :: "maintenance \<Rightarrow> maintenance \<Rightarrow> unit op" where
  "dispatchMaintLifecycle prev current = (case maintLifecycleEvent (m_status prev) (m_status current) of
     None \<Rightarrow> ret ()
   | Some k \<Rightarrow> osequel (if k = EventMaintCancelled then best_effort (deferred_Cancel (m_id current)) else ret ())
       (NotifyMaintLifecycle k current))"

definition update_body :: "uuid \<Rightarrow> (maintenance \<Rightarrow> (maintenance \<times> 'x) op) \<Rightarrow> (maintenance \<times> maintenance \<times> 'x) op" where
  "update_body mid app = obind (GetMaintForUpdate mid) (\<lambda>m. obind (app m) (\<lambda>(m', x).
     obind (UpdateMaint_store m') (\<lambda>m''. ret (m, m'', x))))"

definition runUpdateWithApply :: "((maintenance \<times> maintenance \<times> 'x) op \<Rightarrow> (maintenance \<times> maintenance \<times> 'x) op)
    \<Rightarrow> uuid \<Rightarrow> (maintenance \<Rightarrow> (maintenance \<times> 'x) op) \<Rightarrow> (maintenance \<times> maintenance \<times> 'x) op" where
  "runUpdateWithApply withinTx mid app = obind (withinTx (update_body mid app)) (\<lambda>(prev, current, x).
     osequel (dispatchMaintLifecycle prev current) (ret (prev, current, x)))"

definition updateWithApply :: "uuid \<Rightarrow> (maintenance \<Rightarrow> (maintenance \<times> 'x) op) \<Rightarrow> (maintenance \<times> maintenance \<times> 'x) op" where
  "updateWithApply mid app = runUpdateWithApply WithinTx mid app"

definition updateWithApplySerializable :: "uuid \<Rightarrow> (maintenance \<Rightarrow> (maintenance \<times> 'x) op) \<Rightarrow> (maintenance \<times> maintenance \<times> 'x) op" where
  "updateWithApplySerializable mid app = runUpdateWithApply WithinSerializableTx mid app"

section \<open>Edit\<close>

definition set_opt :: "('a \<Rightarrow> 'm \<Rightarrow> 'm) \<Rightarrow> 'a option \<Rightarrow> 'm \<Rightarrow> 'm" where
  "set_opt f x m = (case x of None \<Rightarrow> m | Some v \<Rightarrow> f v m)"

text \<open>\<open>None\<close> is the panic of \<open>Duration\<close> on a period without an end.\<close>

definition move_start :: "time option \<Rightarrow> maintenance \<Rightarrow> maintenance option" where
  "move_start start m = (case start of None \<Rightarrow> Some m | Some s \<Rightarrow> (case Duration (m_planned m) of None \<Rightarrow> None
     | Some dur \<Rightarrow> Some (m\<lparr>m_planned := NewPeriod s (s + dur)\<rparr>)))"

definition apply_before_start :: "update_cmd \<Rightarrow> maintenance \<Rightarrow> maintenance" where
  "apply_before_start cmd m0 = (
     let m1 = set_opt (\<lambda>v m. m\<lparr>m_title := v\<rparr>) (uc_title cmd) m0;
         m2 = set_opt (\<lambda>v m. m\<lparr>m_description := v\<rparr>) (uc_description cmd) m1;
         m3 = set_opt (\<lambda>v m. m\<lparr>m_task_url := v\<rparr>) (uc_task_url cmd) m2
     in if uc_steps cmd \<noteq> [] then (let steps = stepsFromCmd (uc_steps cmd) StepPlanned in
          m3\<lparr>m_steps := steps, m_planned := recalculatePlannedPeriod (p_start (m_planned m3)) steps\<rparr>) else m3)"

definition apply_after_start :: "notify_target list \<Rightarrow> update_cmd \<Rightarrow> maintenance \<Rightarrow> maintenance" where
  "apply_after_start ts cmd m5 = (
     let m6 = set_opt (\<lambda>v m. m\<lparr>m_scope := v\<rparr>) (uc_scope cmd) m5;
         m7 = set_opt (\<lambda>v m. m\<lparr>m_impact := v\<rparr>) (uc_impact cmd) m6;
         m8 = set_opt (\<lambda>v m. m\<lparr>m_approver := v\<rparr>) (uc_approver cmd) m7;
         m9 = (if uc_resources cmd \<noteq> [] then m8\<lparr>m_resources := uc_resources cmd\<rparr> else m8);
         m10 = (if ts \<noteq> [] then m9\<lparr>m_notify_targets := ts\<rparr> else m9);
         m11 = set_opt (\<lambda>v m. m\<lparr>m_deferred := deferredNotificationsFromCmd (uc_maint_id cmd) v\<rparr>) (uc_deferred cmd) m10;
         m12 = set_opt (\<lambda>v m. m\<lparr>m_mentions := uniq v\<rparr>) (uc_mentions cmd) m11
     in Normalize m12)"

definition applyValuesFromUpdateCmd :: "maintenance \<Rightarrow> notify_target list \<Rightarrow> update_cmd \<Rightarrow> maintenance option" where
  "applyValuesFromUpdateCmd m ts cmd = map_option (apply_after_start ts cmd)
     (move_start (uc_planned_start cmd) (apply_before_start cmd m))"

definition replaceMentions :: "maintenance \<Rightarrow> unit op" where
  "replaceMentions m = osequel (DeleteMentions (m_id m)) (AddMentions (m_id m) (m_mentions m))"

definition replaceResources :: "maintenance \<Rightarrow> unit op" where
  "replaceResources m = osequel (DeleteResources (m_id m)) (AddResources (m_id m) (m_resources m))"

definition replaceSteps :: "maintenance \<Rightarrow> unit op" where
  "replaceSteps m = osequel (osequel (DeleteSteps (m_id m)) (AddSteps (m_id m) (m_steps m))) (ret ())"

definition replace_children :: "update_cmd \<Rightarrow> maintenance \<Rightarrow> unit op" where
  "replace_children cmd m =
     osequel (if uc_steps cmd \<noteq> [] then replaceSteps m else ret ())
     (osequel (if uc_resources cmd \<noteq> [] \<or> uc_scope cmd = Some ScopeGlobal then replaceResources m else ret ())
     (osequel (if uc_notify_targets cmd \<noteq> [] then targets_Replace (m_id m) (m_notify_targets m) else ret ())
     (osequel (if uc_deferred cmd \<noteq> None then deferred_Replace (m_id m) (m_deferred m) else ret ())
     (if uc_mentions cmd \<noteq> None then replaceMentions m else ret ()))))"

definition applyUpdate :: "notify_target list \<Rightarrow> update_cmd \<Rightarrow> maintenance \<Rightarrow> (maintenance \<times> unit) op" where
  "applyUpdate ts cmd m = (if m_status m \<noteq> StatusDraft
       then raise (ErrForbiddenMaintStatusTransition (m_status m) StatusDraft)
     else case applyValuesFromUpdateCmd m ts cmd of None \<Rightarrow> raise Panic
     | Some m' \<Rightarrow> osequel (replace_children cmd m') (ret (m', ())))"

definition period_string :: "(time \<Rightarrow> string) \<Rightarrow> period \<Rightarrow> string" where
  "period_string f p = f (p_start p) @ '' - '' @ (case p_end p of None \<Rightarrow> ''open ended'' | Some e \<Rightarrow> f e)"

definition add_scalar :: "string \<Rightarrow> string \<Rightarrow> string \<Rightarrow> audit_change list" where
  "add_scalar field old new = (if old \<noteq> new then [\<lparr>ch_field = field, ch_old = old, ch_new = new\<rparr>] else [])"

definition add_collection :: "string \<Rightarrow> bool \<Rightarrow> audit_change list" where
  "add_collection field supplied = (if supplied then [\<lparr>ch_field = field, ch_old = [], ch_new = []\<rparr>] else [])"

definition maintUpdateChanges :: "(time \<Rightarrow> string) \<Rightarrow> maintenance \<Rightarrow> maintenance \<Rightarrow> update_cmd \<Rightarrow> audit_change list" where
  "maintUpdateChanges f prev current cmd =
     add_scalar ''title'' (m_title prev) (m_title current)
     @ add_scalar ''description'' (m_description prev) (m_description current)
     @ add_scalar ''planned_period'' (period_string f (m_planned prev)) (period_string f (m_planned current))
     @ add_scalar ''scope'' (scope_string (m_scope prev)) (scope_string (m_scope current))
     @ add_scalar ''impact'' (impact_string (m_impact prev)) (impact_string (m_impact current))
     @ add_scalar ''approver'' (uuid_string (m_approver prev)) (uuid_string (m_approver current))
     @ add_scalar ''task_tracker_url'' (m_task_url prev) (m_task_url current)
     @ add_collection ''steps'' (uc_steps cmd \<noteq> [])
     @ add_collection ''resources'' (uc_resources cmd \<noteq> [] \<or> uc_scope cmd = Some ScopeGlobal)
     @ add_collection ''notify_targets'' (uc_notify_targets cmd \<noteq> [])
     @ add_collection ''deferred_notifications'' (uc_deferred cmd \<noteq> None)
     @ add_collection ''mentions'' (uc_mentions cmd \<noteq> None)"

definition UpdateMaint :: "update_cmd \<Rightarrow> unit op" where
  "UpdateMaint cmd = osequel (validateUpdate cmd)
     (osequel (case uc_approver cmd of None \<Rightarrow> ret () | Some a \<Rightarrow> validateApprover a)
     (obind (ResolveNotifyTarget (uc_maint_id cmd) (uc_notify_targets cmd)) (\<lambda>ts.
      obind (updateWithApply (uc_maint_id cmd) (applyUpdate ts cmd)) (\<lambda>(prev, current, _).
      obind (read_world (\<lambda>w. time_rfc3339 (w_env w))) (\<lambda>f.
      let changes = maintUpdateChanges f prev current cmd in
      if changes \<noteq> [] then publishAudit (AuditMaintUpdated (uc_actor cmd) current changes) else ret ())))))"

section \<open>Approve\<close>

definition loadResources :: "maintenance \<Rightarrow> maintenance op" where
  "loadResources m = obind (GetMaintResources [m_id m]) (\<lambda>res.
     ret (m\<lparr>m_resources := map rs_id (res (m_id m))\<rparr>))"

definition checkConflicts :: "maintenance \<Rightarrow> conflict_wr option list \<Rightarrow> unit op" where
  "checkConflicts m snapshot = obind (GetConflicts \<lparr>cq_maint_id = m_id m, cq_period = m_planned m,
       cq_scope = m_scope m, cq_resource_ids = m_resources m\<rparr>) (\<lambda>conflicts.
     obind (read_world (\<lambda>w. sha256_hex (w_env w))) (\<lambda>h.
     if ConflictFingerprintFor h snapshot (m_resources m) \<noteq> ConflictFingerprintFor h (map Some conflicts) (m_resources m)
     then raise ErrConflictsChangedSincePreview else ret ()))"

definition approve_apply :: "approve_cmd \<Rightarrow> user \<Rightarrow> maintenance \<Rightarrow> (maintenance \<times> unit) op" where
  "approve_apply cmd actor m =
     (if \<not> CanMaintTransition (m_status m) StatusPlanned
        then raise (ErrForbiddenMaintStatusTransition (m_status m) StatusPlanned)
      else if m_approver m \<noteq> ac_actor_user_id cmd \<and> \<not> IsActiveAdmin actor then raise ErrApproverMismatch
      else if Revision m \<noteq> ac_observed_revision cmd then raise ErrMaintChangedSincePreview
      else obind (loadResources m) (\<lambda>m1.
        osequel (checkConflicts m1 (ac_snapshot cmd))
        (osequel (SaveSnapshot (ac_maint_id cmd) (ac_snapshot cmd))
        (osequel (deferred_Schedule (ac_maint_id cmd)) (ret (m1\<lparr>m_status := StatusPlanned\<rparr>, ()))))))"

definition ApproveMaint :: "approve_cmd \<Rightarrow> unit op" where
  "ApproveMaint cmd = (case ac_actor cmd of None \<Rightarrow> raise ErrNilActor
   | Some actor \<Rightarrow> obind (ocatch (updateWithApplySerializable (ac_maint_id cmd) (approve_apply cmd actor))
         (\<lambda>e. if e = PgSerializationFailure then raise ErrConcurrentModification else raise e))
       (\<lambda>(_, current, _). publishAudit (AuditMaintApproved actor current)))"

section \<open>Lifecycle\<close>

definition start_apply :: "maintenance \<Rightarrow> (maintenance \<times> unit) op" where
  "start_apply m = (if \<not> CanMaintTransition (m_status m) StatusInProgress
       then raise (ErrForbiddenMaintStatusTransition (m_status m) StatusInProgress)
     else obind UTCNow (\<lambda>now. ret (m\<lparr>m_actual := Some (OwnPeriod (NewOpenEndedPeriod now)),
       m_status := StatusInProgress\<rparr>, ())))"

definition StartMaint :: "lifecycle_cmd \<Rightarrow> unit op" where
  "StartMaint cmd = obind (updateWithApply (lc_maint_id cmd) start_apply) (\<lambda>(_, current, _).
     publishAudit (AuditMaintStarted (lc_actor cmd) current))"

definition cancel_apply :: "cancel_cmd \<Rightarrow> (maintenance \<Rightarrow> unit op) \<Rightarrow> maintenance \<Rightarrow> (maintenance \<times> unit) op" where
  "cancel_apply cmd canMaintCancel m = (if m_status m = StatusCancelled then raise ErrSkipUpdate
     else osequel (canMaintCancel m) (obind UTCNow (\<lambda>now.
       ret ((CloseActualPeriod m now)\<lparr>m_status := StatusCancelled, m_cancel_reason := xc_reason cmd,
         m_cancel_comment := xc_comment cmd\<rparr>, ()))))"

definition skip_ok :: "unit op \<Rightarrow> unit op" where
  "skip_ok m = ocatch m (\<lambda>e. if e = ErrSkipUpdate then ret () else raise e)"

definition cancelMaint :: "cancel_cmd \<Rightarrow> (maintenance \<Rightarrow> unit op) \<Rightarrow> unit op" where
  "cancelMaint cmd canMaintCancel = skip_ok
     (obind (updateWithApply (xc_maint_id cmd) (cancel_apply cmd canMaintCancel)) (\<lambda>(_, current, _).
      publishAudit (AuditMaintCancelled (xc_actor cmd) current)))"

definition can_cancel :: "maintenance \<Rightarrow> unit op" where
  "can_cancel m = (if \<not> CanMaintTransition (m_status m) StatusCancelled
     then raise (ErrForbiddenMaintStatusTransition (m_status m) StatusCancelled) else ret ())"

definition CancelMaint :: "cancel_cmd \<Rightarrow> unit op" where
  "CancelMaint cmd = cancelMaint cmd can_cancel"

definition allStepsTerminal :: "maint_step list \<Rightarrow> bool" where
  "allStepsTerminal steps = list_all (\<lambda>s. StepIsTerminal (s_status s)) steps"

definition complete_apply :: "maintenance \<Rightarrow> (maintenance \<times> unit) op" where
  "complete_apply m = (if m_status m = StatusCompleted then raise ErrSkipUpdate
     else if \<not> CanMaintTransition (m_status m) StatusCompleted
       then raise (ErrForbiddenMaintStatusTransition (m_status m) StatusCompleted)
     else obind (GetMaintSteps (m_id m)) (\<lambda>steps.
       if \<not> allStepsTerminal steps then raise ErrMaintenanceHasUnfinishedSteps
       else obind UTCNow (\<lambda>now.
         let m1 = m\<lparr>m_actual := (case m_actual m of None \<Rightarrow> Some PlannedAlias | Some p \<Rightarrow> Some p)\<rparr> in
         ret ((CloseActualPeriod m1 now)\<lparr>m_status := StatusCompleted\<rparr>, ()))))"

definition CompleteMaint :: "lifecycle_cmd \<Rightarrow> unit op" where
  "CompleteMaint cmd = skip_ok (obind (updateWithApply (lc_maint_id cmd) complete_apply) (\<lambda>(_, current, _).
     publishAudit (AuditMaintCompleted (lc_actor cmd) current)))"

section \<open>The sweep\<close>

definition cancelUnStartedReasonComment :: string where
  "cancelUnStartedReasonComment =
     ''Automatically canceled: maintenance was not started within the grace period after its planned start''"

definition not_started :: "maintenance \<Rightarrow> unit op" where
  "not_started m = (if m_status m \<noteq> StatusDraft \<and> m_status m \<noteq> StatusPlanned then raise ErrSkipUpdate else ret ())"

definition sweep_cmd :: "maintenance \<Rightarrow> cancel_cmd" where
  "sweep_cmd m = \<lparr>xc_maint_id = m_id m, xc_reason = ReasonNotStarted, xc_comment = cancelUnStartedReasonComment,
     xc_actor = SystemUser\<rparr>"

fun sweep :: "maintenance list \<Rightarrow> apperr list op" where
  "sweep [] = ret []"
| "sweep (m # ms) = obind (ocatch (osequel (cancelMaint (sweep_cmd m) not_started) (ret [])) (\<lambda>e. ret [e])) (\<lambda>es.
     obind (sweep ms) (\<lambda>rest. ret (es @ rest)))"

definition CancelUnStarted :: "time \<Rightarrow> int \<Rightarrow> unit op" where
  "CancelUnStarted cutoff limit = obind (ListOverdueNotStarted cutoff limit) (\<lambda>overdue.
     if overdue = [] then ret () else obind (sweep overdue) (\<lambda>errs.
     if errs = [] then ret () else raise (ErrJoin errs)))"

definition autocancel_ProcessTask :: "duration \<Rightarrow> int \<Rightarrow> unit op" where
  "autocancel_ProcessTask threshold limit = obind UTCNow (\<lambda>now. CancelUnStarted (now + i64 (- threshold)) limit)"

section \<open>Steps\<close>

fun FindIndexOf :: "nat \<Rightarrow> ('a \<Rightarrow> bool) \<Rightarrow> 'a list \<Rightarrow> ('a \<times> nat) option" where
  "FindIndexOf i p [] = None"
| "FindIndexOf i p (x # xs) = (if p x then Some (x, i) else FindIndexOf (Suc i) p xs)"

definition canChangeStepStatusTo :: "maint_step list \<Rightarrow> uuid \<Rightarrow> step_status \<Rightarrow> apperr + maint_step" where
  "canChangeStepStatusTo steps sid new = (let sorted = sort_func (\<lambda>a b. ord_cmp (s_order a) (s_order b)) steps in
     case FindIndexOf 0 (\<lambda>s. s_id s = sid) sorted of None \<Rightarrow> Inl ErrStepNotFound
     | Some (step, i) \<Rightarrow>
         if i > 0 \<and> \<not> StepIsTerminal (s_status (sorted ! (i - 1))) then Inl ErrStepOrderViolation
         else if \<not> CanMainStepTransition (s_status step) new
           then Inl (ErrForbiddenStepStatusTransition (s_status step) new)
         else Inr step)"

definition lift_sum :: "apperr + 'a \<Rightarrow> 'a op" where
  "lift_sum r w = (r, w)"

definition dispatchStepLifecycle :: "maintenance \<Rightarrow> maint_step \<Rightarrow> unit op" where
  "dispatchStepLifecycle m s =
     (if m_status m = StatusInProgress \<and> s_status s = StepStarted then NotifyStepLifecycle EventStepStarted m s
      else if m_status m = StatusInProgress \<and> s_status s = StepCompleted then NotifyStepLifecycle EventStepCompleted m s
      else if m_status m = StatusInProgress \<and> s_status s = StepCanceled then NotifyStepLifecycle EventStepCancelled m s
      else ret ())"

definition step_apply :: "uuid \<Rightarrow> (maint_step list \<Rightarrow> maint_step list op) \<Rightarrow> maintenance \<Rightarrow> (maintenance \<times> maint_step list) op" where
  "step_apply mid applyF m = (if m_status m \<noteq> StatusInProgress then raise ErrMaintNotInProgress
     else obind (GetMaintStepsForUpdate mid) (\<lambda>steps. obind (applyF steps) (\<lambda>upd.
       obind (map_each upd (UpdateStep mid)) (\<lambda>upd'. ret (m, upd')))))"

definition updateStepWithApply :: "uuid \<Rightarrow> (maint_step list \<Rightarrow> maint_step list op) \<Rightarrow> (maintenance \<times> maint_step list) op" where
  "updateStepWithApply mid applyF = obind (updateWithApply mid (step_apply mid applyF)) (\<lambda>(_, current, steps).
     osequel (for_each steps (dispatchStepLifecycle current)) (ret (current, steps)))"

definition start_step :: "uuid \<Rightarrow> maint_step list \<Rightarrow> maint_step list op" where
  "start_step sid steps = obind (lift_sum (canChangeStepStatusTo steps sid StepStarted)) (\<lambda>s.
     obind UTCNow (\<lambda>now. ret [s\<lparr>s_actual_started_at := Some now, s_status := StepStarted\<rparr>]))"

definition finish_step :: "step_status \<Rightarrow> uuid \<Rightarrow> maint_step list \<Rightarrow> maint_step list op" where
  "finish_step new sid steps = obind (lift_sum (canChangeStepStatusTo steps sid new)) (\<lambda>s.
     obind UTCNow (\<lambda>now. ret [s\<lparr>s_actual_completed_at := Some now, s_status := new\<rparr>]))"

definition StartStep :: "step_cmd \<Rightarrow> unit op" where
  "StartStep cmd = obind (updateStepWithApply (sc_maint_id cmd) (start_step (sc_step_id cmd))) (\<lambda>(m, curr).
     for_each curr (\<lambda>s. publishAudit (AuditStepStarted (sc_actor cmd) m s)))"

definition CompleteStep :: "step_cmd \<Rightarrow> unit op" where
  "CompleteStep cmd = obind (updateStepWithApply (sc_maint_id cmd) (finish_step StepCompleted (sc_step_id cmd))) (\<lambda>(m, curr).
     for_each curr (\<lambda>s. publishAudit (AuditStepCompleted (sc_actor cmd) m s)))"

definition CancelStep :: "step_cmd \<Rightarrow> unit op" where
  "CancelStep cmd = obind (updateStepWithApply (sc_maint_id cmd) (finish_step StepCanceled (sc_step_id cmd))) (\<lambda>(m, curr).
     for_each curr (\<lambda>s. publishAudit (AuditStepCancelled (sc_actor cmd) m s)))"

section \<open>Read\<close>

definition GetMaint :: "uuid \<Rightarrow> maintenance op" where
  "GetMaint mid = obind (GetMaint_store mid) (\<lambda>m. obind (GetMaintResources [m_id m]) (\<lambda>res.
     obind (GetMaintSteps mid) (\<lambda>steps. obind (targets_ListByMaint mid) (\<lambda>ts.
     obind (deferred_ListByMaint mid) (\<lambda>ds. obind (GetMaintMentions mid) (\<lambda>ms.
     ret (m\<lparr>m_resources := map rs_id (res (m_id m)), m_steps := steps, m_notify_targets := ts,
       m_deferred := ds, m_mentions := ms\<rparr>)))))))"

end
