(* ===== verification/MaintFrame.thy ===== *)
theory MaintFrame
  imports MaintService
begin

text \<open>
  The shape of every mutation of the maintenance service: it fails and leaves the tables,
  the audit trail and the deliveries alone, or it replaces one row by what the guarded
  change produced; afterwards it may only record thread roots, cancel queued tasks, send
  and audit. The rule \<open>runUpdate_cases\<close> carries the invariants of the next theories.
\<close>

section \<open>After the commit\<close>

text \<open>What the post-commit work may touch of the tables: thread roots and the queue.\<close>

definition core :: "db \<Rightarrow> db" where
  "core d = d\<lparr>d_targets := [], d_tasks := []\<rparr>"

definition post_frame :: "world \<Rightarrow> world \<Rightarrow> bool" where
  "post_frame w w' \<longleftrightarrow> w_env w' = w_env w \<and> w_tx w' = w_tx w \<and> core (w_db w') = core (w_db w)"

definition post_only :: "'a op \<Rightarrow> bool" where
  "post_only m \<longleftrightarrow> (\<forall>w0. keeps (post_frame w0) m)"

lemma post_frame_refl [simp]: "post_frame w w"
  by (simp add: post_frame_def)

lemma post_frame_trans: "post_frame a b \<Longrightarrow> post_frame b c \<Longrightarrow> post_frame a c"
  by (simp add: post_frame_def)

lemma post_onlyD: "post_only m \<Longrightarrow> m w = (r, w') \<Longrightarrow> post_frame w w'"
  unfolding post_only_def keeps_def by (metis post_frame_refl snd_conv)

lemma notify_post_frame: "notify_frame w w' \<Longrightarrow> post_frame w w'"
  by (cases "w_db w"; cases "w_db w'") (auto simp: notify_frame_def post_frame_def core_def)

named_theorems post_rules \<open>operations that are safe after the commit\<close>

lemma post_only_ops [post_rules]:
  "post_only (ret a)" "post_only (raise e)" "post_only (read_world f)"
  "post_only m \<Longrightarrow> (\<And>x. post_only (g x)) \<Longrightarrow> post_only (obind m g)"
  "post_only m \<Longrightarrow> post_only k2 \<Longrightarrow> post_only (osequel m k2)"
  "post_only m \<Longrightarrow> post_only (best_effort m)"
  "post_only m \<Longrightarrow> post_only k \<Longrightarrow> post_only (if b then m else k)"
  "(\<And>x. post_only (g' x)) \<Longrightarrow> post_only (for_each xs g')"
  for m k :: "'b op"
  unfolding post_only_def by (auto intro!: keep_rules)

lemma post_only_notify: "notify_only m \<Longrightarrow> post_only m"
  unfolding post_only_def keeps_def notify_only_def
  by (metis notify_frame_def notify_post_frame post_frame_trans)

lemma post_only_db:
  "db_only m \<Longrightarrow> (\<And>w. core (w_db (snd (m w))) = core (w_db w)) \<Longrightarrow> post_only m"
  by (auto simp: post_only_def keeps_def post_frame_def db_only_def same_frame_def)

lemma post_only_query: "post_only (db_query q)"
  by (rule post_only_db) (simp_all add: db_only_rules db_query_same_db)

lemma post_only_scheduler: "post_only (scheduler_Cancel t)"
  by (rule post_only_db) (auto simp: db_only_rules scheduler_Cancel_def db_call_def core_def split: option.split sum.split)

lemma post_only_cancel [post_rules]: "post_only (deferred_Cancel mid)"
  by (auto simp: deferred_Cancel_def cancelEnqueued_def deferred_ListByMaint_store_def
      intro!: post_rules post_only_query post_only_scheduler)

lemma post_only_lifecycle [post_rules]:
  "post_only (dispatchMaintLifecycle p c)" "post_only (dispatchStepLifecycle m s)"
  by (auto simp: dispatchMaintLifecycle_def dispatchStepLifecycle_def split: option.split
      intro!: post_rules post_only_notify [OF notify_only_events(1)] post_only_notify [OF notify_only_events(2)])

lemma post_only_audit [post_rules]: "post_only (publishAudit a)"
  by (auto simp: post_only_def keeps_def post_frame_def publishAudit_def split: option.split)

lemma publishAudit_result: "\<exists>w'. publishAudit a w = (Inr (), w') \<and> w_db w' = w_db w \<and> w_sent w' = w_sent w
    \<and> (w_audit w' = w_audit w \<or> w_audit w' = w_audit w @ [a])"
  by (simp add: publishAudit_def split: option.split)

lemma lifecycle_returns: "\<exists>w'. dispatchMaintLifecycle p c w = (Inr (), w')"
  by (auto simp: dispatchMaintLifecycle_def NotifyMaintLifecycle_def osequel_def obind_def best_effort_def ret_def
      split: option.split)

lemma lifecycle_audit: "w_audit (snd (dispatchMaintLifecycle p c w)) = w_audit w"
proof -
  have n: "w_audit (snd (NotifyMaintLifecycle k c v)) = w_audit v" for k v
    using notify_onlyD [OF notify_only_events(1)] by (metis notify_frame_def prod.collapse)
  have d: "w_audit (snd (best_effort (deferred_Cancel mid) v)) = w_audit v" for mid v
    using db_onlyD [OF deferred_db_only(10)] by (metis best_effort_def prod.collapse same_frame_def snd_conv)
  show ?thesis
    by (auto simp: dispatchMaintLifecycle_def osequel_def obind_def n ret_def split: option.split)
      (simp add: best_effort_def d [unfolded best_effort_def, simplified] n)
qed

section \<open>One guarded update\<close>

text \<open>The row an update writes back, as the columns keep it.\<close>

definition written :: "env \<Rightarrow> time \<Rightarrow> maintenance \<Rightarrow> maint_row" where
  "written e now m = pg_maint_row e (toDBMaintenance (m\<lparr>m_updated_at := Some now\<rparr>))"

lemma written_fields [simp]:
  "mt_id (written e now m) = m_id m" "mt_status (written e now m) = m_status m"
  "mt_scope (written e now m) = m_scope m" "mt_planned (written e now m) = pg_period e (m_planned m)"
  "mt_actual (written e now m) = map_option (pg_period e) (deref_actual m)"
  by (simp_all add: written_def deref_actual_def cong: option.case_cong period_ptr.case_cong)

text \<open>What a committed update did.\<close>

definition updated_by :: "uuid \<Rightarrow> (maintenance \<Rightarrow> (maintenance \<times> 'x) op) \<Rightarrow> world \<Rightarrow> maintenance \<Rightarrow> maintenance \<Rightarrow> 'x \<Rightarrow> db \<Rightarrow> bool" where
  "updated_by mid app w prev current x d' \<longleftrightarrow> (\<exists>row w2 w3 m' now.
     find_maint (w_db w) mid = Some row \<and> prev = fromDBMaintenance row
     \<and> w_db w2 = w_db w \<and> w_env w2 = w_env w \<and> w_tx w2 = Some (w_db w)
     \<and> app prev w2 = (Inr (m', x), w3) \<and> current = m'\<lparr>m_updated_at := Some now\<rparr>
     \<and> (if has_maint (w_db w3) (m_id m') then row_ok (written (w_env w) now m')
          \<and> d' = update_row (written (w_env w) now m') (w_db w3)
        else d' = w_db w3))"

lemma update_body_committed:
  assumes "update_body mid app w1 = (Inr (prev, current, x), w2)" "w_db w1 = w_db w" "w_env w1 = w_env w"
    and "w_tx w1 = Some (w_db w)" "\<And>m. db_only (app m)"
  shows "updated_by mid app w prev current x (w_db w2)"
proof -
  from assms(1) obtain row where row: "find_maint (w_db w) mid = Some row" "prev = fromDBMaintenance row"
      and body: "obind (app prev) (\<lambda>(m', x). obind (UpdateMaint_store m') (\<lambda>m''. ret (prev, m'', x))) (tick w1)
        = (Inr (prev, current, x), w2)"
  proof -
    let ?k = "\<lambda>m. obind (app m) (\<lambda>(m', x). obind (UpdateMaint_store m') (\<lambda>m''. ret (m, m'', x)))"
    from assms(1,2) obtain row where r: "find_maint (w_db w) mid = Some row"
        "?k (fromDBMaintenance row) (tick w1) = (Inr (prev, current, x), w2)"
      by (auto simp: update_body_def GetMaintForUpdate_def run_getMaint split: option.splits)
    from r(2) have "prev = fromDBMaintenance row"
      by (auto simp: obind_def ret_def split: sum.splits prod.splits)
    with r that show ?thesis by blast
  qed
  from body obtain m' w3 where app: "app prev (tick w1) = (Inr (m', x), w3)"
      and upd: "UpdateMaint_store m' w3 = (Inr current, w2)"
    by (auto simp: obind_def ret_def split: sum.splits prod.splits)
  have "same_frame (tick w1) w3" using app by (rule db_onlyD [OF assms(5)])
  then have e3: "w_env w3 = w_env w" using assms(3) by (simp add: same_frame_def)
  from upd e3 have "current = m'\<lparr>m_updated_at := Some (clock (w_env w) (w_tick w3))\<rparr>"
      "if has_maint (w_db w3) (m_id m') then row_ok (written (w_env w) (clock (w_env w) (w_tick w3)) m')
          \<and> w_db w2 = update_row (written (w_env w) (clock (w_env w) (w_tick w3)) m') (w_db w3)
        else w_db w2 = w_db w3"
    by (auto simp: UpdateMaint_store_def obind_def UTCNow_def db_call_def Let_def written_def
        split: option.splits sum.splits prod.splits if_splits)
  with row app assms(2,3,4) show ?thesis unfolding updated_by_def
    by (intro exI [of _ row] exI [of _ "tick w1"] exI [of _ w3] exI [of _ m'] exI) auto
qed

lemma update_body_db_only: "(\<And>m. db_only (app m)) \<Longrightarrow> db_only (update_body mid app)"
  by (auto simp: update_body_def intro!: db_only_rules)

lemma runUpdate_cases:
  assumes "runUpdateWithApply withinTx mid app w = (r, w')" "withinTx = WithinTx \<or> withinTx = WithinSerializableTx"
    and "w_tx w = None" "\<And>m. db_only (app m)"
  obtains (failed) e where "r = Inl e" "w_db w' = w_db w" "same_frame w w'"
  | (committed) prev current x w1 where "r = Inr (prev, current, x)" "updated_by mid app w prev current x (w_db w1)"
      "w_env w1 = w_env w" "w_tx w1 = None" "w_audit w1 = w_audit w" "w_sent w1 = w_sent w"
      "dispatchMaintLifecycle prev current w1 = (Inr (), w')"
proof -
  obtain r1 w1 where tx: "withinTx (update_body mid app) w = (r1, w1)" by fastforce
  have body: "db_only (update_body mid app)" using assms(4) by (rule update_body_db_only)
  have cases: "(\<exists>e. r1 = Inl e \<and> w_db w1 = w_db w \<and> same_frame w w1) \<or>
      (\<exists>prev current x. r1 = Inr (prev, current, x) \<and> updated_by mid app w prev current x (w_db w1) \<and> same_frame w w1)"
    using assms(2)
  proof
    assume "withinTx = WithinTx"
    with tx have "WithinTx (update_body mid app) w = (r1, w1)" by simp
    from this assms(3) body show ?thesis
    proof (cases rule: WithinTx_cases)
      case (committed a v1 v2)
      obtain prev current x where "a = (prev, current, x)" by (cases a) auto
      with committed update_body_committed [of mid app v1 prev current x v2 w] assms(4) show ?thesis by auto
    qed auto
  next
    assume "withinTx = WithinSerializableTx"
    with tx have "WithinSerializableTx (update_body mid app) w = (r1, w1)" by simp
    from this assms(3) body show ?thesis
    proof (cases rule: WithinSerializableTx_cases)
      case (committed a v1 v2)
      obtain prev current x where "a = (prev, current, x)" by (cases a) auto
      with committed update_body_committed [of mid app v1 prev current x v2 w] assms(4) show ?thesis by auto
    qed auto
  qed
  then show thesis
  proof (elim disjE exE conjE)
    fix e assume "r1 = Inl e" "w_db w1 = w_db w" "same_frame w w1"
    moreover from this assms(1) tx have "r = Inl e" "w' = w1" by (auto simp: runUpdateWithApply_def obind_def)
    ultimately show thesis by (intro failed) auto
  next
    fix prev current x
    assume c: "r1 = Inr (prev, current, x)" "updated_by mid app w prev current x (w_db w1)" "same_frame w w1"
    obtain w2 where d: "dispatchMaintLifecycle prev current w1 = (Inr (), w2)" using lifecycle_returns by blast
    with assms(1) tx c(1) have "r = Inr (prev, current, x)" "w' = w2"
      by (auto simp: runUpdateWithApply_def obind_def osequel_def ret_def)
    with c d assms(3) show thesis by (intro committed [of prev current x w1]) (auto simp: same_frame_def)
  qed
qed

end
