(* ===== verification/MaintRows.thy ===== *)
theory MaintRows
  imports MaintFrame
begin

text \<open>
  The rows of the maintenances table under every mutation of the service. The contract of
  a guarded change (what a caller hands to \<open>updateWithApply\<close>) is the locale
  \<open>guarded_change\<close>; each mutation interprets it, and the consequences for the stored rows
  are proved once: a row is left alone or moves along an allowed transition, a terminal
  row is never written, and status and actual period stay in step.
\<close>

section \<open>Status and actual period\<close>

definition life :: "maint_status \<Rightarrow> period option \<Rightarrow> bool" where
  "life s a = (case s of
     StatusDraft \<Rightarrow> a = None
   | StatusPlanned \<Rightarrow> a = None
   | StatusInProgress \<Rightarrow> (case a of None \<Rightarrow> False | Some p \<Rightarrow> IsOpen p)
   | StatusCancelled \<Rightarrow> (case a of None \<Rightarrow> True | Some p \<Rightarrow> \<not> IsOpen p)
   | StatusCompleted \<Rightarrow> (case a of None \<Rightarrow> True | Some p \<Rightarrow> \<not> IsOpen p))"

lemma life_pg [simp]: "life s (map_option (pg_period e) a) = life s a"
  by (cases s; cases a) (simp_all add: life_def IsOpen_def)

definition row_evolves :: "maint_row \<Rightarrow> maint_row \<Rightarrow> bool" where
  "row_evolves r r' \<longleftrightarrow> mt_id r' = mt_id r \<and> row_ok r' \<and> \<not> IsTerminal (mt_status r)
     \<and> (mt_status r' = mt_status r \<or> CanMaintTransition (mt_status r) (mt_status r'))
     \<and> (life (mt_status r) (mt_actual r) \<longrightarrow> life (mt_status r') (mt_actual r'))"

definition rows_inv :: "db \<Rightarrow> bool" where
  "rows_inv d \<longleftrightarrow> distinct (map mt_id (d_maints d)) \<and> (\<forall>r \<in> set (d_maints d). row_ok r \<and> life (mt_status r) (mt_actual r))"

definition rows_move :: "db \<Rightarrow> db \<Rightarrow> bool" where
  "rows_move d d' \<longleftrightarrow> list_all2 (\<lambda>r r'. r' = r \<or> row_evolves r r') (d_maints d) (d_maints d')"

lemma rows_move_same: "d_maints d' = d_maints d \<Longrightarrow> rows_move d d'"
  by (simp add: rows_move_def list_all2_same)

lemma rows_move_ids: "rows_move d d' \<Longrightarrow> map mt_id (d_maints d') = map mt_id (d_maints d)"
  unfolding rows_move_def by (induction rule: list_all2_induct) (auto simp: row_evolves_def)

lemma rows_move_pred:
  "rows_move d d' \<Longrightarrow> r' \<in> set (d_maints d') \<Longrightarrow> \<exists>r \<in> set (d_maints d). r' = r \<or> row_evolves r r'"
  unfolding rows_move_def list_all2_conv_all_nth in_set_conv_nth by (metis nth_mem)

lemma rows_move_succ:
  "rows_move d d' \<Longrightarrow> r \<in> set (d_maints d) \<Longrightarrow> \<exists>r' \<in> set (d_maints d'). r' = r \<or> row_evolves r r'"
  unfolding rows_move_def list_all2_conv_all_nth in_set_conv_nth by (metis nth_mem)

lemma rows_move_inv:
  assumes "rows_move d d'" "rows_inv d"
  shows "rows_inv d'"
proof -
  have "row_ok r' \<and> life (mt_status r') (mt_actual r')" if "r' \<in> set (d_maints d')" for r'
    using rows_move_pred [OF assms(1) that] assms(2) by (auto simp: rows_inv_def row_evolves_def)
  then show ?thesis using rows_move_ids [OF assms(1)] assms(2) by (simp add: rows_inv_def)
qed

lemma rows_move_update:
  assumes "rows_inv d" "find_maint d mid = Some row" "row_evolves row r'" "d_maints d1 = d_maints d"
  shows "rows_move d (update_row r' d1)"
proof -
  have id: "mt_id row = mid" "row \<in> set (d_maints d)" using find_maint_Some [OF assms(2)] by auto
  have "r' = x \<or> row_evolves x r'" if "x \<in> set (d_maints d)" "mt_id x = mt_id r'" for x
  proof -
    have "mt_id x = mt_id row" using that assms(3) by (simp add: row_evolves_def)
    with that(1) id assms(1) have "x = row" by (auto simp: rows_inv_def distinct_map inj_on_def)
    with assms(3) show ?thesis by simp
  qed
  then show ?thesis
    by (auto simp: rows_move_def update_row_def assms(4) list_all2_conv_all_nth)
qed

section \<open>Guarded changes\<close>

locale guarded_change =
  fixes app :: "maintenance \<Rightarrow> (maintenance \<times> 'x) op"
  assumes app_db_only: "db_only (app m)"
    and app_maints: "post (app m) (\<lambda>_ w'. d_maints (w_db w') = d_maints (w_db w)) (\<lambda>_ _. True) w"
    and app_change: "post (app m) (\<lambda>(m', _) _. m_id m' = m_id m \<and> \<not> IsTerminal (m_status m)
          \<and> (m_status m' = m_status m \<or> CanMaintTransition (m_status m) (m_status m'))
          \<and> (life (m_status m) (deref_actual m) \<longrightarrow> life (m_status m') (deref_actual m'))) (\<lambda>_ _. True) w"
begin

lemma updated_rows:
  assumes "updated_by mid app w prev current x d'" "rows_inv (w_db w)"
  shows "rows_move (w_db w) d'"
proof -
  from assms(1) obtain row w2 w3 m' now where u: "find_maint (w_db w) mid = Some row" "prev = fromDBMaintenance row"
      "w_db w2 = w_db w" "app prev w2 = (Inr (m', x), w3)"
      "if has_maint (w_db w3) (m_id m') then row_ok (written (w_env w) now m')
          \<and> d' = update_row (written (w_env w) now m') (w_db w3) else d' = w_db w3"
    unfolding updated_by_def by blast
  have maints: "d_maints (w_db w3) = d_maints (w_db w)" using post_InrD [OF app_maints u(4)] u(3) by simp
  show ?thesis
  proof (cases "has_maint (w_db w3) (m_id m')")
    case False
    with u(5) maints show ?thesis by (intro rows_move_same) simp
  next
    case True
    have "row_evolves row (written (w_env w) now m')"
      using post_InrD [OF app_change u(4)] u(2,5) True by (auto simp: row_evolves_def)
    with rows_move_update [OF assms(2) u(1) _ maints] u(5) True show ?thesis by simp
  qed
qed

text \<open>An update through a guarded change moves the stored rows or leaves them, and ends outside a transaction.\<close>

lemma update_rows:
  assumes "runUpdateWithApply withinTx mid app w = (r, w')" "withinTx = WithinTx \<or> withinTx = WithinSerializableTx"
    and "w_tx w = None" "rows_inv (w_db w)"
  shows "rows_move (w_db w) (w_db w') \<and> w_tx w' = None \<and> w_env w' = w_env w
    \<and> (isl r \<longrightarrow> w_db w' = w_db w \<and> same_frame w w')"
  using assms(1,2,3) app_db_only
proof (cases rule: runUpdate_cases)
  case (failed e)
  then show ?thesis using assms(3) by (auto simp: same_frame_def intro: rows_move_same)
next
  case (committed prev current x w1)
  have "post_frame w1 w'" using post_onlyD [OF post_only_lifecycle(1)] committed(7) by blast
  then have f: "core (w_db w') = core (w_db w1)" "w_tx w' = None" "w_env w' = w_env w"
    using committed by (auto simp: post_frame_def)
  have "d_maints (w_db w') = d_maints (w_db w1)"
    using arg_cong [OF f(1), of d_maints] by (simp add: core_def)
  moreover have "rows_move (w_db w) (w_db w1)" by (rule updated_rows [OF committed(2) assms(4)])
  ultimately show ?thesis using f committed(1) by (simp add: rows_move_def)
qed

end

section \<open>The changes of the service are guarded\<close>

text \<open>Which parts of the tables an operation never touches.\<close>

definition fixes_of :: "(db \<Rightarrow> 'v) \<Rightarrow> 'a op \<Rightarrow> bool" where
  "fixes_of f m \<longleftrightarrow> (\<forall>v. keeps (\<lambda>w. f (w_db w) = v) m)"

named_theorems fix_rules \<open>operations that leave a part of the tables alone\<close>

lemma fixes_ops [fix_rules]:
  "fixes_of f (ret a)" "fixes_of f (raise e)" "fixes_of f (read_world g0)" "fixes_of f UTCNow" "fixes_of f (db_query q)"
  "fixes_of f m \<Longrightarrow> (\<And>x. fixes_of f (g x)) \<Longrightarrow> fixes_of f (obind m g)"
  "fixes_of f m \<Longrightarrow> fixes_of f k2 \<Longrightarrow> fixes_of f (osequel m k2)"
  "fixes_of f m \<Longrightarrow> (\<And>er. fixes_of f (h er)) \<Longrightarrow> fixes_of f (ocatch m h)"
  "fixes_of f m \<Longrightarrow> fixes_of f k \<Longrightarrow> fixes_of f (if b then m else k)"
  "fixes_of f m \<Longrightarrow> (\<And>x. fixes_of f (k' x)) \<Longrightarrow> fixes_of f (case xo of None \<Rightarrow> m | Some x \<Rightarrow> k' x)"
  "(\<And>x. fixes_of f (g' x)) \<Longrightarrow> fixes_of f (for_each xs g')"
  "(\<And>x. fixes_of f (g'' x)) \<Longrightarrow> fixes_of f (map_each xs g'')"
  "(\<And>y z. fixes_of f (g3 y z)) \<Longrightarrow> fixes_of f (case p of (y, z) \<Rightarrow> g3 y z)"
  for m k :: "'b op"
  unfolding fixes_of_def
  by (auto intro!: keep_rules split: prod.split) (auto simp: keeps_def UTCNow_def db_query_same_db)

lemma fixes_call [fix_rules]:
  "(\<And>e t d a d'. g e t d = Inr (a, d') \<Longrightarrow> f d' = f d) \<Longrightarrow> fixes_of f (db_call g)"
  unfolding fixes_of_def keeps_def by (auto simp: db_call_def split: option.split sum.split)

lemma fixes_post: "fixes_of f m \<Longrightarrow> post m (\<lambda>_ w'. f (w_db w') = f (w_db w)) (\<lambda>_ _. True) w"
  unfolding fixes_of_def keeps_def post_def by (auto split: prod.split sum.split) (metis snd_conv)

lemma fixesD: "fixes_of f m \<Longrightarrow> m w = (r, w') \<Longrightarrow> f (w_db w') = f (w_db w)"
  unfolding fixes_of_def keeps_def by (metis snd_conv)

lemma fixes_lift [fix_rules]: "fixes_of f (lift_sum r)"
  by (simp add: fixes_of_def keeps_def lift_sum_def)

lemma db_only_lift [db_only_rules]: "db_only (lift_sum r)"
  by (simp add: db_only_def lift_sum_def)

lemma fixes_new_task [fix_rules]: "fixes_of f (new_task ty p key)"
  by (simp add: fixes_of_def keeps_def new_task_def)

text \<open>Lifecycle changes touch no table before the row is written.\<close>

lemma lifecycle_db_only [db_only_rules]:
  "db_only (start_apply m)" "db_only (complete_apply m)"
  "(\<And>x. db_only (can x)) \<Longrightarrow> db_only (cancel_apply cmd can m)" "db_only (can_cancel m)" "db_only (not_started m)"
  by (auto simp: start_apply_def complete_apply_def cancel_apply_def can_cancel_def not_started_def Let_def
      intro!: db_only_rules)

lemma lifecycle_fixes [fix_rules]:
  "fixes_of f (start_apply m)" "fixes_of f (complete_apply m)"
  "(\<And>x. fixes_of f (can x)) \<Longrightarrow> fixes_of f (cancel_apply cmd can m)" "fixes_of f (can_cancel m)" "fixes_of f (not_started m)"
  by (auto simp: start_apply_def complete_apply_def cancel_apply_def can_cancel_def not_started_def GetMaintSteps_def
      getSteps_def Let_def intro!: fix_rules)

lemma life_closed: "life StatusCancelled (deref_actual (CloseActualPeriod m t))" "life StatusCompleted (deref_actual (CloseActualPeriod m t))"
  using CloseActualPeriod_closed [of m t] by (auto simp: life_def IsOpen_def split: option.split)

lemma deref_status [simp]: "deref_actual (m\<lparr>m_status := s\<rparr>) = deref_actual m"
  "deref_actual (m\<lparr>m_cancel_reason := r\<rparr>) = deref_actual m" "deref_actual (m\<lparr>m_cancel_comment := c\<rparr>) = deref_actual m"
  "deref_actual (m\<lparr>m_resources := rs\<rparr>) = deref_actual m"
  by (simp_all add: deref_actual_def split: option.split period_ptr.split)

interpretation start_change: guarded_change start_apply
proof unfold_locales
  show "db_only (start_apply m)" for m by (rule db_only_rules)
  show "post (start_apply m) (\<lambda>_ w'. d_maints (w_db w') = d_maints (w_db w)) (\<lambda>_ _. True) w" for m w
    by (rule fixes_post) (rule fix_rules)
  show "post (start_apply m) (\<lambda>(m', _) _. m_id m' = m_id m \<and> \<not> IsTerminal (m_status m)
      \<and> (m_status m' = m_status m \<or> CanMaintTransition (m_status m) (m_status m'))
      \<and> (life (m_status m) (deref_actual m) \<longrightarrow> life (m_status m') (deref_actual m'))) (\<lambda>_ _. True) w" for m w
    using maint_sm.terminal_stuck [of "m_status m"]
    by (auto simp: start_apply_def life_def deref_actual_def NewOpenEndedPeriod_def IsOpen_def)
qed

interpretation complete_change: guarded_change complete_apply
proof unfold_locales
  show "db_only (complete_apply m)" for m by (rule db_only_rules)
  show "post (complete_apply m) (\<lambda>_ w'. d_maints (w_db w') = d_maints (w_db w)) (\<lambda>_ _. True) w" for m w
    by (rule fixes_post) (rule fix_rules)
  show "post (complete_apply m) (\<lambda>(m', _) _. m_id m' = m_id m \<and> \<not> IsTerminal (m_status m)
      \<and> (m_status m' = m_status m \<or> CanMaintTransition (m_status m) (m_status m'))
      \<and> (life (m_status m) (deref_actual m) \<longrightarrow> life (m_status m') (deref_actual m'))) (\<lambda>_ _. True) w" for m w
    using maint_sm.terminal_stuck [of "m_status m"] life_closed(2)
    by (auto simp: complete_apply_def GetMaintSteps_def getSteps_def post_db_query Let_def split: option.split)
qed

lemma cancel_guarded:
  assumes db: "\<And>m. db_only (can m)" and fixed: "\<And>m. fixes_of d_maints (can m)"
    and guard: "\<And>m w w'. can m w = (Inr (), w') \<Longrightarrow> m_status m \<noteq> StatusCancelled \<Longrightarrow> CanMaintTransition (m_status m) StatusCancelled"
  shows "guarded_change (cancel_apply cmd can)"
proof unfold_locales
  show "db_only (cancel_apply cmd can m)" for m by (intro db_only_rules db)
  show "post (cancel_apply cmd can m) (\<lambda>_ w'. d_maints (w_db w') = d_maints (w_db w)) (\<lambda>_ _. True) w" for m w
    by (intro fixes_post fix_rules fixed)
  show "post (cancel_apply cmd can m) (\<lambda>(m', _) _. m_id m' = m_id m \<and> \<not> IsTerminal (m_status m)
      \<and> (m_status m' = m_status m \<or> CanMaintTransition (m_status m) (m_status m'))
      \<and> (life (m_status m) (deref_actual m) \<longrightarrow> life (m_status m') (deref_actual m'))) (\<lambda>_ _. True) w" for m w
  proof (cases "m_status m = StatusCancelled")
    case False
    have "post (can m) (\<lambda>_ _. CanMaintTransition (m_status m) StatusCancelled) (\<lambda>_ _. True) w"
      by (rule postI) (use guard False in auto)
    then show ?thesis using False maint_sm.terminal_stuck [of "m_status m"] life_closed(1)
      by (auto simp: cancel_apply_def elim!: post_weaken)
  qed (simp add: cancel_apply_def)
qed

interpretation cancel_change: guarded_change "cancel_apply cmd can_cancel" for cmd
  by (rule cancel_guarded) (auto simp: db_only_rules fix_rules can_cancel_def raise_def ret_def split: if_splits)

interpretation sweep_change: guarded_change "cancel_apply cmd not_started" for cmd
  by (rule cancel_guarded)
    (auto simp: db_only_rules fix_rules not_started_def raise_def ret_def maint_transition_defs split: if_splits)

subsection \<open>Changes that also write child tables\<close>

lemma fixes_steps:
  assumes "\<And>d x. f (d\<lparr>d_steps := x\<rparr>) = f d"
  shows "fixes_of f (AddSteps mid ss)" "fixes_of f (DeleteSteps mid)" "fixes_of f (UpdateStep mid s)"
  by (auto simp: AddSteps_def DeleteSteps_def UpdateStep_def assms Let_def split: if_splits intro!: fix_rules)

lemma fixes_resources:
  assumes "\<And>d x. f (d\<lparr>d_resources_of := x\<rparr>) = f d"
  shows "fixes_of f (AddResources mid rs)" "fixes_of f (DeleteResources mid)"
  by (auto simp: AddResources_def DeleteResources_def assms split: if_splits intro!: fix_rules)

lemma fixes_mentions:
  assumes "\<And>d x. f (d\<lparr>d_mentions := x\<rparr>) = f d"
  shows "fixes_of f (AddMentions mid us)" "fixes_of f (DeleteMentions mid)"
  by (auto simp: AddMentions_def DeleteMentions_def assms Let_def split: if_splits intro!: fix_rules)

lemma fixes_targets:
  assumes "\<And>d x. f (d\<lparr>d_targets := x\<rparr>) = f d"
  shows "fixes_of f (targets_CreateMany mid ts)" "fixes_of f (targets_Delete mid)"
  by (auto simp: targets_CreateMany_def targets_Delete_def assms Let_def split: if_splits intro!: fix_rules)

lemma fixes_deferred:
  assumes "\<And>d x. f (d\<lparr>d_deferred := x\<rparr>) = f d"
  shows "fixes_of f (deferred_CreateMany mid ns)" "fixes_of f (DeleteByMaint mid)" "fixes_of f (SetTaskID i t)"
  by (auto simp: deferred_CreateMany_def DeleteByMaint_def SetTaskID_def assms Let_def split: if_splits intro!: fix_rules)

lemma fixes_queue:
  assumes "\<And>d x. f (d\<lparr>d_tasks := x\<rparr>) = f d"
  shows "fixes_of f (ScheduleDelayed ty p dl key)" "fixes_of f (scheduler_Cancel t)" "fixes_of f (cancelEnqueued mid)"
  by (auto simp: ScheduleDelayed_def scheduler_Cancel_def cancelEnqueued_def deferred_ListByMaint_store_def assms Let_def
      split: sum.splits if_splits option.splits intro!: fix_rules)

lemma fixes_schedule:
  assumes "\<And>d x. f (d\<lparr>d_tasks := x\<rparr>) = f d" "\<And>d x. f (d\<lparr>d_deferred := x\<rparr>) = f d"
  shows "fixes_of f (deferred_Schedule mid)"
  unfolding deferred_Schedule_def deferred_ListByMaint_store_def
  by (intro fix_rules fixes_queue fixes_deferred assms)

lemma fixes_snapshot:
  assumes "\<And>d x. f (d\<lparr>d_snapshots := x\<rparr>) = f d"
  shows "fixes_of f (SaveSnapshot mid cs)"
  by (auto simp: SaveSnapshot_def snapshots_Save_def assms Let_def split: if_splits intro!: fix_rules)

lemma fixes_WithinTx: 
  assumes "db_only fn" "fixes_of f fn"
  shows "fixes_of f (WithinTx fn)"
proof -
  have "f (w_db w') = f (w_db w)" if run: "WithinTx fn w = (r, w')" for w r w'
  proof (cases "w_tx w")
    case (Some d)
    with run fixesD [OF assms(2)] show ?thesis by (simp add: WithinTx_nested)
  next
    case None
    from run None assms(1) show ?thesis
    proof (cases rule: WithinTx_cases)
      case (committed a w1 w2)
      with fixesD [OF assms(2) committed(2)] show ?thesis by simp
    qed simp
  qed
  then show ?thesis unfolding fixes_of_def keeps_def by (metis prod.collapse)
qed

lemma fixes_targets_Replace:
  "(\<And>d x. f (d\<lparr>d_targets := x\<rparr>) = f d) \<Longrightarrow> fixes_of f (targets_Replace mid ts)"
  unfolding targets_Replace_def
  by (rule fixes_WithinTx) (auto simp: targets_replace_def intro!: fix_rules fixes_targets db_only_rules)

lemma replace_children_db_only [db_only_rules]: "db_only (replace_children cmd m)"
  by (auto simp: replace_children_def replaceSteps_def replaceResources_def replaceMentions_def targets_Replace_def
      intro!: db_only_rules)

lemma fixes_children:
  assumes "\<And>d x. f (d\<lparr>d_steps := x\<rparr>) = f d" "\<And>d x. f (d\<lparr>d_resources_of := x\<rparr>) = f d"
    "\<And>d x. f (d\<lparr>d_mentions := x\<rparr>) = f d" "\<And>d x. f (d\<lparr>d_targets := x\<rparr>) = f d"
    "\<And>d x. f (d\<lparr>d_deferred := x\<rparr>) = f d" "\<And>d x. f (d\<lparr>d_tasks := x\<rparr>) = f d"
  shows "fixes_of f (replace_children cmd m)"
  unfolding replace_children_def replaceSteps_def replaceResources_def replaceMentions_def deferred_Replace_def
  by (intro fix_rules fixes_steps fixes_resources fixes_mentions fixes_targets_Replace fixes_deferred fixes_queue assms)

lemma set_opt_simps [simp]: "set_opt f None m = m" "set_opt f (Some v) m = f v m"
  by (simp_all add: set_opt_def)

lemma set_opt_keeps: "(\<And>v m. g (f v m) = g m) \<Longrightarrow> g (set_opt f x m) = g m"
  by (simp add: set_opt_def split: option.split)

lemmas set_opt_fields = set_opt_keeps [where g = m_id] set_opt_keeps [where g = m_status] set_opt_keeps [where g = m_actual]
  set_opt_keeps [where g = m_created_at] set_opt_keeps [where g = m_cancel_reason]

lemma move_start_fields:
  assumes "move_start s m = Some m'"
  shows "m_id m' = m_id m" "m_status m' = m_status m" "m_actual m' = m_actual m" "m_created_at m' = m_created_at m"
    "m_cancel_reason m' = m_cancel_reason m"
  using assms by (auto simp: move_start_def split: option.splits)

lemma applyValues_fields:
  assumes "applyValuesFromUpdateCmd m ts cmd = Some m'"
  shows "m_id m' = m_id m" "m_status m' = m_status m" "m_actual m' = m_actual m" "m_created_at m' = m_created_at m"
    "m_cancel_reason m' = m_cancel_reason m"
proof -
  from assms obtain m5 where mv: "move_start (uc_planned_start cmd) (apply_before_start cmd m) = Some m5"
      and m': "m' = apply_after_start ts cmd m5"
    by (auto simp: applyValuesFromUpdateCmd_def)
  show "m_id m' = m_id m" "m_status m' = m_status m" "m_actual m' = m_actual m" "m_created_at m' = m_created_at m"
      "m_cancel_reason m' = m_cancel_reason m"
    using move_start_fields [OF mv]
    by (simp_all add: m' apply_before_start_def apply_after_start_def Let_def set_opt_fields Normalize_def)
qed

lemma update_db_only [db_only_rules]: "db_only (applyUpdate ts cmd m)"
  by (auto simp: applyUpdate_def intro!: db_only_rules)

lemma approve_db_only [db_only_rules]: "db_only (approve_apply cmd actor m)"
  by (auto simp: approve_apply_def loadResources_def checkConflicts_def intro!: db_only_rules)

lemma step_db_only [db_only_rules]:
  "db_only (start_step sid steps)" "db_only (finish_step new sid steps)"
  "(\<And>x. db_only (g x)) \<Longrightarrow> db_only (step_apply mid g m)"
  by (auto simp: start_step_def finish_step_def step_apply_def intro!: db_only_rules)

lemma fixes_approve:
  assumes "\<And>d x. f (d\<lparr>d_snapshots := x\<rparr>) = f d" "\<And>d x. f (d\<lparr>d_tasks := x\<rparr>) = f d" "\<And>d x. f (d\<lparr>d_deferred := x\<rparr>) = f d"
  shows "fixes_of f (approve_apply cmd actor m)"
proof -
  have "fixes_of f (loadResources x)" for x
    by (auto simp: loadResources_def GetMaintResources_def intro!: fix_rules)
  moreover have "fixes_of f (checkConflicts x sn)" for x sn
    by (auto simp: checkConflicts_def GetConflicts_def ConflictedMaints_def attachResources_def ConflictedResources_def
        Let_def split: if_splits intro!: fix_rules)
  ultimately show ?thesis
    unfolding approve_apply_def by (intro fix_rules fixes_snapshot fixes_schedule assms) auto
qed

lemma fixes_step:
  assumes "\<And>d x. f (d\<lparr>d_steps := x\<rparr>) = f d" "\<And>x. fixes_of f (g x)"
  shows "fixes_of f (step_apply mid g m)"
  unfolding step_apply_def GetMaintStepsForUpdate_def getSteps_def by (intro fix_rules fixes_steps assms)

lemma fixes_step_choice [fix_rules]: "fixes_of f (start_step sid steps)" "fixes_of f (finish_step new sid steps)"
  unfolding start_step_def finish_step_def by (intro fix_rules)+

interpretation update_change: guarded_change "applyUpdate ts cmd" for ts cmd
proof unfold_locales
  show "db_only (applyUpdate ts cmd m)" for m by (rule db_only_rules)
  show "post (applyUpdate ts cmd m) (\<lambda>_ w'. d_maints (w_db w') = d_maints (w_db w)) (\<lambda>_ _. True) w" for m w
    by (rule fixes_post) (auto simp: applyUpdate_def intro!: fix_rules fixes_children split: option.split)
  show "post (applyUpdate ts cmd m) (\<lambda>(m', _) _. m_id m' = m_id m \<and> \<not> IsTerminal (m_status m)
      \<and> (m_status m' = m_status m \<or> CanMaintTransition (m_status m) (m_status m'))
      \<and> (life (m_status m) (deref_actual m) \<longrightarrow> life (m_status m') (deref_actual m'))) (\<lambda>_ _. True) w" for m w
  proof (cases "m_status m = StatusDraft")
    case True
    show ?thesis
    proof (cases "applyValuesFromUpdateCmd m ts cmd")
      case (Some m')
      have "deref_actual m' = None" if "deref_actual m = None"
        using that applyValues_fields(3) [OF Some] by (simp add: deref_actual_def split: option.splits period_ptr.splits)
      with Some True applyValues_fields [OF Some] show ?thesis
        by (simp add: applyUpdate_def life_def IsTerminal_def) (simp add: post_def split: prod.split sum.split)
    qed (simp add: applyUpdate_def True)
  qed (simp add: applyUpdate_def)
qed

interpretation approve_change: guarded_change "approve_apply cmd actor" for cmd actor
proof unfold_locales
  show "db_only (approve_apply cmd actor m)" for m by (rule db_only_rules)
  show "post (approve_apply cmd actor m) (\<lambda>_ w'. d_maints (w_db w') = d_maints (w_db w)) (\<lambda>_ _. True) w" for m w
    by (rule fixes_post, rule fixes_approve) simp_all
  show "post (approve_apply cmd actor m) (\<lambda>(m', _) _. m_id m' = m_id m \<and> \<not> IsTerminal (m_status m)
      \<and> (m_status m' = m_status m \<or> CanMaintTransition (m_status m) (m_status m'))
      \<and> (life (m_status m) (deref_actual m) \<longrightarrow> life (m_status m') (deref_actual m'))) (\<lambda>_ _. True) w" for m w
  proof (cases "CanMaintTransition (m_status m) StatusPlanned")
    case True
    then have d: "m_status m = StatusDraft" by (cases "m_status m") (auto simp: maint_transition_defs)
    have "post k (\<lambda>_ _. True) (\<lambda>_ _. True) v" for k :: "'a op" and v by (simp add: post_def split: prod.split sum.split)
    with True d show ?thesis
      by (simp add: approve_apply_def loadResources_def life_def maint_transition_defs)
        (auto simp: post_def split: prod.split sum.split)
  qed (simp add: approve_apply_def)
qed

lemma step_guarded:
  assumes "\<And>x. db_only (g x)" "\<And>x. fixes_of d_maints (g x)"
  shows "guarded_change (step_apply mid g)"
proof unfold_locales
  show "db_only (step_apply mid g m)" for m by (intro db_only_rules assms)
  show "post (step_apply mid g m) (\<lambda>_ w'. d_maints (w_db w') = d_maints (w_db w)) (\<lambda>_ _. True) w" for m w
    by (rule fixes_post, rule fixes_step) (simp_all add: assms)
  show "post (step_apply mid g m) (\<lambda>(m', _) _. m_id m' = m_id m \<and> \<not> IsTerminal (m_status m)
      \<and> (m_status m' = m_status m \<or> CanMaintTransition (m_status m) (m_status m'))
      \<and> (life (m_status m) (deref_actual m) \<longrightarrow> life (m_status m') (deref_actual m'))) (\<lambda>_ _. True) w" for m w
    by (simp add: step_apply_def IsTerminal_def) (auto simp: post_def split: prod.split sum.split)
qed

interpretation start_step_change: guarded_change "step_apply mid (start_step sid)" for mid sid
  by (rule step_guarded) (rule db_only_rules fix_rules)+

interpretation finish_step_change: guarded_change "step_apply mid (finish_step new sid)" for mid new sid
  by (rule step_guarded) (rule db_only_rules fix_rules)+

end
