(* ===== verification/MaintMachine.thy ===== *)
theory MaintMachine
  imports MaintRows
begin

text \<open>
  The maintenance service as a state machine: a request per mutation, a step relation that
  serves one request under an arbitrary schedule of driver failures or lets the rest of the
  system change its own tables, and the states reachable from an empty database.
\<close>

section \<open>Requests\<close>

datatype request =
    CreateDraftReq create_cmd
  | UpdateMaintReq update_cmd
  | ApproveMaintReq approve_cmd
  | StartMaintReq lifecycle_cmd
  | CancelMaintReq cancel_cmd
  | CompleteMaintReq lifecycle_cmd
  | AutoCancelReq maintenance
  | StartStepReq step_cmd
  | CompleteStepReq step_cmd
  | CancelStepReq step_cmd

definition serve :: "request \<Rightarrow> unit op" where
  "serve req = (case req of
     CreateDraftReq cmd \<Rightarrow> osequel (CreateDraft cmd) (ret ())
   | UpdateMaintReq cmd \<Rightarrow> UpdateMaint cmd
   | ApproveMaintReq cmd \<Rightarrow> ApproveMaint cmd
   | StartMaintReq cmd \<Rightarrow> StartMaint cmd
   | CancelMaintReq cmd \<Rightarrow> CancelMaint cmd
   | CompleteMaintReq cmd \<Rightarrow> CompleteMaint cmd
   | AutoCancelReq m \<Rightarrow> cancelMaint (sweep_cmd m) not_started
   | StartStepReq cmd \<Rightarrow> StartStep cmd
   | CompleteStepReq cmd \<Rightarrow> CompleteStep cmd
   | CancelStepReq cmd \<Rightarrow> CancelStep cmd)"

section \<open>The contract of a mutation\<close>

definition rows_create :: "db \<Rightarrow> db \<Rightarrow> bool" where
  "rows_create d d' \<longleftrightarrow> (\<exists>r. d_maints d' = d_maints d @ [r] \<and> mt_status r = StatusDraft \<and> mt_actual r = None
     \<and> row_ok r \<and> \<not> has_maint d (mt_id r))"

definition rows_effect :: "db \<Rightarrow> db \<Rightarrow> bool" where
  "rows_effect d d' \<longleftrightarrow> rows_move d d' \<or> rows_create d d'"

definition mutation :: "'a op \<Rightarrow> bool" where
  "mutation m \<longleftrightarrow> (\<forall>w r w'. m w = (r, w') \<longrightarrow> w_tx w = None \<longrightarrow> rows_inv (w_db w) \<longrightarrow>
     w_tx w' = None \<and> w_env w' = w_env w \<and> rows_effect (w_db w) (w_db w')
     \<and> (isl r \<longrightarrow> w_db w' = w_db w \<and> same_frame w w'))"

lemma mutationD:
  assumes "mutation m" "m w = (r, w')" "w_tx w = None" "rows_inv (w_db w)"
  shows "w_tx w' = None" "w_env w' = w_env w" "rows_effect (w_db w) (w_db w')"
    "isl r \<Longrightarrow> w_db w' = w_db w" "isl r \<Longrightarrow> same_frame w w'"
  using assms unfolding mutation_def by blast+

lemma rows_effect_same: "d_maints d' = d_maints d \<Longrightarrow> rows_effect d d'"
  by (simp add: rows_effect_def rows_move_same)

lemma rows_effect_cong: "rows_effect d d1 \<Longrightarrow> d_maints d2 = d_maints d1 \<Longrightarrow> rows_effect d d2"
  by (simp add: rows_effect_def rows_move_def rows_create_def)

lemma rows_effect_inv: "rows_effect d d' \<Longrightarrow> rows_inv d \<Longrightarrow> rows_inv d'"
  unfolding rows_effect_def
proof (elim disjE)
  show "rows_inv d'" if "rows_create d d'" "rows_inv d"
    using that by (auto simp: rows_create_def rows_inv_def has_maint_def life_def)
qed (rule rows_move_inv)

lemma mutation_fails: "(\<And>w. \<exists>e. m w = (Inl e, w)) \<Longrightarrow> mutation m"
  unfolding mutation_def
proof (intro allI impI)
  fix w r w' assume "\<And>w. \<exists>e. m w = (Inl e, w)" "m w = (r, w')" "w_tx w = None"
  then have "w' = w" by (metis snd_conv)
  with \<open>w_tx w = None\<close> show "w_tx w' = None \<and> w_env w' = w_env w \<and> rows_effect (w_db w) (w_db w')
     \<and> (isl r \<longrightarrow> w_db w' = w_db w \<and> same_frame w w')" by (simp add: rows_effect_same)
qed

text \<open>A prefix that only reads.\<close>

lemma mutation_after_read:
  assumes "db_only m" "fixes_of (\<lambda>d. d) m" "\<And>x. mutation (k x)"
  shows "mutation (obind m k)"
  unfolding mutation_def
proof (intro allI impI)
  fix w r w' assume run: "obind m k w = (r, w')" and tx: "w_tx w = None" and inv: "rows_inv (w_db w)"
  obtain r1 w1 where m: "m w = (r1, w1)" by fastforce
  have f: "same_frame w w1" "w_db w1 = w_db w" using db_onlyD [OF assms(1) m] fixesD [OF assms(2) m] by auto
  show "w_tx w' = None \<and> w_env w' = w_env w \<and> rows_effect (w_db w) (w_db w')
     \<and> (isl r \<longrightarrow> w_db w' = w_db w \<and> same_frame w w')"
  proof (cases r1)
    case (Inl e)
    with run m f tx show ?thesis by (auto simp: obind_def same_frame_def intro: rows_effect_same)
  next
    case (Inr a)
    with run m have k: "k a w1 = (r, w')" by (simp add: obind_def)
    have "w_tx w1 = None" "rows_inv (w_db w1)" using f tx inv by (auto simp: same_frame_def)
    from mutationD [OF assms(3) k this] f show ?thesis by (auto simp: same_frame_def)
  qed
qed

lemma mutation_after_read_seq: "db_only m \<Longrightarrow> fixes_of (\<lambda>d. d) m \<Longrightarrow> mutation k \<Longrightarrow> mutation (osequel m k)"
  unfolding osequel_def by (rule mutation_after_read)

text \<open>A suffix that runs after the commit and cannot fail.\<close>

lemma mutation_then_post:
  assumes "mutation m" "\<And>x. post_only (k x)" "\<And>x w. \<not> isl (fst (k x w))"
  shows "mutation (obind m k)"
  unfolding mutation_def
proof (intro allI impI)
  fix w r w' assume run: "obind m k w = (r, w')" and tx: "w_tx w = None" and inv: "rows_inv (w_db w)"
  obtain r1 w1 where m: "m w = (r1, w1)" by fastforce
  note eff = mutationD [OF assms(1) m tx inv]
  show "w_tx w' = None \<and> w_env w' = w_env w \<and> rows_effect (w_db w) (w_db w')
     \<and> (isl r \<longrightarrow> w_db w' = w_db w \<and> same_frame w w')"
  proof (cases r1)
    case (Inl e)
    with run m eff show ?thesis by (auto simp: obind_def)
  next
    case (Inr a)
    with run m have k: "k a w1 = (r, w')" by (simp add: obind_def)
    have "post_frame w1 w'" by (rule post_onlyD [OF assms(2) k])
    moreover have "\<not> isl r" using assms(3) [of a w1] k by simp
    moreover have "d_maints (w_db w') = d_maints (w_db w1)"
      using \<open>post_frame w1 w'\<close> unfolding post_frame_def core_def by (metis db.select_convs(1) db.surjective db.update_convs(4,11))
    ultimately show ?thesis using eff rows_effect_cong [OF eff(3)] by (simp add: post_frame_def)
  qed
qed

lemma mutation_catch:
  assumes "mutation m" "\<And>e w. snd (h e w) = w"
  shows "mutation (ocatch m h)"
  unfolding mutation_def
proof (intro allI impI)
  fix w r w' assume run: "ocatch m h w = (r, w')" and tx: "w_tx w = None" and inv: "rows_inv (w_db w)"
  obtain r1 w1 where m: "m w = (r1, w1)" by fastforce
  note eff = mutationD [OF assms(1) m tx inv]
  have "w' = w1" using run m assms(2) by (cases r1) (auto simp: ocatch_def prod_eq_iff)
  moreover have "isl r1" if "isl r" using run m that by (cases r1) (auto simp: ocatch_def)
  ultimately show "w_tx w' = None \<and> w_env w' = w_env w \<and> rows_effect (w_db w) (w_db w')
     \<and> (isl r \<longrightarrow> w_db w' = w_db w \<and> same_frame w w')" using eff by auto
qed

context guarded_change
begin

lemma mutation_update: "withinTx = WithinTx \<or> withinTx = WithinSerializableTx \<Longrightarrow> mutation (runUpdateWithApply withinTx mid app)"
  unfolding mutation_def rows_effect_def using update_rows by blast

lemma mutation_updateWithApply: "mutation (updateWithApply mid app)" "mutation (updateWithApplySerializable mid app)"
  by (simp_all add: updateWithApply_def updateWithApplySerializable_def mutation_update)

end

section \<open>Every request is a mutation\<close>

lemma total_audit [simp]: "\<not> isl (fst (publishAudit a w))"
  by (auto simp: publishAudit_def split: option.split)

lemma total_ret [simp]: "\<not> isl (fst (ret x w))"
  by (simp add: ret_def)

lemma total_for_each: "(\<And>x w. \<not> isl (fst (g x w))) \<Longrightarrow> \<not> isl (fst (for_each xs g w))"
proof (induction xs arbitrary: w)
  case (Cons x xs)
  obtain r1 w1 where "g x w = (r1, w1)" by fastforce
  moreover from this have "\<not> isl r1" using Cons.prems [of x w] by simp
  ultimately show ?case using Cons.IH [OF Cons.prems, of w1] by (cases r1) (simp_all add: osequel_def obind_def)
qed simp

lemma reads_validation:
  "fixes_of (\<lambda>d. d) (validateCreate cmd)" "fixes_of (\<lambda>d. d) (validateUpdate ucmd)" "fixes_of (\<lambda>d. d) (validateApprover a)"
  "fixes_of (\<lambda>d. d) (ResolveNotifyTarget mid input)"
  by (auto simp: validateCreate_def validateUpdate_def validateApprover_def ResolveNotifyTarget_def channel_get_def
      planned_field_def validatePlanedPeriod_def check_fields_def ListUsers_def UsersList_def CountActiveAdmins_def Let_def
      split: if_splits intro!: fix_rules)

lemma mutation_skip: "mutation m \<Longrightarrow> mutation (skip_ok m)"
  unfolding skip_ok_def by (rule mutation_catch) (simp_all add: ret_def raise_def)

lemma mutation_cancelMaint:
  "guarded_change (cancel_apply cmd can) \<Longrightarrow> mutation (cancelMaint cmd can)"
  unfolding cancelMaint_def
  by (intro mutation_skip mutation_then_post guarded_change.mutation_updateWithApply)
    (auto intro: post_rules)

lemma mutation_steps:
  assumes "guarded_change (step_apply mid g)"
  shows "mutation (obind (updateStepWithApply mid g) (\<lambda>(m, curr). for_each curr (\<lambda>s. publishAudit (a m s))))"
proof -
  have "\<not> isl (fst (dispatchStepLifecycle m s w))" for m s w
    by (simp add: dispatchStepLifecycle_def NotifyStepLifecycle_def best_effort_def)
  then have total: "\<not> isl (fst (osequel (for_each steps (dispatchStepLifecycle current)) (ret (current, steps)) w))"
    for steps current w
    using total_for_each [of "dispatchStepLifecycle current" steps w]
    by (auto simp: osequel_def obind_def ret_def split: prod.split sum.split)
  have "mutation (updateStepWithApply mid g)"
    unfolding updateStepWithApply_def
    by (intro mutation_then_post guarded_change.mutation_updateWithApply assms)
      (auto intro!: post_rules simp: total)
  then show ?thesis by (intro mutation_then_post) (auto intro!: post_rules total_for_each)
qed

lemma create_rows:
  "post (create_tx cmd) (\<lambda>_ w'. rows_create (w_db w) (w_db w')) (\<lambda>_ _. True) w"
proof -
  let ?rest = "\<lambda>m0. let m = Normalize (m0\<lparr>m_resources := cc_resources cmd\<rparr>) in
     osequel (if m_resources m \<noteq> [] then AddResources (m_id m) (m_resources m) else ret ())
     (obind (AddSteps (m_id m) (stepsFromCmd (cc_steps cmd) StepPlanned)) (\<lambda>steps.
      obind (targets_Create (m_id m) (cc_notify_targets cmd)) (\<lambda>ts.
      obind (deferred_Create (m_id m) (deferredNotificationsFromCmd (m_id m) (cc_deferred cmd))) (\<lambda>ds.
      osequel (AddMentions (m_id m) (uniq (cc_mentions cmd)))
      (ret (m\<lparr>m_steps := steps, m_notify_targets := ts, m_deferred := ds, m_mentions := uniq (cc_mentions cmd)\<rparr>))))))"
  have rest: "fixes_of d_maints (?rest m0)" for m0
    unfolding Let_def targets_Create_def deferred_Create_def ResolveNotifyTarget_def channel_get_def
    by (intro fix_rules fixes_resources fixes_steps fixes_targets fixes_deferred fixes_mentions) simp_all
  have create: "post (CreateMaint (draft_of cmd)) (\<lambda>_ w1. rows_create (w_db w) (w_db w1)) (\<lambda>_ _. True) w"
    by (auto simp: CreateMaint_def post_db_call Let_def rows_create_def draft_of_def toDBMaintenance_def deref_actual_def
        pg_maint_row_def split: option.split)
  have "post (?rest m0) (\<lambda>_ w'. rows_create (w_db w) (w_db w')) (\<lambda>_ _. True) w1" if "rows_create (w_db w) (w_db w1)" for m0 w1
    by (rule post_weaken [OF fixes_post [OF rest]]) (use that in \<open>auto simp: rows_create_def\<close>)
  then show ?thesis unfolding create_tx_def by simp (rule post_weaken [OF create], auto)
qed

lemma create_db_only: "db_only (create_tx cmd)"
  by (auto simp: create_tx_def Let_def intro!: db_only_rules)

lemma mutation_create_tx: "mutation (WithinTx (create_tx cmd))"
  unfolding mutation_def
proof (intro allI impI)
  fix w r w' assume run: "WithinTx (create_tx cmd) w = (r, w')" and tx: "w_tx w = None"
  from run tx create_db_only show "w_tx w' = None \<and> w_env w' = w_env w \<and> rows_effect (w_db w) (w_db w')
     \<and> (isl r \<longrightarrow> w_db w' = w_db w \<and> same_frame w w')"
  proof (cases rule: WithinTx_cases)
    case (failed e)
    with tx show ?thesis by (auto simp: same_frame_def intro: rows_effect_same)
  next
    case (committed a w1 w2)
    from post_InrD [OF create_rows committed(2)] committed(3,4) have "rows_create (w_db w) (w_db w')" by simp
    with committed tx show ?thesis by (auto simp: same_frame_def rows_effect_def)
  qed
qed

lemma mutation_CreateDraft: "mutation (CreateDraft cmd)"
proof -
  have "\<not> isl (fst (osequel (publishAudit a) (ret m) w))" for a :: audit_action and m :: maintenance and w
    by (auto simp: osequel_def obind_def publishAudit_def ret_def split: option.split)
  then show ?thesis
    unfolding CreateDraft_def
    by (intro mutation_after_read_seq mutation_then_post mutation_create_tx db_only_rules reads_validation)
      (auto intro!: post_rules)
qed

lemma mutation_UpdateMaint: "mutation (UpdateMaint cmd)"
proof -
  let ?k = "\<lambda>prev current. obind (read_world (\<lambda>w. time_rfc3339 (w_env w))) (\<lambda>f.
      let changes = maintUpdateChanges f prev current cmd in
      if changes \<noteq> [] then publishAudit (AuditMaintUpdated (uc_actor cmd) current changes) else ret ())"
  have "\<not> isl (fst (?k prev current w))" for prev current w
    by (auto simp: obind_def read_world_def Let_def)
  moreover have "post_only (?k prev current)" for prev current
    by (auto simp: Let_def intro!: post_rules)
  ultimately have "mutation (obind (updateWithApply (uc_maint_id cmd) (applyUpdate ts cmd)) (\<lambda>(prev, current, _). ?k prev current))" for ts
    by (intro mutation_then_post update_change.mutation_updateWithApply) auto
  then have "mutation (obind (ResolveNotifyTarget (uc_maint_id cmd) (uc_notify_targets cmd)) (\<lambda>ts.
      obind (updateWithApply (uc_maint_id cmd) (applyUpdate ts cmd)) (\<lambda>(prev, current, _). ?k prev current)))"
    by (rule mutation_after_read [OF targets_db_only(6) reads_validation(4)])
  moreover have "db_only (case uc_approver cmd of None \<Rightarrow> ret () | Some a \<Rightarrow> validateApprover a)"
      "fixes_of (\<lambda>d. d) (case uc_approver cmd of None \<Rightarrow> ret () | Some a \<Rightarrow> validateApprover a)"
    by (auto intro!: db_only_rules fix_rules reads_validation split: option.split)
  ultimately show ?thesis
    unfolding UpdateMaint_def
    by (intro mutation_after_read_seq [OF validate_db_only(5) reads_validation(2)] mutation_after_read_seq)
qed

lemma mutation_ApproveMaint: "mutation (ApproveMaint cmd)"
proof (cases "ac_actor cmd")
  case None
  then show ?thesis by (intro mutation_fails) (simp add: ApproveMaint_def raise_def)
next
  case (Some actor)
  have "mutation (ocatch (updateWithApplySerializable (ac_maint_id cmd) (approve_apply cmd actor))
         (\<lambda>e. if e = PgSerializationFailure then raise ErrConcurrentModification else raise e))"
    by (rule mutation_catch [OF approve_change.mutation_updateWithApply(2)]) (simp add: raise_def)
  with Some show ?thesis
    by (simp add: ApproveMaint_def) (intro mutation_then_post, auto intro!: post_rules)
qed

theorem mutation_serve: "mutation (serve req)"
proof (cases req)
  case (CreateDraftReq cmd)
  then show ?thesis unfolding serve_def osequel_def
    by simp (intro mutation_then_post mutation_CreateDraft, auto intro: post_rules)
next
  case (UpdateMaintReq cmd)
  then show ?thesis by (simp add: serve_def mutation_UpdateMaint)
next
  case (ApproveMaintReq cmd)
  then show ?thesis by (simp add: serve_def mutation_ApproveMaint)
next
  case (StartMaintReq cmd)
  then show ?thesis
    by (simp add: serve_def StartMaint_def)
      (intro mutation_then_post start_change.mutation_updateWithApply, auto intro: post_rules)
next
  case (CancelMaintReq cmd)
  then show ?thesis
    by (simp add: serve_def CancelMaint_def mutation_cancelMaint [OF cancel_change.guarded_change_axioms])
next
  case (CompleteMaintReq cmd)
  then show ?thesis
    by (simp add: serve_def CompleteMaint_def)
      (intro mutation_skip mutation_then_post complete_change.mutation_updateWithApply, auto intro: post_rules)
next
  case (AutoCancelReq m)
  then show ?thesis by (simp add: serve_def mutation_cancelMaint [OF sweep_change.guarded_change_axioms])
next
  case (StartStepReq cmd)
  then show ?thesis
    by (simp add: serve_def StartStep_def) (rule mutation_steps [OF start_step_change.guarded_change_axioms])
next
  case (CompleteStepReq cmd)
  then show ?thesis
    by (simp add: serve_def CompleteStep_def) (rule mutation_steps [OF finish_step_change.guarded_change_axioms])
next
  case (CancelStepReq cmd)
  then show ?thesis
    by (simp add: serve_def CancelStep_def) (rule mutation_steps [OF finish_step_change.guarded_change_axioms])
qed

section \<open>The machine\<close>

text \<open>The tables no other part of the system writes.\<close>

definition maint_tables :: "db \<Rightarrow> db" where
  "maint_tables d = d\<lparr>d_targets := [], d_tasks := [], d_users := [], d_channels := [], d_resources := [],
     d_auth := empty_auth\<rparr>"

inductive service_step :: "world \<Rightarrow> world \<Rightarrow> bool" where
  serve_request: "serve req w = (r, w') \<Longrightarrow> service_step w w'"
| outside: "w_tx w' = w_tx w \<Longrightarrow> maint_tables (w_db w') = maint_tables (w_db w) \<Longrightarrow> service_step w w'"

definition initial :: "world \<Rightarrow> bool" where
  "initial w \<longleftrightarrow> w_tx w = None \<and> maint_tables (w_db w) = maint_tables empty_db"

inductive reachable :: "world \<Rightarrow> bool" where
  start: "initial w \<Longrightarrow> reachable w"
| step: "reachable w \<Longrightarrow> service_step w w' \<Longrightarrow> reachable w'"

inductive_cases service_stepE: "service_step w w'"

lemma maint_tables_proj:
  assumes "maint_tables d' = maint_tables d"
  shows "d_maints d' = d_maints d" "d_resources_of d' = d_resources_of d" "d_steps d' = d_steps d"
    "d_deferred d' = d_deferred d" "d_mentions d' = d_mentions d" "d_snapshots d' = d_snapshots d"
  using arg_cong [OF assms, of d_maints] arg_cong [OF assms, of d_resources_of] arg_cong [OF assms, of d_steps]
    arg_cong [OF assms, of d_deferred] arg_cong [OF assms, of d_mentions] arg_cong [OF assms, of d_snapshots]
  by (simp_all add: maint_tables_def)

lemma step_effect:
  assumes "service_step w w'" "w_tx w = None" "rows_inv (w_db w)"
  shows "w_tx w' = None \<and> rows_effect (w_db w) (w_db w')"
  using assms(1)
proof (elim service_stepE)
  fix req r assume "serve req w = (r, w')"
  from mutationD [OF mutation_serve this assms(2,3)] show ?thesis by simp
next
  assume "w_tx w' = w_tx w" "maint_tables (w_db w') = maint_tables (w_db w)"
  with assms(2) rows_effect_same [OF maint_tables_proj(1)] show ?thesis by auto
qed

lemma reachable_rows: "reachable w \<Longrightarrow> w_tx w = None \<and> rows_inv (w_db w)"
proof (induction rule: reachable.induct)
  case (start w)
  then show ?case using maint_tables_proj(1) [of "w_db w" empty_db]
    by (simp add: initial_def rows_inv_def) (simp add: empty_db_def)
next
  case (step w w')
  then show ?case using step_effect rows_effect_inv by blast
qed

lemma reachable_steps: "service_step\<^sup>*\<^sup>* w w' \<Longrightarrow> reachable w \<Longrightarrow> reachable w'"
  by (induction rule: rtranclp_induct) (auto intro: reachable.step)

text \<open>What happens to one row in one step.\<close>

lemma effect_row:
  "rows_effect d d' \<Longrightarrow> row \<in> set (d_maints d) \<Longrightarrow> \<exists>row' \<in> set (d_maints d'). row' = row \<or> row_evolves row row'"
  unfolding rows_effect_def rows_create_def using rows_move_succ by fastforce

lemma effect_terminal:
  "rows_effect d d' \<Longrightarrow> row \<in> set (d_maints d) \<Longrightarrow> IsTerminal (mt_status row) \<Longrightarrow> row \<in> set (d_maints d')"
  using effect_row unfolding row_evolves_def by blast

lemma terminal_run:
  assumes "service_step\<^sup>*\<^sup>* w w'" "reachable w" "row \<in> set (d_maints (w_db w))" "IsTerminal (mt_status row)"
  shows "row \<in> set (d_maints (w_db w'))"
  using assms
proof (induction rule: rtranclp_induct)
  case (step u v)
  then have "row \<in> set (d_maints (w_db u))" "reachable u" by (auto intro: reachable_steps)
  with step effect_terminal step_effect reachable_rows show ?case by blast
qed

text \<open>Statuses along a run follow the transition table.\<close>

lemma status_run:
  assumes "service_step\<^sup>*\<^sup>* w w'" "reachable w" "row \<in> set (d_maints (w_db w))"
  shows "\<exists>row' \<in> set (d_maints (w_db w')). mt_id row' = mt_id row \<and> CanMaintTransition\<^sup>*\<^sup>* (mt_status row) (mt_status row')"
  using assms
proof (induction rule: rtranclp_induct)
  case (step u v)
  then obtain mid where mid: "mid \<in> set (d_maints (w_db u))" "mt_id mid = mt_id row"
      "CanMaintTransition\<^sup>*\<^sup>* (mt_status row) (mt_status mid)" by blast
  have "rows_effect (w_db u) (w_db v)" using step reachable_steps step_effect reachable_rows by blast
  from effect_row [OF this mid(1)] obtain row' where row': "row' \<in> set (d_maints (w_db v))" "row' = mid \<or> row_evolves mid row'"
    by blast
  then have "mt_id row' = mt_id row" "CanMaintTransition\<^sup>*\<^sup>* (mt_status row) (mt_status row')"
    using mid by (auto simp: row_evolves_def intro: rtranclp.rtrancl_into_rtrancl)
  with row'(1) show ?case by blast
qed blast

section \<open>A sample run\<close>

definition setup_db :: db where
  "setup_db = empty_db\<lparr>d_resources := [\<lparr>rs_id = 4, rs_name = ''a''\<rparr>],
     d_channels := [\<lparr>chn_id = 9, chn_transport = ''slack'', chn_address = ''#ops'', chn_name = ''ops''\<rparr>],
     d_users := [\<lparr>u_id = 7, u_email = ''e'', u_name = ''n'', u_roles = [RoleReviewer], u_created_at = 0, u_blocked_at = None,
       u_timezone = None, u_telegram_tag = None, u_slack_tag = None\<rparr>]\<rparr>"

definition after :: "request list \<Rightarrow> world" where
  "after reqs = fold (\<lambda>req w. snd (serve req w)) reqs (quiet_world setup_db)"

lemma reachable_after: "reachable (after reqs)"
proof -
  have "reachable w \<Longrightarrow> reachable (fold (\<lambda>req w. snd (serve req w)) reqs w)" for w
  proof (induction reqs arbitrary: w)
    case (Cons req reqs)
    have "service_step w (snd (serve req w))" by (rule serve_request [of req w "fst (serve req w)"]) simp
    with Cons show ?case by (simp add: reachable.step)
  qed simp
  moreover have "initial (quiet_world setup_db)"
    by (simp add: initial_def quiet_world_def setup_db_def maint_tables_def empty_db_def)
  ultimately show ?thesis by (simp add: after_def reachable.start)
qed

text \<open>The identifier the first draft of the sample run gets.\<close>

definition first_id :: uuid where
  "first_id = mt_id (hd (d_maints (w_db (after [CreateDraftReq sample_create]))))"

definition start_cmd :: lifecycle_cmd where
  "start_cmd = \<lparr>lc_maint_id = first_id, lc_actor = SystemUser\<rparr>"

definition sample_cancel_cmd :: cancel_cmd where
  "sample_cancel_cmd = \<lparr>xc_maint_id = first_id, xc_reason = ReasonMistake, xc_comment = [], xc_actor = SystemUser\<rparr>"

lemma sample_draft: "map mt_status (d_maints (w_db (after [CreateDraftReq sample_create]))) = [StatusDraft]"
  by code_simp

lemma sample_cancelled:
  "map mt_status (d_maints (w_db (after [CreateDraftReq sample_create, CancelMaintReq sample_cancel_cmd]))) = [StatusCancelled]"
  by code_simp

section \<open>Properties\<close>

text \<open>C1. In every reachable state the maintenances are well formed, whatever was requested and whatever the
  driver failed: identifiers are unique, the planned period is closed and ordered, a draft or planned
  maintenance has no actual period, a running one has an open one, and a finished one has none or a closed,
  ordered one.\<close>

theorem reachable_lifecycle_invariant:
  assumes "reachable w" "row \<in> set (d_maints (w_db w))"
  shows "distinct (map mt_id (d_maints (w_db w))) \<and> (\<exists>e. p_end (mt_planned row) = Some e \<and> p_start (mt_planned row) < e)
    \<and> (case mt_status row of
         StatusDraft \<Rightarrow> mt_actual row = None
       | StatusPlanned \<Rightarrow> mt_actual row = None
       | StatusInProgress \<Rightarrow> \<exists>s. mt_actual row = Some (NewOpenEndedPeriod s)
       | StatusCancelled \<Rightarrow> mt_actual row = None \<or> (\<exists>s e. mt_actual row = Some (NewPeriod s e) \<and> s < e)
       | StatusCompleted \<Rightarrow> mt_actual row = None \<or> (\<exists>s e. mt_actual row = Some (NewPeriod s e) \<and> s < e))"
proof -
  have own: "\<exists>s. p = NewOpenEndedPeriod s" if "IsOpen p" for p
    using that by (cases p) (simp add: IsOpen_def NewOpenEndedPeriod_def)
  have closed: "\<exists>s e. p = NewPeriod s e \<and> s < e" if "\<not> IsOpen p" "actual_ok (Some p)" for p
    using that by (cases p) (auto simp: IsOpen_def NewPeriod_def actual_ok_def split: option.splits)
  have inv: "rows_inv (w_db w)" using reachable_rows [OF assms(1)] by simp
  then have "row_ok row" "life (mt_status row) (mt_actual row)" "distinct (map mt_id (d_maints (w_db w)))"
    using assms(2) by (auto simp: rows_inv_def)
  then show ?thesis
    using own closed
    by (cases "mt_status row"; cases "mt_actual row") (auto simp: life_def row_ok_def planned_ok_def split: option.splits)
qed

theorem reachable_lifecycle_invariant_witness:
  "\<exists>row \<in> set (d_maints (w_db (after [CreateDraftReq sample_create]))). mt_actual row = None"
proof -
  obtain row where row: "row \<in> set (d_maints (w_db (after [CreateDraftReq sample_create])))" "mt_status row = StatusDraft"
    using sample_draft by (auto simp: map_eq_Cons_conv)
  with reachable_lifecycle_invariant [OF reachable_after row(1)] show ?thesis by auto
qed

text \<open>One request moves each maintenance at most one step along the transition table and never removes one;
  a finished maintenance keeps its row unchanged, and what is new is a draft.\<close>

theorem request_moves_along_table:
  assumes "reachable w" "serve req w = (r, w')"
  shows "(\<forall>row \<in> set (d_maints (w_db w)). \<exists>row' \<in> set (d_maints (w_db w')). mt_id row' = mt_id row
      \<and> (mt_status row' = mt_status row \<or> CanMaintTransition (mt_status row) (mt_status row'))
      \<and> (IsTerminal (mt_status row) \<longrightarrow> row' = row))
    \<and> (\<forall>row' \<in> set (d_maints (w_db w')). has_maint (w_db w) (mt_id row') \<or> mt_status row' = StatusDraft)"
proof -
  have inv: "w_tx w = None" "rows_inv (w_db w)" using reachable_rows [OF assms(1)] by auto
  note eff = mutationD(3) [OF mutation_serve assms(2) inv]
  have "has_maint (w_db w) (mt_id row') \<or> mt_status row' = StatusDraft" if "row' \<in> set (d_maints (w_db w'))" for row'
    using eff that rows_move_ids [of "w_db w" "w_db w'"]
    by (auto simp: rows_effect_def rows_create_def has_maint_def) (metis image_eqI list.set_map)
  then show ?thesis using effect_row [OF eff] unfolding row_evolves_def by metis
qed

theorem request_moves_along_table_witness:
  "\<exists>row' \<in> set (d_maints (w_db (after [CreateDraftReq sample_create, CancelMaintReq sample_cancel_cmd]))).
     mt_id row' = first_id"
proof -
  let ?w = "after [CreateDraftReq sample_create]" and ?req = "CancelMaintReq sample_cancel_cmd"
  have "hd (d_maints (w_db ?w)) \<in> set (d_maints (w_db ?w))" using sample_draft by (cases "d_maints (w_db ?w)") auto
  with request_moves_along_table [OF reachable_after prod.collapse [of "serve ?req ?w", symmetric]]
  show ?thesis by (fastforce simp: first_id_def after_def)
qed



lemma terminal_row_found:
  assumes "reachable w" "service_step\<^sup>*\<^sup>* w w'" "row \<in> set (d_maints (w_db w))" "IsTerminal (mt_status row)"
  shows "find_maint (w_db w') (mt_id row) = Some row"
proof -
  have "row \<in> set (d_maints (w_db w'))"
    using terminal_run [OF assms(2,1,3)] assms(4) by (auto simp: IsTerminal_def)
  moreover have "distinct (map mt_id (d_maints (w_db w')))"
    using reachable_rows [OF reachable_steps [OF assms(2,1)]] by (simp add: rows_inv_def)
  ultimately show ?thesis
    by (auto simp: find_maint_def find_Some_iff in_set_conv_nth distinct_conv_nth)
qed

text \<open>C30. Along any run the status of a maintenance follows the transition table, so it changes at most three
  times and never returns to an earlier status; and once it is completed or cancelled, the row read under its
  identifier is the same in every later state, whatever is requested of it.\<close>

theorem status_history:
  assumes "reachable w" "service_step\<^sup>*\<^sup>* w w'" "row \<in> set (d_maints (w_db w))"
  shows "(\<exists>row' \<in> set (d_maints (w_db w')). mt_id row' = mt_id row
      \<and> CanMaintTransition\<^sup>*\<^sup>* (mt_status row) (mt_status row')
      \<and> (CanMaintTransition\<^sup>*\<^sup>* (mt_status row') (mt_status row) \<longrightarrow> mt_status row' = mt_status row))
    \<and> (IsTerminal (mt_status row) \<longrightarrow> find_maint (w_db w') (mt_id row) = Some row)"
  using status_run [OF assms(2,1,3)] maint_sm.acyclic_runs terminal_row_found [OF assms] by metis

theorem status_history_witness:
  "\<exists>row \<in> set (d_maints (w_db (after [CreateDraftReq sample_create, CancelMaintReq sample_cancel_cmd]))).
     mt_status row = StatusCancelled \<and>
     find_maint (w_db (after [CreateDraftReq sample_create, CancelMaintReq sample_cancel_cmd, StartMaintReq start_cmd]))
       (mt_id row) = Some row"
proof -
  let ?w = "after [CreateDraftReq sample_create, CancelMaintReq sample_cancel_cmd]"
  obtain row where row: "row \<in> set (d_maints (w_db ?w))" "mt_status row = StatusCancelled"
    using sample_cancelled by (auto simp: map_eq_Cons_conv)
  have "service_step ?w (after [CreateDraftReq sample_create, CancelMaintReq sample_cancel_cmd, StartMaintReq start_cmd])"
    by (rule serve_request [of "StartMaintReq start_cmd" ?w "fst (serve (StartMaintReq start_cmd) ?w)"])
      (simp add: after_def)
  then have "service_step\<^sup>*\<^sup>* ?w (after [CreateDraftReq sample_create, CancelMaintReq sample_cancel_cmd, StartMaintReq start_cmd])"
    by blast
  from status_history [OF reachable_after this row(1)] row show ?thesis by (auto simp: IsTerminal_def)
qed

end
