(* ===== verification/Approval.thy ===== *)
theory Approval
  imports MaintMachine
begin

text \<open>
  What an approval guarantees: the gate (assigned approver or active admin, unchanged
  revision, unchanged conflict set), the frozen snapshot and the scheduled reminders, all
  in one transaction.
\<close>

section \<open>The live conflict set\<close>

definition own_resources :: "db \<Rightarrow> uuid \<Rightarrow> uuid list" where
  "own_resources d mid = map rs_id (resources_of d mid)"

definition own_query :: "db \<Rightarrow> maint_row \<Rightarrow> conflict_query_cmd" where
  "own_query d row = \<lparr>cq_maint_id = mt_id row, cq_period = mt_planned row, cq_scope = mt_scope row,
     cq_resource_ids = own_resources d (mt_id row)\<rparr>"

definition live_conflicts :: "env \<Rightarrow> db \<Rightarrow> conflict_query_cmd \<Rightarrow> conflict_wr list" where
  "live_conflicts e d cmd = map (\<lambda>r. with_resources (resource_ids d (mt_id r))
     (overlap_conflict (query_lower e (cq_period cmd)) (query_upper e (cq_period cmd)) r (mt_planned r)))
     (conflicted_rows e d cmd)"

lemma with_resources_id [simp]: "c_maint_id (with_resources rs c) = c_maint_id c"
  by (simp add: with_resources_def conflict.defs)

lemma live_conflicts_distinct:
  "distinct (map mt_id (d_maints d)) \<Longrightarrow> distinct (map c_maint_id (live_conflicts e d cmd))"
  by (simp add: live_conflicts_def conflicted_rows_def comp_def distinct_map_filter)

lemma GetConflicts_post:
  "post (GetConflicts cmd) (\<lambda>cs w'. cs = live_conflicts (w_env w) (w_db w) cmd \<and> w_db w' = w_db w \<and> w_env w' = w_env w)
     (\<lambda>_ _. True) w"
  by (auto simp: GetConflicts_def ConflictedMaints_def attachResources_def ConflictedResources_def post_db_call post_db_query
      live_conflicts_def Let_def split: option.split)

section \<open>The guard\<close>

text \<open>What the transaction checked before it let a draft through.\<close>

definition gate_passed :: "env \<Rightarrow> db \<Rightarrow> approve_cmd \<Rightarrow> user \<Rightarrow> maint_row \<Rightarrow> bool" where
  "gate_passed e d cmd actor row \<longleftrightarrow> mt_status row = StatusDraft
     \<and> (mt_approver row = ac_actor_user_id cmd \<or> IsActiveAdmin actor)
     \<and> Revision (fromDBMaintenance row) = ac_observed_revision cmd
     \<and> ConflictFingerprintFor (sha256_hex e) (ac_snapshot cmd) (own_resources d (mt_id row))
        = ConflictFingerprintFor (sha256_hex e) (map Some (live_conflicts e d (own_query d row))) (own_resources d (mt_id row))
     \<and> None \<notin> set (ac_snapshot cmd)"

lemma SaveSnapshot_post:
  "post (SaveSnapshot mid snaps) (\<lambda>_ w'. None \<notin> set snaps
      \<and> w_db w' = (w_db w)\<lparr>d_snapshots := d_snapshots (w_db w) @ map (pg_snapshot_row (w_env w)) (toDBSnaphots mid (map the snaps))\<rparr>)
     (\<lambda>_ _. True) w"
  by (cases "snaps = []") (auto simp: SaveSnapshot_def snapshots_Save_def post_db_call Let_def toDBSnaphots_def split: option.split)

lemma draft_only: "CanMaintTransition s StatusPlanned \<longleftrightarrow> s = StatusDraft"
  by (cases s) (auto simp: maint_transition_defs)

lemma loadResources_post:
  "post (loadResources m) (\<lambda>m1 w1. m1 = m\<lparr>m_resources := own_resources (w_db w) (m_id m)\<rparr> \<and> w_db w1 = w_db w \<and> w_env w1 = w_env w)
     (\<lambda>_ _. True) w"
  by (simp add: loadResources_def GetMaintResources_def post_db_query own_resources_def split: option.split)

lemma checkConflicts_post:
  "post (checkConflicts m snap) (\<lambda>_ w1. w_db w1 = w_db w \<and> w_env w1 = w_env w
      \<and> ConflictFingerprintFor (sha256_hex (w_env w)) snap (m_resources m)
        = ConflictFingerprintFor (sha256_hex (w_env w)) (map Some (live_conflicts (w_env w) (w_db w)
            \<lparr>cq_maint_id = m_id m, cq_period = m_planned m, cq_scope = m_scope m, cq_resource_ids = m_resources m\<rparr>)) (m_resources m))
     (\<lambda>_ _. True) w"
  unfolding checkConflicts_def by simp (rule post_weaken [OF GetConflicts_post], auto)

lemma approve_apply_run:
  assumes "approve_apply cmd actor (fromDBMaintenance row) w = (Inr (m', x), w3)" "mt_id row = ac_maint_id cmd"
  shows "gate_passed (w_env w) (w_db w) cmd actor row" "m_status m' = StatusPlanned" "m_id m' = mt_id row"
    "d_snapshots (w_db w3) = d_snapshots (w_db w) @
       map (pg_snapshot_row (w_env w)) (toDBSnaphots (ac_maint_id cmd) (map the (ac_snapshot cmd)))"
    "\<exists>w2. deferred_Schedule (ac_maint_id cmd) w2 = (Inr (), w3) \<and> w_env w2 = w_env w"
proof -
  let ?m = "fromDBMaintenance row"
  have pass: "m_status ?m = StatusDraft" "m_approver ?m = ac_actor_user_id cmd \<or> IsActiveAdmin actor"
      "Revision ?m = ac_observed_revision cmd"
    using assms(1) by (auto simp: approve_apply_def draft_only raise_def split: if_splits)
  then have "obind (loadResources ?m) (\<lambda>m1. osequel (checkConflicts m1 (ac_snapshot cmd))
        (osequel (SaveSnapshot (ac_maint_id cmd) (ac_snapshot cmd))
        (osequel (deferred_Schedule (ac_maint_id cmd)) (ret (m1\<lparr>m_status := StatusPlanned\<rparr>, ()))))) w = (Inr (m', x), w3)"
    using assms(1) by (auto simp: approve_apply_def draft_only split: if_splits)
  then obtain m1 w1 v1 v2 where run: "loadResources ?m w = (Inr m1, w1)" "checkConflicts m1 (ac_snapshot cmd) w1 = (Inr (), v1)"
      "SaveSnapshot (ac_maint_id cmd) (ac_snapshot cmd) v1 = (Inr (), v2)" "deferred_Schedule (ac_maint_id cmd) v2 = (Inr (), w3)"
      "m' = m1\<lparr>m_status := StatusPlanned\<rparr>"
    by (auto simp: obind_def osequel_def ret_def split: prod.splits sum.splits)
  note 1 = post_InrD [OF loadResources_post run(1)]
  note 2 = post_InrD [OF checkConflicts_post run(2)]
  note 3 = post_InrD [OF SaveSnapshot_post run(3)]
  have e2: "w_env v2 = w_env w" using db_onlyD [OF conflicts_db_only(11) run(3)] 1 2 by (simp add: same_frame_def)
  show "gate_passed (w_env w) (w_db w) cmd actor row"
    using pass 1 2 3 by (simp add: gate_passed_def own_query_def assms(2))
  show "m_status m' = StatusPlanned" "m_id m' = mt_id row" using 1 run(5) by simp_all
  have "d_snapshots (w_db w3) = d_snapshots (w_db v2)"
    by (rule fixesD [OF fixes_schedule run(4)]) simp_all
  then show "d_snapshots (w_db w3) = d_snapshots (w_db w) @
       map (pg_snapshot_row (w_env w)) (toDBSnaphots (ac_maint_id cmd) (map the (ac_snapshot cmd)))"
    using 1 2 3 by simp
  show "\<exists>w2. deferred_Schedule (ac_maint_id cmd) w2 = (Inr (), w3) \<and> w_env w2 = w_env w" using run(4) e2 by blast
qed

section \<open>The approval transaction\<close>

lemma approve_run:
  assumes "ApproveMaint cmd w = (Inr (), w')" "w_tx w = None"
  obtains actor row w2 w3 m' now where "ac_actor cmd = Some actor" "find_maint (w_db w) (ac_maint_id cmd) = Some row"
    "approve_apply cmd actor (fromDBMaintenance row) w2 = (Inr (m', ()), w3)" "w_db w2 = w_db w" "w_env w2 = w_env w"
    "has_maint (w_db w3) (m_id m')" "w_db w' = update_row (written (w_env w) now m') (w_db w3)"
proof -
  from assms(1) obtain actor where actor: "ac_actor cmd = Some actor" by (cases "ac_actor cmd") (auto simp: ApproveMaint_def raise_def)
  let ?upd = "updateWithApplySerializable (ac_maint_id cmd) (approve_apply cmd actor)"
  obtain r w1 where upd: "?upd w = (r, w1)" by fastforce
  with assms(1) actor obtain prev current where r: "r = Inr (prev, current, ())"
      and audit: "publishAudit (AuditMaintApproved actor current) w1 = (Inr (), w')"
    by (cases r) (auto simp: ApproveMaint_def obind_def ocatch_def raise_def split: prod.splits sum.splits if_splits)
  have db1: "w_db w' = w_db w1" using audit publishAudit_result by (metis prod.inject)
  from upd have "runUpdateWithApply WithinSerializableTx (ac_maint_id cmd) (approve_apply cmd actor) w = (r, w1)"
    by (simp add: updateWithApplySerializable_def)
  then show thesis
  proof (rule runUpdate_cases)
    show "WithinSerializableTx = WithinTx \<or> WithinSerializableTx = WithinSerializableTx" by simp
    show "w_tx w = None" by (rule assms(2))
    show "db_only (approve_apply cmd actor m)" for m by (rule db_only_rules)
  next
    fix e assume "r = Inl e" then show thesis using r by simp
  next
    fix prev' current' x v1
    assume c: "r = Inr (prev', current', x)" "updated_by (ac_maint_id cmd) (approve_apply cmd actor) w prev' current' x (w_db v1)"
      "dispatchMaintLifecycle prev' current' v1 = (Inr (), w1)"
    from c(2) obtain row w2 w3 m' now where u: "find_maint (w_db w) (ac_maint_id cmd) = Some row" "prev' = fromDBMaintenance row"
        "w_db w2 = w_db w" "w_env w2 = w_env w" "approve_apply cmd actor prev' w2 = (Inr (m', x), w3)"
        "current' = m'\<lparr>m_updated_at := Some now\<rparr>"
        "if has_maint (w_db w3) (m_id m') then row_ok (written (w_env w) now m')
          \<and> w_db v1 = update_row (written (w_env w) now m') (w_db w3) else w_db v1 = w_db w3"
      unfolding updated_by_def by blast
    have id: "mt_id row = ac_maint_id cmd" using find_maint_Some [OF u(1)] by simp
    note ap = approve_apply_run [OF u(5) [unfolded u(2)] id]
    have "d_maints (w_db w3) = d_maints (w_db w)"
      using post_InrD [OF approve_change.app_maints u(5)] u(3) by simp
    then have has: "has_maint (w_db w3) (m_id m')"
      using ap(3) find_maint_Some [OF u(1)] by (auto simp: has_maint_def intro: rev_image_eqI)
    have "w1 = v1"
      using c(3) u(2,6) ap(1,2) by (simp add: dispatchMaintLifecycle_def maintLifecycleEvent_def gate_passed_def ret_def)
    with has u db1 actor show thesis by (intro that [of actor row w2 m' w3 now]) auto
  qed
qed

section \<open>Scheduling\<close>

text \<open>
  What the queue library documents of the two calls: a new task carries the type, the
  payload and the external id it was built with, and adding it puts it in the queue and
  drops none.
\<close>

definition goque_documented :: "env \<Rightarrow> bool" where
  "goque_documented e \<longleftrightarrow>
     (\<forall>t ty p key k. goque_new_task e t ty p key = Inr k \<longrightarrow> tk_type k = ty \<and> tk_payload k = p \<and> tk_external_id k = key)
     \<and> (\<forall>k ts ts'. goque_add e k ts = Inr ts' \<longrightarrow> k \<in> set ts' \<and> set ts \<subseteq> set ts')"

lemma quiet_env_goque: "goque_documented quiet_env"
  by (auto simp: goque_documented_def quiet_env_def sample_new_task_def sample_add_def split: if_splits)

definition queued :: "uuid \<Rightarrow> db \<Rightarrow> deferred_row \<Rightarrow> bool" where
  "queued mid d r \<longleftrightarrow> (\<exists>k \<in> set (d_tasks d). tk_type k = ProcessorTaskMaintReminder
     \<and> tk_payload k = ReminderPayload mid (df_id r) \<and> df_task_id r = Some (tk_id k))"

lemma post_new_task: "post (new_task ty p ky) Q R v =
    (case goque_new_task (w_env v) (w_tick v) ty p ky of Inl e \<Rightarrow> R e (tick v) | Inr k \<Rightarrow> Q k (tick v))"
  by (simp add: post_def new_task_def split: sum.split)

lemma ScheduleDelayed_post:
  assumes "goque_documented (w_env w)"
  shows "post (ScheduleDelayed ty p dl key) (\<lambda>tid w'. (\<exists>k \<in> set (d_tasks (w_db w')). tk_type k = ty \<and> tk_payload k = p \<and> tk_id k = tid)
       \<and> set (d_tasks (w_db w)) \<subseteq> set (d_tasks (w_db w')) \<and> d_deferred (w_db w') = d_deferred (w_db w))
    (\<lambda>_ _. True) w"
proof (cases "goque_new_task (w_env w) (w_tick w) ty p key")
  case (Inl e)
  then show ?thesis by (simp add: ScheduleDelayed_def post_new_task)
next
  case (Inr k)
  define k' where "k' = (if dl > 0 then k\<lparr>tk_next_attempt_at := tk_next_attempt_at k + dl\<rparr> else k)"
  have k: "tk_type k' = ty" "tk_payload k' = p"
    using Inr assms by (auto simp: goque_documented_def k'_def)
  have "post (osequel (db_call (\<lambda>e _ d. case goque_add e k' (d_tasks d) of Inl err \<Rightarrow> Inl err
       | Inr ts \<Rightarrow> Inr ((), d\<lparr>d_tasks := ts\<rparr>))) (ret (tk_id k')))
      (\<lambda>tid w'. (\<exists>k \<in> set (d_tasks (w_db w')). tk_type k = ty \<and> tk_payload k = p \<and> tk_id k = tid)
       \<and> set (d_tasks (w_db w)) \<subseteq> set (d_tasks (w_db w')) \<and> d_deferred (w_db w') = d_deferred (w_db w))
      (\<lambda>_ _. True) (tick w)"
  proof (cases "goque_add (w_env w) k' (d_tasks (w_db w))")
    case (Inl e)
    then show ?thesis by (simp add: post_db_call split: option.split)
  next
    case add: (Inr ts)
    then have "k' \<in> set ts" "set (d_tasks (w_db w)) \<subseteq> set ts" using assms by (auto simp: goque_documented_def)
    with k add show ?thesis by (auto simp: post_db_call split: option.split)
  qed
  then show ?thesis
    unfolding ScheduleDelayed_def post_obind post_new_task Inr sum.case Let_def k'_def [symmetric] .
qed

lemma schedule_one:
  assumes "goque_documented (w_env w)"
  shows "post (obind (ScheduleDelayed ProcessorTaskMaintReminder (ReminderPayload mid i) dl key) (SetTaskID i))
    (\<lambda>_ w'. \<exists>k \<in> set (d_tasks (w_db w')). tk_type k = ProcessorTaskMaintReminder \<and> tk_payload k = ReminderPayload mid i
       \<and> set (d_tasks (w_db w)) \<subseteq> set (d_tasks (w_db w'))
       \<and> d_deferred (w_db w') = map (\<lambda>r. if df_id r = i then r\<lparr>df_task_id := Some (tk_id k)\<rparr> else r) (d_deferred (w_db w)))
    (\<lambda>_ _. True) w"
  by simp (rule post_weaken [OF ScheduleDelayed_post [OF assms]], auto simp: SetTaskID_def post_db_call split: option.split)

lemma queued_mono: "queued mid d r \<Longrightarrow> set (d_tasks d) \<subseteq> set (d_tasks d') \<Longrightarrow> queued mid d' r"
  by (auto simp: queued_def)

text \<open>The loop: every listed reminder ends up queued, the others are not touched.\<close>

lemma schedule_loop:
  assumes "goque_documented (w_env w)"
  shows "post (for_each ns (\<lambda>n. obind (ScheduleDelayed ProcessorTaskMaintReminder (ReminderPayload mid (dn_id n)) (dl n) (key n))
        (SetTaskID (dn_id n))))
    (\<lambda>_ w'. set (d_tasks (w_db w)) \<subseteq> set (d_tasks (w_db w'))
       \<and> map (\<lambda>r. r\<lparr>df_task_id := None\<rparr>) (d_deferred (w_db w')) = map (\<lambda>r. r\<lparr>df_task_id := None\<rparr>) (d_deferred (w_db w))
       \<and> (\<forall>r \<in> set (d_deferred (w_db w')). if df_id r \<in> dn_id ` set ns then queued mid (w_db w') r else r \<in> set (d_deferred (w_db w))))
    (\<lambda>_ _. True) w"
  using assms
proof (induction ns arbitrary: w)
  case Nil
  then show ?case by simp
next
  case (Cons n ns)
  let ?body = "\<lambda>n. obind (ScheduleDelayed ProcessorTaskMaintReminder (ReminderPayload mid (dn_id n)) (dl n) (key n)) (SetTaskID (dn_id n))"
  have db: "db_only (?body n)" by (intro db_only_rules)
  show ?case unfolding for_each.simps post_osequel
  proof (rule post_mono [OF schedule_one [OF Cons.prems, where mid = mid and i = "dn_id n" and dl = "dl n" and key = "key n"]])
    fix a w1
    assume run: "?body n w = (Inr a, w1)"
      and "\<exists>k \<in> set (d_tasks (w_db w1)). tk_type k = ProcessorTaskMaintReminder \<and> tk_payload k = ReminderPayload mid (dn_id n)
         \<and> set (d_tasks (w_db w)) \<subseteq> set (d_tasks (w_db w1))
         \<and> d_deferred (w_db w1) = map (\<lambda>r. if df_id r = dn_id n then r\<lparr>df_task_id := Some (tk_id k)\<rparr> else r) (d_deferred (w_db w))"
    then obtain k where k: "k \<in> set (d_tasks (w_db w1))" "tk_type k = ProcessorTaskMaintReminder"
        "tk_payload k = ReminderPayload mid (dn_id n)" "set (d_tasks (w_db w)) \<subseteq> set (d_tasks (w_db w1))"
        "d_deferred (w_db w1) = map (\<lambda>r. if df_id r = dn_id n then r\<lparr>df_task_id := Some (tk_id k)\<rparr> else r) (d_deferred (w_db w))"
      by blast
    have first: "if df_id r = dn_id n then queued mid (w_db w1) r else r \<in> set (d_deferred (w_db w))"
      if "r \<in> set (d_deferred (w_db w1))" for r
      using that k unfolding queued_def by auto
    have e1: "goque_documented (w_env w1)" using db_onlyD [OF db run] Cons.prems by (simp add: same_frame_def)
    show "post (for_each ns ?body) (\<lambda>_ w'. set (d_tasks (w_db w)) \<subseteq> set (d_tasks (w_db w'))
       \<and> map (\<lambda>r. r\<lparr>df_task_id := None\<rparr>) (d_deferred (w_db w')) = map (\<lambda>r. r\<lparr>df_task_id := None\<rparr>) (d_deferred (w_db w))
       \<and> (\<forall>r \<in> set (d_deferred (w_db w')). if df_id r \<in> dn_id ` set (n # ns) then queued mid (w_db w') r else r \<in> set (d_deferred (w_db w))))
      (\<lambda>_ _. True) w1"
    proof (rule post_weaken [OF Cons.IH [OF e1]], elim conjE, intro conjI ballI)
      fix w' r
      assume mono: "set (d_tasks (w_db w1)) \<subseteq> set (d_tasks (w_db w'))"
        and rest: "\<forall>r \<in> set (d_deferred (w_db w')). if df_id r \<in> dn_id ` set ns then queued mid (w_db w') r else r \<in> set (d_deferred (w_db w1))"
        and r: "r \<in> set (d_deferred (w_db w'))"
      show "if df_id r \<in> dn_id ` set (n # ns) then queued mid (w_db w') r else r \<in> set (d_deferred (w_db w))"
        using rest r first queued_mono [OF _ mono] by (auto split: if_splits)
    qed (use k in \<open>auto simp: comp_def if_distrib cong: if_cong\<close>)
  qed simp
qed

lemma schedule_all:
  assumes "goque_documented (w_env w)" "deferred_Schedule mid w = (Inr (), w')" "r \<in> set (d_deferred (w_db w'))" "df_maint_id r = mid"
  shows "queued mid (w_db w') r"
proof -
  let ?ns = "map deferred_fromDB (deferred_rows (w_db w) mid)"
  have f: "fault (w_env w) (w_tick w) = None" using assms(2) by (auto simp: deferred_Schedule_def deferred_ListByMaint_store_def run_query split: option.splits)
  with assms(2) obtain now h where "for_each ?ns (\<lambda>n. obind (ScheduleDelayed ProcessorTaskMaintReminder (ReminderPayload mid (dn_id n))
           (max (time_sub (dn_fire_at n) now) 0) (idempotencyKey h mid (dn_id n))) (SetTaskID (dn_id n))) (tick (tick w)) = (Inr (), w')"
    by (simp add: deferred_Schedule_def deferred_ListByMaint_store_def run_query run_now obind_def [of "read_world g" for g] read_world_def)
  from post_InrD [OF schedule_loop this] assms(1)
  have sched: "map (\<lambda>r. r\<lparr>df_task_id := None\<rparr>) (d_deferred (w_db w')) = map (\<lambda>r. r\<lparr>df_task_id := None\<rparr>) (d_deferred (w_db w))"
      "if df_id r \<in> dn_id ` set ?ns then queued mid (w_db w') r else r \<in> set (d_deferred (w_db w))"
    using assms(3) by auto
  have "r\<lparr>df_task_id := None\<rparr> \<in> set (map (\<lambda>r. r\<lparr>df_task_id := None\<rparr>) (d_deferred (w_db w)))"
    using assms(3) sched(1) by (metis image_eqI list.set_map)
  then obtain r0 where r0: "r0 \<in> set (d_deferred (w_db w))" "r\<lparr>df_task_id := None\<rparr> = r0\<lparr>df_task_id := None\<rparr>" by auto
  have "df_id r0 = df_id r" "df_maint_id r0 = df_maint_id r"
    using arg_cong [OF r0(2), of df_id] arg_cong [OF r0(2), of df_maint_id] by simp_all
  then have "r0 \<in> set (deferred_rows (w_db w) mid)" "df_id r0 = df_id r"
    using assms(4) r0(1) by (simp_all add: deferred_rows_def)
  moreover have "dn_id (deferred_fromDB r0) = df_id r0" by (simp add: deferred_fromDB_def)
  ultimately have "df_id r \<in> dn_id ` set ?ns" by (metis image_eqI list.set_map)
  with sched(2) show ?thesis by simp
qed

section \<open>Sample approval\<close>

definition sample_approve :: approve_cmd where
  "sample_approve = \<lparr>ac_maint_id = first_id,
     ac_observed_revision = Revision (fromDBMaintenance (hd (d_maints (w_db (after [CreateDraftReq sample_create]))))),
     ac_snapshot = [], ac_actor_user_id = 7,
     ac_actor = Some \<lparr>u_id = 7, u_email = ''e'', u_name = ''n'', u_roles = [RoleReviewer], u_created_at = 0, u_blocked_at = None,
       u_timezone = None, u_telegram_tag = None, u_slack_tag = None\<rparr>\<rparr>"

lemma sample_approved:
  "fst (ApproveMaint sample_approve (after [CreateDraftReq sample_create])) = Inr ()"
  by code_simp

section \<open>Properties\<close>

text \<open>C2. The approve gate: an approval that succeeds was asked by an actor who is the assigned approver or an
  active admin, of a draft whose revision is the one observed, and whose live conflict set, recomputed in the
  transaction, has the fingerprint of the set the approver was shown; the draft is planned afterwards and
  exactly the confirmed set was appended to the snapshots.\<close>

theorem approve_gate:
  assumes "ApproveMaint cmd w = (Inr (), w')" "w_tx w = None"
  shows "\<exists>actor row row'. ac_actor cmd = Some actor \<and> find_maint (w_db w) (ac_maint_id cmd) = Some row
    \<and> gate_passed (w_env w) (w_db w) cmd actor row
    \<and> find_maint (w_db w') (ac_maint_id cmd) = Some row' \<and> mt_status row' = StatusPlanned
    \<and> d_snapshots (w_db w') = d_snapshots (w_db w)
        @ map (pg_snapshot_row (w_env w)) (toDBSnaphots (ac_maint_id cmd) (map the (ac_snapshot cmd)))"
  using assms
proof (cases rule: approve_run)
  case (1 actor row w2 w3 m' now)
  have id: "mt_id row = ac_maint_id cmd" using find_maint_Some [OF 1(2)] by simp
  note ap = approve_apply_run [OF 1(3) id]
  have "find_maint (w_db w') (ac_maint_id cmd) = Some (written (w_env w) now m')"
    using 1(6,7) ap(3) id by (simp add: find_maint_update_row)
  moreover have "d_snapshots (w_db w') = d_snapshots (w_db w3)" by (simp add: 1(7) update_row_def)
  ultimately show ?thesis using 1 ap by auto
qed

theorem approve_gate_witness:
  "\<exists>row'. find_maint (w_db (snd (ApproveMaint sample_approve (after [CreateDraftReq sample_create])))) first_id = Some row'
     \<and> mt_status row' = StatusPlanned"
proof -
  let ?w = "after [CreateDraftReq sample_create]"
  have run: "ApproveMaint sample_approve ?w = (Inr (), snd (ApproveMaint sample_approve ?w))"
    using sample_approved by (metis prod.collapse)
  have "w_tx ?w = None" using reachable_rows [OF reachable_after] by simp
  from approve_gate [OF run this] show ?thesis by (auto simp: sample_approve_def)
qed

text \<open>C23. What the fingerprints protect: unless two different inputs of the digest collide, the gate lets a
  confirmed set through exactly when it agrees with the live set on every neighbour's identity, scope, overlap
  window to the second and the resources it shares with the maintenance; the order of either list and
  resources the maintenance does not touch are irrelevant.\<close>

theorem fingerprint_gate_exact:
  assumes "distinct (map mt_id (d_maints d))"
    and "h (fingerprint_buf (project_shared own snap))
         = h (fingerprint_buf (project_shared own (map Some (live_conflicts e d cmd))))
       \<longrightarrow> fingerprint_buf (project_shared own snap) = fingerprint_buf (project_shared own (map Some (live_conflicts e d cmd)))"
  shows "ConflictFingerprintFor h snap own = ConflictFingerprintFor h (map Some (live_conflicts e d cmd)) own
    \<longleftrightarrow> mset (map (gate_view own) (present snap)) = mset (map (gate_view own) (live_conflicts e d cmd))"
proof -
  have p: "present (map Some cs) = cs" for cs by (simp add: present_def comp_def filter_map)
  have "fingerprint_buf (project_shared own (map Some (live_conflicts e d cmd))) = fingerprint_buf (project_shared own snap)
    \<longleftrightarrow> mset (map (gate_view own) (live_conflicts e d cmd)) = mset (map (gate_view own) (present snap))"
    using buf_eq_iff [of "map Some (live_conflicts e d cmd)" own snap] live_conflicts_distinct [OF assms(1)] by (simp add: p)
  then show ?thesis using assms(2) by (auto simp: ConflictFingerprintFor_def ConflictFingerprint_def)
qed

theorem fingerprint_gate_exact_witness:
  "ConflictFingerprintFor (\<lambda>s. s) [None] [4] = ConflictFingerprintFor (\<lambda>s. s) (map Some (live_conflicts quiet_env two_maints sample_query)) [4]
    \<longleftrightarrow> mset (map (gate_view [4]) (present [None])) = mset (map (gate_view [4]) (live_conflicts quiet_env two_maints sample_query))"
  by (rule fingerprint_gate_exact) (simp_all add: two_maints_defs)

text \<open>C31. Approval schedules every reminder: after a successful approval each deferred notification of the
  maintenance carries the id of a queued reminder task for exactly that notification.\<close>

theorem approve_schedules_reminders:
  assumes "ApproveMaint cmd w = (Inr (), w')" "w_tx w = None" "goque_documented (w_env w)"
    and "r \<in> set (d_deferred (w_db w'))" "df_maint_id r = ac_maint_id cmd"
  shows "\<exists>k \<in> set (d_tasks (w_db w')). tk_type k = ProcessorTaskMaintReminder
    \<and> tk_payload k = ReminderPayload (ac_maint_id cmd) (df_id r) \<and> df_task_id r = Some (tk_id k)"
  using assms(1,2)
proof (cases rule: approve_run)
  case (1 actor row w2 w3 m' now)
  have "mt_id row = ac_maint_id cmd" using find_maint_Some [OF 1(2)] by simp
  from approve_apply_run(5) [OF 1(3) this] obtain v where v: "deferred_Schedule (ac_maint_id cmd) v = (Inr (), w3)" "w_env v = w_env w"
    using 1(5) by auto
  have "r \<in> set (d_deferred (w_db w3))" using assms(4) by (simp add: 1(7) update_row_def)
  from schedule_all [OF _ v(1) this assms(5)] v(2) assms(3) show ?thesis
    by (simp add: queued_def 1(7) update_row_def)
qed

theorem approve_schedules_reminders_witness:
  "let w' = snd (ApproveMaint sample_approve (after [CreateDraftReq sample_create])) in
    \<exists>r \<in> set (d_deferred (w_db w')). df_maint_id r = first_id \<and> (\<exists>k \<in> set (d_tasks (w_db w')). df_task_id r = Some (tk_id k))"
proof -
  let ?w = "after [CreateDraftReq sample_create]"
  let ?w' = "snd (ApproveMaint sample_approve ?w)"
  have run: "ApproveMaint sample_approve ?w = (Inr (), ?w')" using sample_approved by (metis prod.collapse)
  have tx: "w_tx ?w = None" using reachable_rows [OF reachable_after] by simp
  have "map df_maint_id (d_deferred (w_db ?w')) = [first_id]" by code_simp
  then obtain r where r: "r \<in> set (d_deferred (w_db ?w'))" "df_maint_id r = first_id" by (auto simp: map_eq_Cons_conv)
  have start: "w_tx (quiet_world setup_db) = None" "rows_inv (w_db (quiet_world setup_db))"
    by (simp_all add: quiet_world_def rows_inv_def setup_db_def empty_db_def)
  have "w_env ?w = quiet_env"
    using mutationD(2) [OF mutation_serve prod.collapse [of "serve (CreateDraftReq sample_create) (quiet_world setup_db)", symmetric] start]
    by (simp add: after_def quiet_world_def)
  with approve_schedules_reminders [OF run tx _ r(1)] r quiet_env_goque show ?thesis
    by (auto simp: Let_def sample_approve_def)
qed

end
