(* ===== verification/ServiceInvariant.thy ===== *)
theory ServiceInvariant
  imports Approval
begin

text \<open>
  What one request does to the tables of the maintenance service, as one rule: nothing, the
  body of a create, or the guarded change of the request on one row followed by the write of
  that row. The locale \<open>service_invariant\<close> turns it into an induction over reachable
  states: a predicate that a create and every guarded change keep holds in every one.
\<close>

section \<open>The change behind a request\<close>

fun request_maint :: "request \<Rightarrow> uuid" where
  "request_maint (CreateDraftReq cmd) = nil_uuid"
| "request_maint (UpdateMaintReq cmd) = uc_maint_id cmd"
| "request_maint (ApproveMaintReq cmd) = ac_maint_id cmd"
| "request_maint (StartMaintReq cmd) = lc_maint_id cmd"
| "request_maint (CancelMaintReq cmd) = xc_maint_id cmd"
| "request_maint (CompleteMaintReq cmd) = lc_maint_id cmd"
| "request_maint (AutoCancelReq m) = m_id m"
| "request_maint (StartStepReq cmd) = sc_maint_id cmd"
| "request_maint (CompleteStepReq cmd) = sc_maint_id cmd"
| "request_maint (CancelStepReq cmd) = sc_maint_id cmd"

text \<open>\<open>applies req m w m' w'\<close>: the guarded change of the request takes \<open>m\<close> to \<open>m'\<close> and the world along.\<close>

fun applies :: "request \<Rightarrow> maintenance \<Rightarrow> world \<Rightarrow> maintenance \<Rightarrow> world \<Rightarrow> bool" where
  "applies (CreateDraftReq cmd) m w m' w' = False"
| "applies (UpdateMaintReq cmd) m w m' w' = (\<exists>ts. map nt_channel_id ts = uc_notify_targets cmd \<and> applyUpdate ts cmd m w = (Inr (m', ()), w'))"
| "applies (ApproveMaintReq cmd) m w m' w' = (\<exists>actor. approve_apply cmd actor m w = (Inr (m', ()), w'))"
| "applies (StartMaintReq cmd) m w m' w' = (start_apply m w = (Inr (m', ()), w'))"
| "applies (CancelMaintReq cmd) m w m' w' = (cancel_apply cmd can_cancel m w = (Inr (m', ()), w'))"
| "applies (CompleteMaintReq cmd) m w m' w' = (complete_apply m w = (Inr (m', ()), w'))"
| "applies (AutoCancelReq x) m w m' w' = (cancel_apply (sweep_cmd x) not_started m w = (Inr (m', ()), w'))"
| "applies (StartStepReq cmd) m w m' w' = (\<exists>ss. step_apply (sc_maint_id cmd) (start_step (sc_step_id cmd)) m w = (Inr (m', ss), w'))"
| "applies (CompleteStepReq cmd) m w m' w' =
     (\<exists>ss. step_apply (sc_maint_id cmd) (finish_step StepCompleted (sc_step_id cmd)) m w = (Inr (m', ss), w'))"
| "applies (CancelStepReq cmd) m w m' w' =
     (\<exists>ss. step_apply (sc_maint_id cmd) (finish_step StepCanceled (sc_step_id cmd)) m w = (Inr (m', ss), w'))"

definition created_by :: "request \<Rightarrow> world \<Rightarrow> db \<Rightarrow> bool" where
  "created_by req w d' \<longleftrightarrow> (\<exists>cmd m w1 w2. req = CreateDraftReq cmd \<and> w_db w1 = w_db w \<and> w_env w1 = w_env w
     \<and> w_tx w1 = Some (w_db w) \<and> create_tx cmd w1 = (Inr m, w2) \<and> maint_tables d' = maint_tables (w_db w2))"

definition changed_by :: "request \<Rightarrow> world \<Rightarrow> db \<Rightarrow> bool" where
  "changed_by req w d' \<longleftrightarrow> (\<exists>row w2 w3 m' now. find_maint (w_db w) (request_maint req) = Some row
     \<and> w_db w2 = w_db w \<and> w_env w2 = w_env w \<and> w_tx w2 = Some (w_db w)
     \<and> applies req (fromDBMaintenance row) w2 m' w3
     \<and> d_maints (w_db w3) = d_maints (w_db w) \<and> m_id m' = request_maint req
     \<and> maint_tables d' = maint_tables (update_row (written (w_env w) now m') (w_db w3)))"

text \<open>The requests that report success on a maintenance that is where they would take it, or past it.\<close>

fun may_skip :: "request \<Rightarrow> bool" where
  "may_skip (CancelMaintReq _) = True"
| "may_skip (CompleteMaintReq _) = True"
| "may_skip (AutoCancelReq _) = True"
| "may_skip _ = False"

definition outcome :: "request \<Rightarrow> world \<Rightarrow> bool \<Rightarrow> world \<Rightarrow> bool" where
  "outcome req w failed w' \<longleftrightarrow> maint_tables (w_db w') = maint_tables (w_db w) \<and> (failed \<or> may_skip req)
     \<or> created_by req w (w_db w') \<or> changed_by req w (w_db w')"

definition does :: "request \<Rightarrow> 'a op \<Rightarrow> bool" where
  "does req m \<longleftrightarrow> (\<forall>w r w'. m w = (r, w') \<longrightarrow> w_tx w = None \<longrightarrow> outcome req w (isl r) w')"

lemma doesD: "does req m \<Longrightarrow> m w = (r, w') \<Longrightarrow> w_tx w = None \<Longrightarrow> outcome req w (isl r) w'"
  unfolding does_def by blast

lemma doesI: "(\<And>w r w'. m w = (r, w') \<Longrightarrow> w_tx w = None \<Longrightarrow> outcome req w (isl r) w') \<Longrightarrow> does req m"
  unfolding does_def by blast

lemma outcome_same: "w_db w' = w_db w \<Longrightarrow> failed \<or> may_skip req \<Longrightarrow> outcome req w failed w'"
  by (simp add: outcome_def)

lemma outcome_cong:
  "outcome req w f w1 \<Longrightarrow> maint_tables (w_db w2) = maint_tables (w_db w1) \<Longrightarrow> f \<longrightarrow> f' \<or> may_skip req \<Longrightarrow> outcome req w f' w2"
  by (auto simp: outcome_def created_by_def changed_by_def)

lemma outcome_from:
  "outcome req w1 f w2 \<Longrightarrow> w_db w1 = w_db w \<Longrightarrow> w_env w1 = w_env w \<Longrightarrow> outcome req w f w2"
  by (simp add: outcome_def created_by_def changed_by_def)

lemma core_tables: "core d' = core d \<Longrightarrow> maint_tables d' = maint_tables d"
proof -
  have "maint_tables x = (core x)\<lparr>d_users := [], d_channels := [], d_resources := [], d_auth := empty_auth\<rparr>" for x
    by (simp add: maint_tables_def core_def)
  then show "core d' = core d \<Longrightarrow> maint_tables d' = maint_tables d" by (simp only:)
qed

lemma post_tables: "post_frame w w' \<Longrightarrow> maint_tables (w_db w') = maint_tables (w_db w)"
  unfolding post_frame_def by (blast intro: core_tables)

section \<open>Composition\<close>

lemma does_fails: "(\<And>w. \<exists>e. m w = (Inl e, w)) \<Longrightarrow> does req m"
  by (rule doesI) (metis outcome_same prod.inject sum.disc(1))

lemma does_after_read:
  assumes "db_only m" "fixes_of (\<lambda>d. d) m" "\<And>w a w1. m w = (Inr a, w1) \<Longrightarrow> does req (k a)"
  shows "does req (obind m k)"
proof (rule doesI)
  fix w r w' assume run: "obind m k w = (r, w')" and tx: "w_tx w = None"
  obtain r1 w1 where m: "m w = (r1, w1)" by fastforce
  have f: "same_frame w w1" "w_db w1 = w_db w" using db_onlyD [OF assms(1) m] fixesD [OF assms(2) m] by auto
  show "outcome req w (isl r) w'"
  proof (cases r1)
    case (Inl e)
    with run m f show ?thesis by (auto simp: obind_def intro: outcome_same)
  next
    case (Inr a)
    with run m have k: "k a w1 = (r, w')" by (simp add: obind_def)
    from m Inr assms(3) have "does req (k a)" by blast
    from doesD [OF this k] f tx show ?thesis by (auto simp: same_frame_def intro: outcome_from)
  qed
qed

lemma does_after_read_seq: "db_only m \<Longrightarrow> fixes_of (\<lambda>d. d) m \<Longrightarrow> does req k \<Longrightarrow> does req (osequel m k)"
  unfolding osequel_def by (rule does_after_read)

lemma does_then_post:
  assumes "does req m" "\<And>x. post_only (k x)"
  shows "does req (obind m k)"
proof (rule doesI)
  fix w r w' assume run: "obind m k w = (r, w')" and tx: "w_tx w = None"
  obtain r1 w1 where m: "m w = (r1, w1)" by fastforce
  have "post_frame w1 w'" "isl r1 \<longrightarrow> isl r"
    using run m post_onlyD [OF assms(2)] by (cases r1; auto simp: obind_def)+
  with doesD [OF assms(1) m tx] show "outcome req w (isl r) w'" by (auto intro: outcome_cong post_tables)
qed

lemma does_catch:
  assumes "does req m" "\<And>e w. snd (h e w) = w" "\<And>e w. isl (fst (h e w)) \<or> may_skip req"
  shows "does req (ocatch m h)"
proof (rule doesI)
  fix w r w' assume run: "ocatch m h w = (r, w')" and tx: "w_tx w = None"
  obtain r1 w1 where m: "m w = (r1, w1)" by fastforce
  have "w' = w1" using run m assms(2) by (cases r1) (auto simp: ocatch_def prod_eq_iff)
  moreover have "isl r1 \<longrightarrow> isl r \<or> may_skip req"
    using run m assms(3) by (cases r1) (auto simp: ocatch_def prod_eq_iff)
  ultimately show "outcome req w (isl r) w'" using doesD [OF assms(1) m tx] outcome_cong by blast
qed

lemma does_skip: "does req m \<Longrightarrow> may_skip req \<Longrightarrow> does req (skip_ok m)"
  unfolding skip_ok_def by (rule does_catch) (simp_all add: ret_def raise_def)

context guarded_change
begin

lemma does_update:
  assumes "withinTx = WithinTx \<or> withinTx = WithinSerializableTx"
    and "\<And>m w m' x w'. app m w = (Inr (m', x), w') \<Longrightarrow> applies req m w m' w'"
  shows "does req (runUpdateWithApply withinTx (request_maint req) app)"
proof (rule doesI)
  fix w r w' assume "runUpdateWithApply withinTx (request_maint req) app w = (r, w')" and tx: "w_tx w = None"
  from this(1) assms(1) tx app_db_only show "outcome req w (isl r) w'"
  proof (cases rule: runUpdate_cases)
    case (failed e)
    then show ?thesis by (simp add: outcome_same)
  next
    case (committed prev current x w1)
    from committed(2) obtain row w2 w3 m' now where u: "find_maint (w_db w) (request_maint req) = Some row"
        "prev = fromDBMaintenance row" "w_db w2 = w_db w" "w_env w2 = w_env w" "w_tx w2 = Some (w_db w)"
        "app prev w2 = (Inr (m', x), w3)"
        "if has_maint (w_db w3) (m_id m') then row_ok (written (w_env w) now m')
          \<and> w_db w1 = update_row (written (w_env w) now m') (w_db w3) else w_db w1 = w_db w3"
      unfolding updated_by_def by blast
    have maints: "d_maints (w_db w3) = d_maints (w_db w)" using post_InrD [OF app_maints u(6)] u(3) by simp
    have id: "m_id m' = request_maint req"
      using post_InrD [OF app_change u(6)] u(2) find_maint_Some [OF u(1)] by (simp add: fromDBMaintenance_def)
    have "has_maint (w_db w3) (m_id m')"
      using id maints find_maint_Some [OF u(1)] by (auto simp: has_maint_def intro: rev_image_eqI)
    with u(7) have d: "w_db w1 = update_row (written (w_env w) now m') (w_db w3)" by simp
    have "maint_tables (w_db w') = maint_tables (w_db w1)"
      by (rule post_tables, rule post_onlyD [OF post_only_lifecycle(1) committed(7)])
    with u maints id d assms(2) [OF u(6)] have "changed_by req w (w_db w')" unfolding changed_by_def
      by (intro exI [of _ row] exI [of _ w2] exI [of _ w3] exI [of _ m'] exI [of _ now]) simp
    then show ?thesis by (simp add: outcome_def)
  qed
qed

lemma does_updateWithApply:
  assumes "\<And>m w m' x w'. app m w = (Inr (m', x), w') \<Longrightarrow> applies req m w m' w'" "request_maint req = mid"
  shows "does req (updateWithApply mid app)" "does req (updateWithApplySerializable mid app)"
  using does_update [OF _ assms(1)] assms(2)
  by (auto simp: updateWithApply_def updateWithApplySerializable_def)

end

section \<open>Every request\<close>

lemma resolved_channels:
  "post (ResolveNotifyTarget mid input) (\<lambda>ts _. map nt_channel_id ts = input) (\<lambda>_ _. True) w"
proof -
  have one: "post (obind (ocatch (channel_get cid)
        (\<lambda>e. if e = ErrNotifyChannelNotFound then raise (ErrUnknownChannel cid) else raise e)) (\<lambda>c.
     ret \<lparr>nt_id = nil_uuid, nt_maint_id = mid, nt_channel_id = chn_id c, nt_created_at = zero_time,
       nt_transport = chn_transport c, nt_transport_channel_id = chn_address c,
       nt_channel_name = chn_name c, nt_root_ref = None, nt_root_channel = []\<rparr>)) (\<lambda>t _. nt_channel_id t = cid) (\<lambda>_ _. True) v"
    for cid v
    by (auto simp: channel_get_def post_db_query find_Some_iff split: option.split)
  have "post (ResolveNotifyTarget mid input) (\<lambda>ts _. list_all2 (\<lambda>cid t. nt_channel_id t = cid) input ts) (\<lambda>_ _. True) w"
    unfolding ResolveNotifyTarget_def by (rule post_map_each) (rule one)
  then show ?thesis by (rule post_weaken) (auto simp: list_all2_conv_all_nth intro: nth_equalityI)
qed

lemma does_create: "does (CreateDraftReq cmd) (CreateDraft cmd)"
proof -
  have "does (CreateDraftReq cmd) (WithinTx (create_tx cmd))"
  proof (rule doesI)
    fix w r w' assume run: "WithinTx (create_tx cmd) w = (r, w')" and tx: "w_tx w = None"
    from run tx create_db_only show "outcome (CreateDraftReq cmd) w (isl r) w'"
    proof (cases rule: WithinTx_cases)
      case (committed a w1 w2)
      then have "created_by (CreateDraftReq cmd) w (w_db w')" unfolding created_by_def
        by (intro exI [of _ cmd] exI [of _ a] exI [of _ w1] exI [of _ w2]) simp
      then show ?thesis by (simp add: outcome_def)
    qed (simp add: outcome_same)
  qed
  then show ?thesis
    unfolding CreateDraft_def
    by (intro does_after_read_seq does_then_post db_only_rules reads_validation) (auto intro!: post_rules)
qed

lemma does_UpdateMaint: "does (UpdateMaintReq cmd) (UpdateMaint cmd)"
proof -
  let ?req = "UpdateMaintReq cmd"
  let ?k = "\<lambda>prev current. obind (read_world (\<lambda>w. time_rfc3339 (w_env w))) (\<lambda>f.
      let changes = maintUpdateChanges f prev current cmd in
      if changes \<noteq> [] then publishAudit (AuditMaintUpdated (uc_actor cmd) current changes) else ret ())"
  have "does ?req (obind (updateWithApply (uc_maint_id cmd) (applyUpdate ts cmd)) (\<lambda>(prev, current, _). ?k prev current))"
    if "map nt_channel_id ts = uc_notify_targets cmd" for ts
    by (intro does_then_post update_change.does_updateWithApply) (use that in \<open>auto simp: Let_def intro!: post_rules\<close>)
  then have "does ?req (obind (ResolveNotifyTarget (uc_maint_id cmd) (uc_notify_targets cmd)) (\<lambda>ts.
      obind (updateWithApply (uc_maint_id cmd) (applyUpdate ts cmd)) (\<lambda>(prev, current, _). ?k prev current)))"
    using post_InrD [OF resolved_channels] by (blast intro: does_after_read [OF targets_db_only(6) reads_validation(4)])
  moreover have "db_only (case uc_approver cmd of None \<Rightarrow> ret () | Some a \<Rightarrow> validateApprover a)"
      "fixes_of (\<lambda>d. d) (case uc_approver cmd of None \<Rightarrow> ret () | Some a \<Rightarrow> validateApprover a)"
    by (auto intro!: db_only_rules fix_rules reads_validation split: option.split)
  ultimately show ?thesis
    unfolding UpdateMaint_def
    by (intro does_after_read_seq [OF validate_db_only(5) reads_validation(2)] does_after_read_seq)
qed

lemma does_ApproveMaint: "does (ApproveMaintReq cmd) (ApproveMaint cmd)"
proof (cases "ac_actor cmd")
  case None
  then show ?thesis by (intro does_fails) (simp add: ApproveMaint_def raise_def)
next
  case (Some actor)
  have "does (ApproveMaintReq cmd) (ocatch (updateWithApplySerializable (ac_maint_id cmd) (approve_apply cmd actor))
         (\<lambda>e. if e = PgSerializationFailure then raise ErrConcurrentModification else raise e))"
    by (rule does_catch [OF approve_change.does_updateWithApply(2)]) (auto simp: raise_def)
  with Some show ?thesis
    by (simp add: ApproveMaint_def) (intro does_then_post, auto intro!: post_rules)
qed

lemma does_cancelMaint:
  assumes "guarded_change (cancel_apply cmd can)" "request_maint req = xc_maint_id cmd" "may_skip req"
    and "\<And>m w m' x w'. cancel_apply cmd can m w = (Inr (m', x), w') \<Longrightarrow> applies req m w m' w'"
  shows "does req (cancelMaint cmd can)"
  unfolding cancelMaint_def
  by (intro does_skip does_then_post guarded_change.does_updateWithApply assms) (auto intro: post_rules)

lemma does_steps:
  assumes "guarded_change (step_apply mid g)" "request_maint req = mid"
    and "\<And>m w m' x w'. step_apply mid g m w = (Inr (m', x), w') \<Longrightarrow> applies req m w m' w'"
  shows "does req (obind (updateStepWithApply mid g) (\<lambda>(m, curr). for_each curr (\<lambda>s. publishAudit (a m s))))"
proof -
  have "does req (updateStepWithApply mid g)"
    unfolding updateStepWithApply_def
    by (intro does_then_post guarded_change.does_updateWithApply assms) (auto intro!: post_rules)
  then show ?thesis by (intro does_then_post) (auto intro!: post_rules)
qed

lemma does_serve: "does req (serve req)"
proof (cases req)
  case (CreateDraftReq cmd)
  then show ?thesis unfolding serve_def osequel_def
    by simp (intro does_then_post does_create, auto intro: post_rules)
next
  case (StartMaintReq cmd)
  then show ?thesis
    by (simp add: serve_def StartMaint_def)
      (intro does_then_post start_change.does_updateWithApply, auto intro: post_rules)
next
  case (CancelMaintReq cmd)
  then show ?thesis
    by (simp add: serve_def CancelMaint_def does_cancelMaint [OF cancel_change.guarded_change_axioms])
next
  case (CompleteMaintReq cmd)
  then show ?thesis
    by (simp add: serve_def CompleteMaint_def)
      (intro does_skip does_then_post complete_change.does_updateWithApply, auto intro: post_rules)
next
  case (AutoCancelReq m)
  then show ?thesis by (simp add: serve_def does_cancelMaint [OF sweep_change.guarded_change_axioms] sweep_cmd_def)
next
  case (StartStepReq cmd)
  then show ?thesis
    by (simp add: serve_def StartStep_def) (rule does_steps [OF start_step_change.guarded_change_axioms], auto)
next
  case (CompleteStepReq cmd)
  then show ?thesis
    by (simp add: serve_def CompleteStep_def) (rule does_steps [OF finish_step_change.guarded_change_axioms], auto)
next
  case (CancelStepReq cmd)
  then show ?thesis
    by (simp add: serve_def CancelStep_def) (rule does_steps [OF finish_step_change.guarded_change_axioms], auto)
qed (simp_all add: serve_def does_UpdateMaint does_ApproveMaint)

lemmas serve_outcome = doesD [OF does_serve]

section \<open>The runs of a create and of an edit\<close>

lemma obind_InrE:
  assumes "obind m k w = (Inr b, w')"
  obtains a w1 where "m w = (Inr a, w1)" "k a w1 = (Inr b, w')"
  using assms by (auto simp: obind_def split: prod.splits sum.splits)

lemma osequel_InrE:
  assumes "osequel m k w = (Inr b, w')"
  obtains a w1 where "m w = (Inr a, w1)" "k w1 = (Inr b, w')"
  using assms unfolding osequel_def by (rule obind_InrE)

lemma osequel_unitE:
  assumes "osequel m k w = (Inr b, w')"
  obtains w1 where "m w = (Inr (), w1)" "k w1 = (Inr b, w')"
  using osequel_InrE [OF assms] by (metis (full_types) old.unit.exhaust)

lemma fixes_reads: "fixes_of (\<lambda>d. d) m \<Longrightarrow> fixes_of f m"
  unfolding fixes_of_def keeps_def by metis

lemma fixes_creates:
  "(\<And>d x. f (d\<lparr>d_targets := x\<rparr>) = f d) \<Longrightarrow> fixes_of f (targets_Create mid ins)"
  "(\<And>d x. f (d\<lparr>d_deferred := x\<rparr>) = f d) \<Longrightarrow> fixes_of f (deferred_Create mid ns)"
  unfolding targets_Create_def deferred_Create_def
  by (intro fix_rules fixes_targets fixes_reads [OF reads_validation(4)] fixes_deferred; simp)+

lemma fixes_replaces:
  "(\<And>d x. f (d\<lparr>d_steps := x\<rparr>) = f d) \<Longrightarrow> fixes_of f (if b then replaceSteps m else ret ())"
  "(\<And>d x. f (d\<lparr>d_resources_of := x\<rparr>) = f d) \<Longrightarrow> fixes_of f (if b then replaceResources m else ret ())"
  "(\<And>d x. f (d\<lparr>d_targets := x\<rparr>) = f d) \<Longrightarrow> fixes_of f (if b then targets_Replace mid ts else ret ())"
  "(\<And>d x. f (d\<lparr>d_deferred := x\<rparr>) = f d) \<Longrightarrow> (\<And>d x. f (d\<lparr>d_tasks := x\<rparr>) = f d) \<Longrightarrow>
     fixes_of f (if b then deferred_Replace mid ns else ret ())"
  "(\<And>d x. f (d\<lparr>d_mentions := x\<rparr>) = f d) \<Longrightarrow> fixes_of f (if b then replaceMentions m else ret ())"
  unfolding replaceSteps_def replaceResources_def deferred_Replace_def replaceMentions_def
  by (intro fix_rules fixes_steps fixes_resources fixes_targets_Replace fixes_queue fixes_deferred fixes_mentions; simp)+

lemma update_row_ids [simp]: "map mt_id (d_maints (update_row r d)) = map mt_id (d_maints d)"
    "has_maint (update_row r d) i \<longleftrightarrow> has_maint d i"
proof -
  show ids: "map mt_id (d_maints (update_row r d)) = map mt_id (d_maints d)" by (simp add: update_row_def)
  show "has_maint (update_row r d) i \<longleftrightarrow> has_maint d i" unfolding has_maint_def ids ..
qed

lemma update_row_children [simp]:
  "d_steps (update_row r d) = d_steps d" "d_resources_of (update_row r d) = d_resources_of d"
  "d_deferred (update_row r d) = d_deferred d" "d_mentions (update_row r d) = d_mentions d"
  "d_targets (update_row r d) = d_targets d" "d_tasks (update_row r d) = d_tasks d"
  "d_snapshots (update_row r d) = d_snapshots d"
  by (simp_all add: update_row_def)

text \<open>What \<open>CreateDraft\<close> stores of the resources: none for a global maintenance.\<close>

definition kept_resources :: "create_cmd \<Rightarrow> uuid list" where
  "kept_resources cmd = (if cc_scope cmd = ScopeGlobal then [] else cc_resources cmd)"

definition new_row :: "create_cmd \<Rightarrow> world \<Rightarrow> maint_row" where
  "new_row cmd w = pg_maint_row (w_env w) ((toDBMaintenance (draft_of cmd))\<lparr>mt_id := gen (w_env w) (w_tick w) 0,
     mt_created_at := clock (w_env w) (w_tick w)\<rparr>)"

lemma new_row_fields [simp]:
  "mt_status (new_row cmd w) = StatusDraft" "mt_scope (new_row cmd w) = cc_scope cmd" "mt_title (new_row cmd w) = cc_title cmd"
  "mt_approver (new_row cmd w) = cc_approver cmd" "mt_actual (new_row cmd w) = None"
  "mt_planned (new_row cmd w) = pg_period (w_env w) (cc_planned cmd)"
  by (simp_all add: new_row_def draft_of_def toDBMaintenance_def deref_actual_def) (simp add: pg_maint_row_def)

lemma CreateMaint_run:
  assumes "CreateMaint (draft_of cmd) w = (Inr m0, w1)"
  shows "m0 = fromDBMaintenance (new_row cmd w)" "w_db w1 = (w_db w)\<lparr>d_maints := d_maints (w_db w) @ [new_row cmd w]\<rparr>"
    "\<not> has_maint (w_db w) (mt_id (new_row cmd w))" "row_ok (new_row cmd w)"
  using assms by (auto simp: CreateMaint_def db_call_def Let_def new_row_def split: option.splits if_splits)

lemma create_run:
  assumes "create_tx cmd w = (Inr m, w')"
  obtains mid w1 w2 w3 w4 w5 steps ts ds where "mid = mt_id (new_row cmd w)"
    "w_db w1 = (w_db w)\<lparr>d_maints := d_maints (w_db w) @ [new_row cmd w]\<rparr>" "w_env w1 = w_env w" "\<not> has_maint (w_db w) mid"
    "AddResources mid (kept_resources cmd) w1 = (Inr (), w2)"
    "AddSteps mid (stepsFromCmd (cc_steps cmd) StepPlanned) w2 = (Inr steps, w3)"
    "targets_Create mid (cc_notify_targets cmd) w3 = (Inr ts, w4)"
    "deferred_Create mid (deferredNotificationsFromCmd mid (cc_deferred cmd)) w4 = (Inr ds, w5)"
    "AddMentions mid (uniq (cc_mentions cmd)) w5 = (Inr (), w')"
    "m = (fromDBMaintenance (new_row cmd w))\<lparr>m_resources := kept_resources cmd, m_steps := steps, m_notify_targets := ts,
       m_deferred := ds, m_mentions := uniq (cc_mentions cmd)\<rparr>"
proof -
  from assms obtain m0 w1 where c: "CreateMaint (draft_of cmd) w = (Inr m0, w1)"
    unfolding create_tx_def by (rule obind_InrE)
  note cr = CreateMaint_run [OF c]
  define n where "n = Normalize (m0\<lparr>m_resources := cc_resources cmd\<rparr>)"
  have n: "n = m0\<lparr>m_resources := kept_resources cmd\<rparr>"
    by (simp add: n_def Normalize_def kept_resources_def cr(1) fromDBMaintenance_def)
  then have id: "m_id n = mt_id (new_row cmd w)" by (simp add: cr(1) fromDBMaintenance_def)
  have skip: "(if rs \<noteq> [] then AddResources x rs else ret ()) = AddResources x rs" for rs x
    by (simp add: AddResources_def)
  from assms c have "osequel (AddResources (m_id n) (m_resources n))
     (obind (AddSteps (m_id n) (stepsFromCmd (cc_steps cmd) StepPlanned)) (\<lambda>steps.
      obind (targets_Create (m_id n) (cc_notify_targets cmd)) (\<lambda>ts.
      obind (deferred_Create (m_id n) (deferredNotificationsFromCmd (m_id n) (cc_deferred cmd))) (\<lambda>ds.
      osequel (AddMentions (m_id n) (uniq (cc_mentions cmd)))
      (ret (n\<lparr>m_steps := steps, m_notify_targets := ts, m_deferred := ds, m_mentions := uniq (cc_mentions cmd)\<rparr>)))))) w1
      = (Inr m, w')"
    unfolding create_tx_def Let_def n_def skip by (simp add: obind_def)
  then show thesis unfolding id
    using cr(2,3) that c [THEN db_onlyD [OF maint_store_db_only(1)]]
    by (elim osequel_InrE obind_InrE) (auto simp: n cr(1) ret_def same_frame_def)
qed

lemma edit_run:
  assumes "applyUpdate ts cmd m w = (Inr (m', ()), w')"
  obtains w1 w2 w3 w4 where "m_status m = StatusDraft" "applyValuesFromUpdateCmd m ts cmd = Some m'"
    "(if uc_steps cmd \<noteq> [] then replaceSteps m' else ret ()) w = (Inr (), w1)"
    "(if uc_resources cmd \<noteq> [] \<or> uc_scope cmd = Some ScopeGlobal then replaceResources m' else ret ()) w1 = (Inr (), w2)"
    "(if uc_notify_targets cmd \<noteq> [] then targets_Replace (m_id m') (m_notify_targets m') else ret ()) w2 = (Inr (), w3)"
    "(if uc_deferred cmd \<noteq> None then deferred_Replace (m_id m') (m_deferred m') else ret ()) w3 = (Inr (), w4)"
    "(if uc_mentions cmd \<noteq> None then replaceMentions m' else ret ()) w4 = (Inr (), w')"
proof -
  from assms have d: "m_status m = StatusDraft" by (auto simp: applyUpdate_def raise_def split: if_splits)
  with assms obtain m1 where m1: "applyValuesFromUpdateCmd m ts cmd = Some m1"
      and run: "osequel (replace_children cmd m1) (ret (m1, ())) w = (Inr (m', ()), w')"
    by (auto simp: applyUpdate_def raise_def split: option.splits)
  from run have "m1 = m'" and rep: "replace_children cmd m' w = (Inr (), w')"
    by (auto elim!: osequel_InrE simp: ret_def)
  with m1 have m': "applyValuesFromUpdateCmd m ts cmd = Some m'" by simp
  from rep show thesis unfolding replace_children_def by (elim osequel_unitE) (rule that [OF d m'])
qed

section \<open>Status and tables of a change\<close>

text \<open>The status a request takes a maintenance to, if it is let through at all.\<close>

fun status_after :: "request \<Rightarrow> maint_status \<Rightarrow> maint_status option" where
  "status_after (CreateDraftReq _) s = None"
| "status_after (UpdateMaintReq _) s = (if s = StatusDraft then Some StatusDraft else None)"
| "status_after (ApproveMaintReq _) s = (if s = StatusDraft then Some StatusPlanned else None)"
| "status_after (StartMaintReq _) s = (if s = StatusPlanned then Some StatusInProgress else None)"
| "status_after (CancelMaintReq _) s = (if \<not> IsTerminal s then Some StatusCancelled else None)"
| "status_after (CompleteMaintReq _) s = (if s = StatusInProgress then Some StatusCompleted else None)"
| "status_after (AutoCancelReq _) s = (if s = StatusDraft \<or> s = StatusPlanned then Some StatusCancelled else None)"
| "status_after (StartStepReq _) s = (if s = StatusInProgress then Some StatusInProgress else None)"
| "status_after (CompleteStepReq _) s = (if s = StatusInProgress then Some StatusInProgress else None)"
| "status_after (CancelStepReq _) s = (if s = StatusInProgress then Some StatusInProgress else None)"

fun takes_step :: "request \<Rightarrow> bool" where
  "takes_step (StartStepReq _) = True"
| "takes_step (CompleteStepReq _) = True"
| "takes_step (CancelStepReq _) = True"
| "takes_step _ = False"

fun edits :: "request \<Rightarrow> bool" where
  "edits (UpdateMaintReq _) = True"
| "edits _ = False"

fun approves :: "request \<Rightarrow> bool" where
  "approves (ApproveMaintReq _) = True"
| "approves _ = False"

lemma transition_sources:
  "CanMaintTransition s StatusInProgress \<longleftrightarrow> s = StatusPlanned" "CanMaintTransition s StatusCompleted \<longleftrightarrow> s = StatusInProgress"
  "CanMaintTransition s StatusCancelled \<longleftrightarrow> \<not> IsTerminal s"
  by (cases s; simp add: maint_transition_defs IsTerminal_def)+

lemma step_apply_same:
  "step_apply mid g m w = (Inr (m', ss), w') \<Longrightarrow> m' = m \<and> m_status m = StatusInProgress"
  by (auto simp: step_apply_def raise_def ret_def elim!: obind_InrE split: if_splits)

lemma applies_status:
  assumes "applies req m w m' w'"
  shows "status_after req (m_status m) = Some (m_status m')"
proof (cases req)
  case (UpdateMaintReq cmd)
  with assms applyValues_fields(2) show ?thesis by (auto elim!: edit_run)
next
  case (ApproveMaintReq cmd)
  with assms show ?thesis
    by (auto simp: approve_apply_def draft_only loadResources_def raise_def ret_def elim!: obind_InrE osequel_InrE split: if_splits)
next
  case (CancelMaintReq cmd)
  with assms show ?thesis
    by (auto simp: cancel_apply_def can_cancel_def transition_sources raise_def ret_def elim!: obind_InrE osequel_InrE split: if_splits)
next
  case (AutoCancelReq x)
  with assms show ?thesis
    by (auto simp: cancel_apply_def not_started_def raise_def ret_def elim!: obind_InrE osequel_InrE split: if_splits)
qed (use assms in \<open>auto dest!: step_apply_same simp: start_apply_def complete_apply_def transition_sources raise_def ret_def Let_def
    elim!: obind_InrE split: if_splits\<close>)

lemma applies_fixes:
  assumes "applies req m w m' w'" "\<not> edits req"
    and "takes_step req \<Longrightarrow> (\<And>d x. f (d\<lparr>d_steps := x\<rparr>) = f d)"
    and "approves req \<Longrightarrow> (\<forall>d x. f (d\<lparr>d_snapshots := x\<rparr>) = f d) \<and> (\<forall>d x. f (d\<lparr>d_tasks := x\<rparr>) = f d)
       \<and> (\<forall>d x. f (d\<lparr>d_deferred := x\<rparr>) = f d)"
  shows "f (w_db w') = f (w_db w)"
proof -
  note lift = fixesD [where f = f]
  show ?thesis
  proof (cases req)
    case (ApproveMaintReq cmd)
    with assms(1) obtain actor where run: "approve_apply cmd actor m w = (Inr (m', ()), w')" by auto
    show ?thesis by (rule lift [OF fixes_approve run]) (use assms(4) ApproveMaintReq in auto)
  next
    case (StartMaintReq cmd)
    with assms(1) lift [OF lifecycle_fixes(1)] show ?thesis by simp
  next
    case (CancelMaintReq cmd)
    with assms(1) lift [OF lifecycle_fixes(3) [OF lifecycle_fixes(4)]] show ?thesis by simp
  next
    case (CompleteMaintReq cmd)
    with assms(1) lift [OF lifecycle_fixes(2)] show ?thesis by simp
  next
    case (AutoCancelReq x)
    with assms(1) lift [OF lifecycle_fixes(3) [OF lifecycle_fixes(5)]] show ?thesis by simp
  next
    case (StartStepReq cmd)
    with assms(1,3) lift [OF fixes_step [OF _ fixes_step_choice(1)]] show ?thesis by fastforce
  next
    case (CompleteStepReq cmd)
    with assms(1,3) lift [OF fixes_step [OF _ fixes_step_choice(2)]] show ?thesis by fastforce
  next
    case (CancelStepReq cmd)
    with assms(1,3) lift [OF fixes_step [OF _ fixes_step_choice(2)]] show ?thesis by fastforce
  qed (use assms(1,2) in simp_all)
qed

section \<open>Invariants of reachable states\<close>

locale service_invariant =
  fixes I :: "db \<Rightarrow> bool"
  assumes inv_tables: "maint_tables d' = maint_tables d \<Longrightarrow> I d \<Longrightarrow> I d'"
    and inv_empty: "I empty_db"
    and inv_create: "create_tx cmd w = (Inr m, w') \<Longrightarrow> rows_inv (w_db w) \<Longrightarrow> I (w_db w) \<Longrightarrow> I (w_db w')"
    and inv_change: "applies req (fromDBMaintenance row) w m' w' \<Longrightarrow> find_maint (w_db w) (request_maint req) = Some row
      \<Longrightarrow> w_tx w \<noteq> None \<Longrightarrow> rows_inv (w_db w) \<Longrightarrow> I (w_db w) \<Longrightarrow> d_maints (w_db w') = d_maints (w_db w)
      \<Longrightarrow> m_id m' = request_maint req \<Longrightarrow> I (update_row (written (w_env w) now m') (w_db w'))"
begin

lemma inv_outcome:
  assumes "outcome req w f w'" "rows_inv (w_db w)" "I (w_db w)"
  shows "I (w_db w')"
  using assms(1) unfolding outcome_def
proof (elim disjE)
  assume "created_by req w (w_db w')"
  then show ?thesis
    using assms(2,3) inv_create inv_tables unfolding created_by_def by metis
next
  assume "changed_by req w (w_db w')"
  then obtain row w2 w3 m' now where "find_maint (w_db w) (request_maint req) = Some row"
     "w_db w2 = w_db w" "w_env w2 = w_env w" "w_tx w2 = Some (w_db w)" "applies req (fromDBMaintenance row) w2 m' w3"
     "d_maints (w_db w3) = d_maints (w_db w)" "m_id m' = request_maint req"
     "maint_tables (w_db w') = maint_tables (update_row (written (w_env w) now m') (w_db w3))"
    unfolding changed_by_def by blast
  then show ?thesis using inv_change [of req row w2 m' w3 now] assms(2,3) inv_tables by simp
qed (use assms(3) inv_tables in blast)

lemma inv_step: "service_step w w' \<Longrightarrow> reachable w \<Longrightarrow> I (w_db w) \<Longrightarrow> I (w_db w')"
  using inv_outcome serve_outcome reachable_rows inv_tables by (elim service_stepE) blast+

lemma inv_reachable: "reachable w \<Longrightarrow> I (w_db w)"
proof (induction rule: reachable.induct)
  case (start w)
  then show ?case using inv_empty inv_tables by (auto simp: initial_def)
next
  case (step w w')
  then show ?case using inv_step by blast
qed

end

end
