(* ===== verification/DraftEdit.thy ===== *)
theory DraftEdit
  imports ServiceInvariant
begin

text \<open>
  Editing a draft (\<open>UpdateMaint\<close> of \<open>internal/services/maint\<close>): which of the values of a
  command end up in the tables. A pointer or a slice the command leaves out means
  "unchanged"; a supplied collection replaces the stored one as a whole, through the
  contract \<open>child_table\<close> of each table.
\<close>

section \<open>The collections of one maintenance\<close>

text \<open>One stage of the edit: a conditional delete-all, create-all of one child table.\<close>

context child_table
begin

lemma replace_stage:
  assumes "(if b then osequel (osequel (del mid) (add mid vs)) (ret ()) else ret ()) w = (Inr (), w')"
  shows "content (w_db w') i = (if b \<and> i = mid then added (w_env w) vs else content (w_db w) i)"
proof (cases b)
  case True
  with assms obtain x v where v: "osequel (del mid) (add mid vs) w = (Inr x, v)" "w' = v"
    by (auto simp: ret_def elim!: osequel_InrE [of "osequel m k" for m k])
  have "content (w_db v) mid = added (w_env w) vs" by (rule post_InrD [OF replace_content v(1)])
  moreover have "i \<noteq> mid \<longrightarrow> content (w_db v) i = content (w_db w) i"
    using post_InrD [OF replace_others v(1)] by blast
  ultimately show ?thesis using True v(2) by simp
next
  case False
  with assms show ?thesis by (simp add: ret_def)
qed

end

lemma osequel_ret_unit: "osequel m (ret ()) = m" for m :: "unit op"
  by (auto simp: osequel_def obind_def ret_def fun_eq_iff split: prod.split sum.split)

lemma content_tables:
  "d_resources_of d' = d_resources_of d \<Longrightarrow> resource_ids d' i = resource_ids d i"
  "d_steps d' = d_steps d \<Longrightarrow> step_values d' i = step_values d i"
  "d_targets d' = d_targets d \<Longrightarrow> target_channels d' i = target_channels d i"
  "d_deferred d' = d_deferred d \<Longrightarrow> deferred_plan d' i = deferred_plan d i"
  "d_mentions d' = d_mentions d \<Longrightarrow> mention_ids d' i = mention_ids d i"
  by (simp_all add: resource_ids_def step_values_def target_channels_def deferred_plan_def mention_ids_def)

lemma deferred_stage:
  assumes "(if b then deferred_Replace mid ns else ret ()) w = (Inr (), w')"
  shows "deferred_plan (w_db w') i = (if b \<and> i = mid then plan_added (w_env w) ns else deferred_plan (w_db w) i)"
proof (cases b)
  case True
  with assms obtain v where v: "cancelEnqueued mid w = (Inr (), v)"
      "(if True then osequel (osequel (DeleteByMaint mid) (deferred_CreateMany mid ns)) (ret ()) else ret ()) v = (Inr (), w')"
    by (auto simp: deferred_Replace_def elim!: osequel_unitE)
  have "w_env v = w_env w" using db_onlyD [OF deferred_db_only(9) v(1)] by (simp add: same_frame_def)
  moreover have "d_deferred (w_db v) = d_deferred (w_db w)" by (rule fixesD [OF fixes_queue(3) [where f = d_deferred] v(1)]) simp
  ultimately show ?thesis
    using True deferred_tab.replace_stage [OF v(2), of i] content_tables(4) [of "w_db v" "w_db w" i] by simp
qed (use assms in \<open>simp add: ret_def\<close>)

text \<open>What an edit leaves in each table.\<close>

lemma edit_contents:
  assumes "applyUpdate ts cmd m w = (Inr (m', ()), w')" "w_tx w \<noteq> None"
  shows "resource_ids (w_db w') i = (if (uc_resources cmd \<noteq> [] \<or> uc_scope cmd = Some ScopeGlobal) \<and> i = m_id m'
      then uniq (m_resources m') else resource_ids (w_db w) i)"
    and "step_values (w_db w') i = (if uc_steps cmd \<noteq> [] \<and> i = m_id m' then steps_added (m_steps m') else step_values (w_db w) i)"
    and "target_channels (w_db w') i = (if uc_notify_targets cmd \<noteq> [] \<and> i = m_id m' then map nt_channel_id (m_notify_targets m')
      else target_channels (w_db w) i)"
    and "deferred_plan (w_db w') i = (if uc_deferred cmd \<noteq> None \<and> i = m_id m' then plan_added (w_env w) (m_deferred m')
      else deferred_plan (w_db w) i)"
    and "mention_ids (w_db w') i = (if uc_mentions cmd \<noteq> None \<and> i = m_id m' then uniq (m_mentions m') else mention_ids (w_db w) i)"
proof -
  from assms(1) obtain w1 w2 w3 w4 where 1: "m_status m = StatusDraft" "applyValuesFromUpdateCmd m ts cmd = Some m'"
    "(if uc_steps cmd \<noteq> [] then replaceSteps m' else ret ()) w = (Inr (), w1)"
    "(if uc_resources cmd \<noteq> [] \<or> uc_scope cmd = Some ScopeGlobal then replaceResources m' else ret ()) w1 = (Inr (), w2)"
    "(if uc_notify_targets cmd \<noteq> [] then targets_Replace (m_id m') (m_notify_targets m') else ret ()) w2 = (Inr (), w3)"
    "(if uc_deferred cmd \<noteq> None then deferred_Replace (m_id m') (m_deferred m') else ret ()) w3 = (Inr (), w4)"
    "(if uc_mentions cmd \<noteq> None then replaceMentions m' else ret ()) w4 = (Inr (), w')" by (rule edit_run)
  have db: "db_only (if uc_steps cmd \<noteq> [] then replaceSteps m' else ret ())"
      "db_only (if b then replaceResources m' else ret ())" "db_only (if b then targets_Replace mid vs else ret ())" for b mid vs
    by (auto simp: replaceSteps_def replaceResources_def targets_Replace_def intro!: db_only_rules)
  have f1: "same_frame w w1" by (rule db_onlyD [OF db(1) 1(3)])
  have f2: "same_frame w w2" using same_frame_trans [OF f1 db_onlyD [OF db(2) 1(4)]] .
  have f3: "same_frame w w3" using same_frame_trans [OF f2 db_onlyD [OF db(3) 1(5)]] .
  have "(\<lambda>d. (d_resources_of d, d_targets d, d_deferred d, d_mentions d)) (w_db w1) = (\<lambda>d. (d_resources_of d, d_targets d, d_deferred d, d_mentions d)) (w_db w)"
    by (rule fixesD [OF fixes_replaces(1) 1(3)]) simp
  moreover have "(\<lambda>d. (d_steps d, d_targets d, d_deferred d, d_mentions d)) (w_db w2) = (\<lambda>d. (d_steps d, d_targets d, d_deferred d, d_mentions d)) (w_db w1)"
    by (rule fixesD [OF fixes_replaces(2) 1(4)]) simp
  moreover have "(\<lambda>d. (d_resources_of d, d_steps d, d_deferred d, d_mentions d)) (w_db w3) = (\<lambda>d. (d_resources_of d, d_steps d, d_deferred d, d_mentions d)) (w_db w2)"
    by (rule fixesD [OF fixes_replaces(3) 1(5)]) simp
  moreover have "(\<lambda>d. (d_resources_of d, d_targets d, d_steps d, d_mentions d)) (w_db w4) = (\<lambda>d. (d_resources_of d, d_targets d, d_steps d, d_mentions d)) (w_db w3)"
    by (rule fixesD [OF fixes_replaces(4) 1(6)]) simp_all
  moreover have "(\<lambda>d. (d_resources_of d, d_targets d, d_deferred d, d_steps d)) (w_db w') = (\<lambda>d. (d_resources_of d, d_targets d, d_deferred d, d_steps d)) (w_db w4)"
    by (rule fixesD [OF fixes_replaces(5) 1(7)]) simp
  ultimately have same: "d_resources_of (w_db w1) = d_resources_of (w_db w)" "d_resources_of (w_db w') = d_resources_of (w_db w2)"
      "d_steps (w_db w') = d_steps (w_db w1)" "d_targets (w_db w2) = d_targets (w_db w)" "d_targets (w_db w') = d_targets (w_db w3)"
      "d_deferred (w_db w3) = d_deferred (w_db w)" "d_deferred (w_db w') = d_deferred (w_db w4)" "d_mentions (w_db w4) = d_mentions (w_db w)"
    by simp_all
  have s: "step_values (w_db w1) i = (if uc_steps cmd \<noteq> [] \<and> i = m_id m' then steps_added (m_steps m') else step_values (w_db w) i)"
    by (rule steps_tab.replace_stage [OF 1(3) [unfolded replaceSteps_def]])
  have r: "resource_ids (w_db w2) i = (if (uc_resources cmd \<noteq> [] \<or> uc_scope cmd = Some ScopeGlobal) \<and> i = m_id m'
      then uniq (m_resources m') else resource_ids (w_db w1) i)"
    by (rule resources_tab.replace_stage [unfolded osequel_ret_unit, OF 1(4) [unfolded replaceResources_def]])
  have "(if uc_notify_targets cmd \<noteq> [] then targets_replace (m_id m') (m_notify_targets m') else ret ()) w2 = (Inr (), w3)"
    using 1(5) f2 assms(2) by (auto simp: targets_Replace_def WithinTx_nested same_frame_def split: if_splits)
  then have t: "target_channels (w_db w3) i = (if uc_notify_targets cmd \<noteq> [] \<and> i = m_id m' then map nt_channel_id (m_notify_targets m')
      else target_channels (w_db w2) i)"
    unfolding targets_replace_def by (rule targets_tab.replace_stage)
  have d: "deferred_plan (w_db w4) i = (if uc_deferred cmd \<noteq> None \<and> i = m_id m' then plan_added (w_env w) (m_deferred m')
      else deferred_plan (w_db w3) i)"
    using deferred_stage [OF 1(6), of i] f3 by (simp add: same_frame_def)
  have m: "mention_ids (w_db w') i = (if uc_mentions cmd \<noteq> None \<and> i = m_id m' then uniq (m_mentions m') else mention_ids (w_db w4) i)"
    by (rule mentions_tab.replace_stage [unfolded osequel_ret_unit, OF 1(7) [unfolded replaceMentions_def]])
  show "resource_ids (w_db w') i = (if (uc_resources cmd \<noteq> [] \<or> uc_scope cmd = Some ScopeGlobal) \<and> i = m_id m'
      then uniq (m_resources m') else resource_ids (w_db w) i)"
    using r unfolding content_tables(1) [OF same(1)] content_tables(1) [OF same(2)] .
  show "step_values (w_db w') i = (if uc_steps cmd \<noteq> [] \<and> i = m_id m' then steps_added (m_steps m') else step_values (w_db w) i)"
    using s unfolding content_tables(2) [OF same(3)] .
  show "target_channels (w_db w') i = (if uc_notify_targets cmd \<noteq> [] \<and> i = m_id m' then map nt_channel_id (m_notify_targets m')
      else target_channels (w_db w) i)"
    using t unfolding content_tables(3) [OF same(4)] content_tables(3) [OF same(5)] .
  show "deferred_plan (w_db w') i = (if uc_deferred cmd \<noteq> None \<and> i = m_id m' then plan_added (w_env w) (m_deferred m')
      else deferred_plan (w_db w) i)"
    using d unfolding content_tables(4) [OF same(6)] content_tables(4) [OF same(7)] .
  show "mention_ids (w_db w') i = (if uc_mentions cmd \<noteq> None \<and> i = m_id m' then uniq (m_mentions m') else mention_ids (w_db w) i)"
    using m unfolding content_tables(5) [OF same(8)] .
qed

section \<open>The values of the row\<close>

definition given :: "'a option \<Rightarrow> 'a \<Rightarrow> 'a" where
  "given new old = (case new of None \<Rightarrow> old | Some v \<Rightarrow> v)"

lemma given_simps [simp]: "given None old = old" "given (Some v) old = v"
  by (simp_all add: given_def)

lemma set_opt_given: "(\<And>v m. g (f v m) = v) \<Longrightarrow> g (set_opt f x m) = given x (g m)"
  by (simp add: set_opt_def given_def split: option.split)

lemmas edit_keeps = set_opt_keeps [where g = m_title] set_opt_keeps [where g = m_description] set_opt_keeps [where g = m_task_url]
  set_opt_keeps [where g = m_scope] set_opt_keeps [where g = m_impact] set_opt_keeps [where g = m_approver]
  set_opt_keeps [where g = m_resources] set_opt_keeps [where g = m_steps] set_opt_keeps [where g = m_notify_targets]
  set_opt_keeps [where g = m_deferred] set_opt_keeps [where g = m_mentions] set_opt_keeps [where g = m_planned]

lemmas edit_sets = set_opt_given [where g = m_title] set_opt_given [where g = m_description] set_opt_given [where g = m_task_url]
  set_opt_given [where g = m_scope] set_opt_given [where g = m_impact] set_opt_given [where g = m_approver]

lemma before_start_values:
  "m_title (apply_before_start cmd m) = given (uc_title cmd) (m_title m)"
  "m_description (apply_before_start cmd m) = given (uc_description cmd) (m_description m)"
  "m_task_url (apply_before_start cmd m) = given (uc_task_url cmd) (m_task_url m)"
  "m_steps (apply_before_start cmd m) = (if uc_steps cmd \<noteq> [] then stepsFromCmd (uc_steps cmd) StepPlanned else m_steps m)"
  "m_scope (apply_before_start cmd m) = m_scope m" "m_impact (apply_before_start cmd m) = m_impact m"
  "m_approver (apply_before_start cmd m) = m_approver m" "m_resources (apply_before_start cmd m) = m_resources m"
  "m_planned (apply_before_start cmd m) = (if uc_steps cmd \<noteq> []
     then recalculatePlannedPeriod (p_start (m_planned m)) (stepsFromCmd (uc_steps cmd) StepPlanned) else m_planned m)"
  by (simp_all add: apply_before_start_def Let_def edit_keeps edit_sets)

lemma after_start_values:
  "m_title (apply_after_start ts cmd m) = m_title m" "m_description (apply_after_start ts cmd m) = m_description m"
  "m_task_url (apply_after_start ts cmd m) = m_task_url m" "m_steps (apply_after_start ts cmd m) = m_steps m"
  "m_planned (apply_after_start ts cmd m) = m_planned m"
  "m_scope (apply_after_start ts cmd m) = given (uc_scope cmd) (m_scope m)"
  "m_impact (apply_after_start ts cmd m) = given (uc_impact cmd) (m_impact m)"
  "m_approver (apply_after_start ts cmd m) = given (uc_approver cmd) (m_approver m)"
  "m_resources (apply_after_start ts cmd m) = (if given (uc_scope cmd) (m_scope m) = ScopeGlobal then []
     else if uc_resources cmd \<noteq> [] then uc_resources cmd else m_resources m)"
  "ts \<noteq> [] \<Longrightarrow> m_notify_targets (apply_after_start ts cmd m) = ts"
  "uc_deferred cmd = Some ds \<Longrightarrow> m_deferred (apply_after_start ts cmd m) = deferredNotificationsFromCmd (uc_maint_id cmd) ds"
  "uc_mentions cmd = Some us \<Longrightarrow> m_mentions (apply_after_start ts cmd m) = uniq us"
  by (simp_all add: apply_after_start_def Let_def edit_keeps edit_sets Normalize_def)

lemma move_start_values:
  assumes "move_start start m = Some m'"
  shows "m_title m' = m_title m" "m_description m' = m_description m" "m_task_url m' = m_task_url m" "m_steps m' = m_steps m"
    "m_scope m' = m_scope m" "m_impact m' = m_impact m" "m_approver m' = m_approver m" "m_resources m' = m_resources m"
  using assms by (auto simp: move_start_def split: option.splits)

lemma edited_values:
  assumes "applyValuesFromUpdateCmd m ts cmd = Some m'"
  shows "m_title m' = given (uc_title cmd) (m_title m)" "m_description m' = given (uc_description cmd) (m_description m)"
    "m_task_url m' = given (uc_task_url cmd) (m_task_url m)" "m_scope m' = given (uc_scope cmd) (m_scope m)"
    "m_impact m' = given (uc_impact cmd) (m_impact m)" "m_approver m' = given (uc_approver cmd) (m_approver m)"
    "m_resources m' = (if m_scope m' = ScopeGlobal then [] else if uc_resources cmd \<noteq> [] then uc_resources cmd else m_resources m)"
    "uc_steps cmd \<noteq> [] \<Longrightarrow> m_steps m' = stepsFromCmd (uc_steps cmd) StepPlanned"
    "ts \<noteq> [] \<Longrightarrow> m_notify_targets m' = ts"
    "uc_deferred cmd = Some ds \<Longrightarrow> m_deferred m' = deferredNotificationsFromCmd (uc_maint_id cmd) ds"
    "uc_mentions cmd = Some us \<Longrightarrow> m_mentions m' = uniq us"
proof -
  from assms obtain m5 where mv: "move_start (uc_planned_start cmd) (apply_before_start cmd m) = Some m5"
      and m': "m' = apply_after_start ts cmd m5"
    by (auto simp: applyValuesFromUpdateCmd_def)
  note v = move_start_values [OF mv] before_start_values after_start_values
  show "m_title m' = given (uc_title cmd) (m_title m)" "m_description m' = given (uc_description cmd) (m_description m)"
    "m_task_url m' = given (uc_task_url cmd) (m_task_url m)" "m_scope m' = given (uc_scope cmd) (m_scope m)"
    "m_impact m' = given (uc_impact cmd) (m_impact m)" "m_approver m' = given (uc_approver cmd) (m_approver m)"
    "m_resources m' = (if m_scope m' = ScopeGlobal then [] else if uc_resources cmd \<noteq> [] then uc_resources cmd else m_resources m)"
    "uc_steps cmd \<noteq> [] \<Longrightarrow> m_steps m' = stepsFromCmd (uc_steps cmd) StepPlanned"
    "ts \<noteq> [] \<Longrightarrow> m_notify_targets m' = ts"
    "uc_deferred cmd = Some ds \<Longrightarrow> m_deferred m' = deferredNotificationsFromCmd (uc_maint_id cmd) ds"
    "uc_mentions cmd = Some us \<Longrightarrow> m_mentions m' = uniq us"
    by (simp_all add: m' v)
qed

section \<open>The planned period of an edit\<close>

lemma total_duration_sum:
  assumes "\<And>s. s \<in> set steps \<Longrightarrow> 0 \<le> s_duration_minutes s"
    and "(\<Sum>s \<leftarrow> steps. s_duration_minutes s * minute) < 2 ^ 63"
  shows "total_duration steps = (\<Sum>s \<leftarrow> steps. s_duration_minutes s * minute)"
proof -
  have m: "0 \<le> minute" by (simp add: minute_def second_def)
  have fold: "foldl (\<lambda>acc s. i64 (acc + i64 (s_duration_minutes s * minute))) a xs = a + (\<Sum>s \<leftarrow> xs. s_duration_minutes s * minute)"
    if "\<And>s. s \<in> set xs \<Longrightarrow> 0 \<le> s_duration_minutes s" "0 \<le> a" "a + (\<Sum>s \<leftarrow> xs. s_duration_minutes s * minute) < 2 ^ 63"
    for a and xs :: "maint_step list"
    using that
  proof (induction xs arbitrary: a)
    case (Cons x xs)
    let ?x = "s_duration_minutes x * minute"
    have nn: "0 \<le> ?x" "0 \<le> (\<Sum>s \<leftarrow> xs. s_duration_minutes s * minute)"
      using Cons.prems(1) m by (auto intro!: sum_list_nonneg)
    then have "i64 ?x = ?x" "i64 (a + ?x) = a + ?x" using Cons.prems by (auto intro!: i64_id)
    with Cons.IH [of "a + ?x"] Cons.prems nn show ?case by simp
  qed simp
  show ?thesis using fold [of steps 0] assms by (simp add: total_duration_def)
qed

section \<open>A committed edit\<close>

lemma update_run:
  assumes "UpdateMaint cmd w = (Inr (), w')" "w_tx w = None"
  obtains row ts w2 w3 m' now where "find_maint (w_db w) (uc_maint_id cmd) = Some row" "w_db w2 = w_db w" "w_env w2 = w_env w" "w_tx w2 \<noteq> None"
    "map nt_channel_id ts = uc_notify_targets cmd" "applyUpdate ts cmd (fromDBMaintenance row) w2 = (Inr (m', ()), w3)"
    "m_id m' = uc_maint_id cmd" "has_maint (w_db w3) (uc_maint_id cmd)" "d_maints (w_db w3) = d_maints (w_db w)"
    "w_db w' = update_row (written (w_env w) now m') (w_db w3)"
proof -
  let ?appr = "case uc_approver cmd of None \<Rightarrow> ret () | Some a \<Rightarrow> validateApprover a"
  have reads: "db_only ?appr" "fixes_of (\<lambda>d. d) ?appr"
    by (auto intro!: db_only_rules fix_rules reads_validation split: option.split)
  from assms(1) obtain v1 v2 v3 v4 ts prev current where run: "validateUpdate cmd w = (Inr (), v1)" "?appr v1 = (Inr (), v2)"
      "ResolveNotifyTarget (uc_maint_id cmd) (uc_notify_targets cmd) v2 = (Inr ts, v3)"
      "updateWithApply (uc_maint_id cmd) (applyUpdate ts cmd) v3 = (Inr (prev, current, ()), v4)" "w_db w' = w_db v4"
  proof -
    have audit: "w_db u' = w_db u"
      if "obind (read_world (\<lambda>w. time_rfc3339 (w_env w))) (\<lambda>f. if c f \<noteq> [] then publishAudit (a f) else ret ()) u = (Inr (), u')"
      for c :: "(time \<Rightarrow> string) \<Rightarrow> audit_change list" and a u u'
      using that publishAudit_result [of "a (time_rfc3339 (w_env u))" u]
      by (cases "c (time_rfc3339 (w_env u)) = []") (auto simp: ret_def obind_def read_world_def)
    from assms(1) show thesis unfolding UpdateMaint_def Let_def
      by (elim osequel_unitE obind_InrE [of "ResolveNotifyTarget mid i" for mid i] obind_InrE [of "updateWithApply mid i" for mid i])
        (auto dest: audit intro!: that)
  qed
  have fr: "same_frame w v3" "w_db v3 = w_db w"
    using db_onlyD [OF validate_db_only(5) run(1)] db_onlyD [OF reads(1) run(2)] db_onlyD [OF targets_db_only(6) run(3)]
      fixesD [OF reads_validation(2) run(1)] fixesD [OF reads(2) run(2)] fixesD [OF reads_validation(4) run(3)]
    by (auto intro: same_frame_trans)
  from run(4) have "runUpdateWithApply WithinTx (uc_maint_id cmd) (applyUpdate ts cmd) v3 = (Inr (prev, current, ()), v4)"
    by (simp add: updateWithApply_def)
  then show thesis
  proof (rule runUpdate_cases)
    show "w_tx v3 = None" using fr assms(2) by (simp add: same_frame_def)
    show "db_only (applyUpdate ts cmd m)" for m by (rule db_only_rules)
    fix prev' current' x u
    assume c: "Inr (prev, current, ()) = (Inr (prev', current', x) :: apperr + _)"
      "updated_by (uc_maint_id cmd) (applyUpdate ts cmd) v3 prev' current' x (w_db u)" "dispatchMaintLifecycle prev' current' u = (Inr (), v4)"
    have e3: "w_db v3 = w_db w" "w_env v3 = w_env w" using fr by (auto simp: same_frame_def)
    from c(2) [unfolded updated_by_def e3] obtain row w2 w3 m' now where u: "find_maint (w_db w) (uc_maint_id cmd) = Some row"
        "prev' = fromDBMaintenance row" "w_db w2 = w_db w" "w_env w2 = w_env w" "w_tx w2 = Some (w_db w)"
        "applyUpdate ts cmd prev' w2 = (Inr (m', x), w3)"
        "current' = m'\<lparr>m_updated_at := Some now\<rparr>"
        "if has_maint (w_db w3) (m_id m') then row_ok (written (w_env w) now m')
          \<and> w_db u = update_row (written (w_env w) now m') (w_db w3) else w_db u = w_db w3"
      by blast
    have maints: "d_maints (w_db w3) = d_maints (w_db w)"
      using post_InrD [OF update_change.app_maints u(6)] u(3) by simp
    have fields: "m_id m' = uc_maint_id cmd" "m_status prev' = StatusDraft" "m_status m' = StatusDraft"
      using u(6) find_maint_Some [OF u(1)] applyValues_fields(1,2)
      by (auto simp: u(2) fromDBMaintenance_def elim!: edit_run)
    have has: "has_maint (w_db w3) (uc_maint_id cmd)"
      using maints find_maint_Some [OF u(1)] by (auto simp: has_maint_def intro: rev_image_eqI)
    have "v4 = u" using c(3) fields by (simp add: dispatchMaintLifecycle_def maintLifecycleEvent_def u(7) ret_def)
    with u(8) has fields(1) run(5) have "w_db w' = update_row (written (w_env w) now m') (w_db w3)" by simp
    with u fields has maints post_InrD [OF resolved_channels run(3)] show thesis
      by (intro that [of row w2 ts m' w3 now]) auto
  qed simp_all
qed

section \<open>Properties\<close>

definition sample_update :: update_cmd where
  "sample_update = \<lparr>uc_maint_id = 601, uc_title = Some ''new'', uc_description = None, uc_planned_start = None, uc_scope = None,
     uc_impact = None, uc_resources = [], uc_steps = [], uc_notify_targets = [], uc_deferred = Some [], uc_mentions = None,
     uc_approver = None, uc_task_url = None, uc_actor = SystemUser\<rparr>"


lemma sample_updated: "fst (UpdateMaint sample_update (after [CreateDraftReq sample_create])) = Inr ()"
  by code_simp


text \<open>The planned period of an edited draft: it starts where the command says, or where it did, and it lasts
  the sum of the steps the command supplies, or as long as it did; with durations of at least a minute whose
  sum fits a 64-bit nanosecond count nothing wraps and the period stays closed.\<close>

theorem edit_planned_period:
  assumes "applyValuesFromUpdateCmd m ts cmd = Some m'" "p_end (m_planned m) = Some e"
    and "\<forall>s \<in> set (uc_steps cmd). 1 \<le> si_duration_minutes s" "(\<Sum>s \<leftarrow> uc_steps cmd. si_duration_minutes s * minute) < 2 ^ 63"
    and "0 \<le> e - p_start (m_planned m)" "e - p_start (m_planned m) < 2 ^ 63"
  shows "m_planned m' = (let start = given (uc_planned_start cmd) (p_start (m_planned m));
       lasts = (if uc_steps cmd \<noteq> [] then (\<Sum>s \<leftarrow> uc_steps cmd. si_duration_minutes s * minute) else e - p_start (m_planned m))
     in NewPeriod start (start + lasts))"
proof -
  let ?sum = "\<Sum>s \<leftarrow> uc_steps cmd. si_duration_minutes s * minute" and ?b = "apply_before_start cmd m"
  let ?steps = "stepsFromCmd (uc_steps cmd) StepPlanned" and ?start = "p_start (m_planned m)"
  have sum: "(\<Sum>s \<leftarrow> ?steps. s_duration_minutes s * minute) = ?sum" by (simp add: stepsFromCmd_def comp_def)
  have total: "total_duration ?steps = ?sum"
    using assms(3,4) sum total_duration_sum [of ?steps] by (force simp: stepsFromCmd_def)
  have min: "0 < minute" by (simp add: minute_def second_def)
  have pos: "0 < ?sum" if "uc_steps cmd \<noteq> []"
  proof -
    from that obtain s ss where ss: "uc_steps cmd = s # ss" by (meson neq_Nil_conv)
    have "0 \<le> (\<Sum>x \<leftarrow> ss. si_duration_minutes x * minute)" using assms(3) min by (force simp: ss intro!: sum_list_nonneg mult_nonneg_nonneg)
    moreover have "0 < si_duration_minutes s * minute" using assms(3) min by (simp add: ss)
    ultimately show ?thesis by (simp add: ss)
  qed
  define lasts where "lasts = (if uc_steps cmd \<noteq> [] then ?sum else e - ?start)"
  have b: "m_planned ?b = NewPeriod ?start (?start + lasts)"
  proof (cases "uc_steps cmd = []")
    case True
    with assms(2) show ?thesis by (cases "m_planned m") (simp add: before_start_values(9) lasts_def NewPeriod_def)
  next
    case False
    with pos total show ?thesis by (simp add: before_start_values(9) recalculatePlannedPeriod_def Let_def lasts_def)
  qed
  have "0 \<le> lasts" "lasts < 2 ^ 63" using pos assms(4,5,6) by (auto simp: lasts_def)
  then have dur: "Duration (m_planned ?b) = Some lasts" unfolding b by (simp add: Duration_def NewPeriod_def time_sub_def)
  from assms(1) obtain m5 where mv: "move_start (uc_planned_start cmd) ?b = Some m5" and m': "m' = apply_after_start ts cmd m5"
    by (auto simp: applyValuesFromUpdateCmd_def)
  have "m_planned m5 = NewPeriod (given (uc_planned_start cmd) ?start) (given (uc_planned_start cmd) ?start + lasts)"
    using mv b dur by (cases "uc_planned_start cmd") (auto simp: move_start_def)
  then show ?thesis by (simp add: m' after_start_values(5) Let_def lasts_def)
qed

theorem edit_planned_period_witness:
  "\<exists>m'. applyValuesFromUpdateCmd (draft_of sample_create) [] (sample_update\<lparr>uc_planned_start := Some (200 * second)\<rparr>) = Some m'
    \<and> m_planned m' = NewPeriod (200 * second) (500 * second)"
proof -
  let ?cmd = "sample_update\<lparr>uc_planned_start := Some (200 * second)\<rparr>"
  have "applyValuesFromUpdateCmd (draft_of sample_create) [] ?cmd \<noteq> None" by code_simp
  then obtain m' where m': "applyValuesFromUpdateCmd (draft_of sample_create) [] ?cmd = Some m'" by blast
  with edit_planned_period [OF m'] show ?thesis
    by (simp add: draft_of_def sample_create_def sample_update_def NewPeriod_def second_def)
qed

end
