(* ===== verification/ChildTables.thy ===== *)
theory ChildTables
  imports DraftEdit
begin

text \<open>
  Two invariants of the child tables over every run: a global maintenance never holds
  resources (\<open>Normalize\<close> of \<open>internal/entity\<close>), and the reminders of a draft are not
  queued (they are scheduled by the approval, in its transaction).
\<close>

section \<open>Global maintenances hold no resources\<close>

lemma applies_scope:
  assumes "applies req m w m' w'" "\<not> edits req"
  shows "m_scope m' = m_scope m"
proof -
  have c: "m_scope (CloseActualPeriod x t) = m_scope x" for x t
    by (auto simp: CloseActualPeriod_def set_actual_end_def split: option.split period_ptr.split)
  show ?thesis
  proof (cases req)
    case (ApproveMaintReq cmd)
    with assms show ?thesis
      by (auto simp: approve_apply_def loadResources_def raise_def ret_def elim!: obind_InrE osequel_InrE split: if_splits)
  qed (use assms in \<open>auto dest!: step_apply_same simp: start_apply_def cancel_apply_def complete_apply_def raise_def ret_def Let_def c
    elim!: obind_InrE osequel_InrE split: if_splits\<close>)
qed

definition global_inv :: "db \<Rightarrow> bool" where
  "global_inv d \<longleftrightarrow> (\<forall>i. resource_ids d i \<noteq> [] \<longrightarrow> has_maint d i)
     \<and> (\<forall>r \<in> set (d_maints d). mt_scope r = ScopeGlobal \<longrightarrow> resource_ids d (mt_id r) = [])"

text \<open>An invariant of this shape survives the write of one row when it holds of that row's collection.\<close>

lemma global_inv_write:
  assumes "global_inv d" "d_maints d1 = d_maints d" "has_maint d (mt_id r')"
    and "\<And>i. i \<noteq> mt_id r' \<Longrightarrow> resource_ids d1 i = resource_ids d i"
    and "mt_scope r' = ScopeGlobal \<Longrightarrow> resource_ids d1 (mt_id r') = []"
  shows "global_inv (update_row r' d1)"
proof -
  have same: "resource_ids (update_row r' d1) i = resource_ids d1 i" for i by (rule content_tables) simp
  have "has_maint d1 i" if "resource_ids d1 i \<noteq> []" for i
    using that assms(1-4) by (cases "i = mt_id r'") (auto simp: global_inv_def has_maint_def)
  moreover have "resource_ids d1 (mt_id r) = []" if "r \<in> set (d_maints (update_row r' d1))" "mt_scope r = ScopeGlobal" for r
  proof (cases "mt_id r = mt_id r'")
    case True
    with that(1) have "r = r'" by (auto simp: update_row_def split: if_splits)
    with assms(5) that(2) show ?thesis by simp
  next
    case False
    with that(1) assms(2) have "r \<in> set (d_maints d)" by (auto simp: update_row_def split: if_splits)
    with assms(1,4) False that(2) show ?thesis by (simp add: global_inv_def)
  qed
  ultimately show ?thesis by (simp add: global_inv_def same)
qed

lemma global_inv_create:
  assumes "create_tx cmd w = (Inr m, w')" "global_inv (w_db w)"
  shows "global_inv (w_db w')"
  using assms(1)
proof (cases rule: create_run)
  case (1 mid w1 w2 w3 w4 w5 steps ts ds)
  let ?f = "\<lambda>d. (d_maints d, d_resources_of d)"
  have "?f (w_db w3) = ?f (w_db w2)" by (rule fixesD [OF fixes_steps(1) [where f = ?f] 1(6)]) simp
  moreover have "?f (w_db w4) = ?f (w_db w3)" by (rule fixesD [OF fixes_creates(1) [where f = ?f] 1(7)]) simp
  moreover have "?f (w_db w5) = ?f (w_db w4)" by (rule fixesD [OF fixes_creates(2) [where f = ?f] 1(8)]) simp
  moreover have "?f (w_db w') = ?f (w_db w5)" by (rule fixesD [OF fixes_mentions(1) [where f = ?f] 1(9)]) simp
  moreover have "d_maints (w_db w2) = d_maints (w_db w1)" by (rule fixesD [OF fixes_resources(1) [where f = d_maints] 1(5)]) simp
  ultimately have tabs: "d_maints (w_db w') = d_maints (w_db w) @ [new_row cmd w]" "d_resources_of (w_db w') = d_resources_of (w_db w2)"
    using 1(2) by auto
  have old: "resource_ids (w_db w1) i = resource_ids (w_db w) i" for i by (rule content_tables) (simp add: 1(2))
  have none: "resource_ids (w_db w) mid = []" using assms(2) 1(4) by (auto simp: global_inv_def)
  have "resource_ids (w_db w2) mid = uniq (kept_resources cmd)"
    using post_InrD [OF resources_tab.add_content 1(5)] old none by simp
  moreover have "i \<noteq> mid \<longrightarrow> resource_ids (w_db w2) i = resource_ids (w_db w1) i" for i
    using post_InrD [OF resources_tab.add_frame 1(5)] by blast
  ultimately have r: "resource_ids (w_db w') i = (if i = mid then uniq (kept_resources cmd) else resource_ids (w_db w) i)" for i
    using content_tables(1) [OF tabs(2)] old by auto
  have fresh: "mt_id x \<noteq> mid" if "x \<in> set (d_maints (w_db w))" for x using that 1(4) by (auto simp: has_maint_def)
  have "has_maint (w_db w') i" if "resource_ids (w_db w') i \<noteq> []" for i
    using that assms(2) by (cases "i = mid") (auto simp: r global_inv_def has_maint_def tabs(1) 1(1))
  moreover have "resource_ids (w_db w') (mt_id x) = []" if "x \<in> set (d_maints (w_db w'))" "mt_scope x = ScopeGlobal" for x
    using that fresh assms(2) by (auto simp: r tabs(1) 1(1) global_inv_def kept_resources_def)
  ultimately show ?thesis by (simp add: global_inv_def)
qed

lemma global_inv_change:
  assumes ap: "applies req (fromDBMaintenance row) w m' w'" and found: "find_maint (w_db w) (request_maint req) = Some row"
    and tx: "w_tx w \<noteq> None" and inv: "global_inv (w_db w)" and maints: "d_maints (w_db w') = d_maints (w_db w)"
    and id: "m_id m' = request_maint req"
  shows "global_inv (update_row (written e now m') (w_db w'))"
proof -
  have row: "row \<in> set (d_maints (w_db w))" "mt_id row = request_maint req" using find_maint_Some [OF found] by auto
  have has: "has_maint (w_db w) (mt_id (written e now m'))" using row id by (auto simp: has_maint_def intro: rev_image_eqI)
  have old: "resource_ids (w_db w) (request_maint req) = []" if "mt_scope row = ScopeGlobal"
    using that row inv by (auto simp: global_inv_def)
  show ?thesis
  proof (cases "edits req")
    case False
    have "d_resources_of (w_db w') = d_resources_of (w_db w)"
      by (rule applies_fixes [where f = d_resources_of, OF ap False]) auto
    from content_tables(1) [OF this] applies_scope [OF ap False] old id show ?thesis
      by (intro global_inv_write [OF inv maints has]) (auto simp: fromDBMaintenance_def)
  next
    case True
    then obtain cmd where req: "req = UpdateMaintReq cmd" by (cases req) auto
    with ap obtain ts where run: "applyUpdate ts cmd (fromDBMaintenance row) w = (Inr (m', ()), w')" by auto
    note c = edit_contents(1) [OF run tx]
    from run have vals: "applyValuesFromUpdateCmd (fromDBMaintenance row) ts cmd = Some m'" by (rule edit_run)
    have "resource_ids (w_db w') (m_id m') = []" if "m_scope m' = ScopeGlobal"
    proof (cases "uc_resources cmd \<noteq> [] \<or> uc_scope cmd = Some ScopeGlobal")
      case True
      then show ?thesis using that edited_values(7) [OF vals] by (simp add: c)
    next
      case False
      then have "mt_scope row = ScopeGlobal"
        using that edited_values(4) [OF vals] by (cases "uc_scope cmd") (auto simp: fromDBMaintenance_def)
      with old False id req show ?thesis by (simp add: c)
    qed
    with c show ?thesis by (intro global_inv_write [OF inv maints has]) auto
  qed
qed

interpretation globals: service_invariant global_inv
proof unfold_locales
  show "global_inv d'" if "maint_tables d' = maint_tables d" "global_inv d" for d d'
    using that(2) content_tables(1) [OF maint_tables_proj(2) [OF that(1)]] maint_tables_proj(1) [OF that(1)]
    by (simp add: global_inv_def has_maint_def)
  show "global_inv empty_db" by (simp add: global_inv_def resource_ids_def empty_db_def)
qed (blast intro: global_inv_create global_inv_change)+

section \<open>Reminders of a draft are not queued\<close>

definition reminders_inv :: "db \<Rightarrow> bool" where
  "reminders_inv d \<longleftrightarrow> distinct (map df_id (d_deferred d)) \<and> (\<forall>x \<in> set (d_deferred d). has_maint d (df_maint_id x))
     \<and> (\<forall>r \<in> set (d_maints d). mt_status r = StatusDraft \<longrightarrow> (\<forall>x \<in> set (d_deferred d). df_maint_id x = mt_id r \<longrightarrow> df_task_id x = None))"

lemma reminders_inv_write:
  assumes "reminders_inv d" "d_maints d1 = d_maints d" "has_maint d (mt_id r')" "distinct (map df_id (d_deferred d1))"
    and "\<And>x. x \<in> set (d_deferred d1) \<Longrightarrow> df_maint_id x \<noteq> mt_id r' \<Longrightarrow> x \<in> set (d_deferred d)"
    and "\<And>x. x \<in> set (d_deferred d1) \<Longrightarrow> df_maint_id x = mt_id r' \<Longrightarrow> mt_status r' = StatusDraft \<Longrightarrow> df_task_id x = None"
  shows "reminders_inv (update_row r' d1)"
proof -
  have "has_maint d1 (df_maint_id x)" if "x \<in> set (d_deferred d1)" for x
    using that assms(1,2,3) assms(5) [OF that] by (cases "df_maint_id x = mt_id r'") (auto simp: reminders_inv_def has_maint_def)
  moreover have "df_task_id x = None"
    if r: "r \<in> set (d_maints (update_row r' d1))" "mt_status r = StatusDraft" and x: "x \<in> set (d_deferred d1)" "df_maint_id x = mt_id r" for r x
  proof (cases "mt_id r = mt_id r'")
    case True
    with r(1) have "r = r'" by (auto simp: update_row_def split: if_splits)
    with assms(6) x r(2) show ?thesis by simp
  next
    case False
    with r(1) assms(2) have "r \<in> set (d_maints d)" by (auto simp: update_row_def split: if_splits)
    with assms(1) assms(5) [OF x(1)] False r(2) x(2) show ?thesis by (simp add: reminders_inv_def)
  qed
  ultimately show ?thesis using assms(4) by (simp add: reminders_inv_def)
qed

lemma new_reminders: "x \<in> set (new_deferred_rows e t mid (deferredNotificationsFromCmd i ts)) \<Longrightarrow> df_maint_id x = mid \<and> df_task_id x = None"
  by (auto simp: new_deferred_rows_def deferred_toDB_def deferredNotificationsFromCmd_def dest!: set_zip_rightD)

lemma CreateMany_new:
  assumes "distinct (map df_id (d_deferred (w_db w)))"
  shows "post (deferred_CreateMany mid (deferredNotificationsFromCmd i ts)) (\<lambda>_ w'. distinct (map df_id (d_deferred (w_db w')))
     \<and> (\<forall>x \<in> set (d_deferred (w_db w')). x \<in> set (d_deferred (w_db w)) \<or> df_maint_id x = mid \<and> df_task_id x = None)) (\<lambda>_ _. True) w"
  using assms by (auto simp: deferred_CreateMany_def post_db_call Let_def dest: new_reminders split: option.split)

lemma reminders_inv_create:
  assumes "create_tx cmd w = (Inr m, w')" "reminders_inv (w_db w)"
  shows "reminders_inv (w_db w')"
  using assms(1)
proof (cases rule: create_run)
  case (1 mid w1 w2 w3 w4 w5 steps ts ds)
  let ?f = "\<lambda>d. (d_maints d, d_deferred d)"
  have "?f (w_db w2) = ?f (w_db w1)" by (rule fixesD [OF fixes_resources(1) [where f = ?f] 1(5)]) simp
  moreover have "?f (w_db w3) = ?f (w_db w2)" by (rule fixesD [OF fixes_steps(1) [where f = ?f] 1(6)]) simp
  moreover have "?f (w_db w4) = ?f (w_db w3)" by (rule fixesD [OF fixes_creates(1) [where f = ?f] 1(7)]) simp
  moreover have "?f (w_db w') = ?f (w_db w5)" by (rule fixesD [OF fixes_mentions(1) [where f = ?f] 1(9)]) simp
  moreover have "d_maints (w_db w5) = d_maints (w_db w4)" by (rule fixesD [OF fixes_creates(2) [where f = d_maints] 1(8)]) simp
  ultimately have tabs: "d_maints (w_db w') = d_maints (w_db w) @ [new_row cmd w]" "d_deferred (w_db w4) = d_deferred (w_db w)"
      "d_deferred (w_db w') = d_deferred (w_db w5)"
    using 1(2) by auto
  have new: "distinct (map df_id (d_deferred (w_db w')))"
      "\<And>x. x \<in> set (d_deferred (w_db w')) \<Longrightarrow> x \<in> set (d_deferred (w_db w)) \<or> df_maint_id x = mid \<and> df_task_id x = None"
    using post_InrD [OF CreateMany_new 1(8) [unfolded deferred_Create_def]] assms(2) by (auto simp: tabs reminders_inv_def)
  have "has_maint (w_db w') (df_maint_id x)" if "x \<in> set (d_deferred (w_db w'))" for x
    using new(2) [OF that] assms(2) 1(1) by (auto simp: reminders_inv_def has_maint_def tabs(1))
  moreover have "df_task_id x = None"
    if "r \<in> set (d_maints (w_db w'))" "mt_status r = StatusDraft" "x \<in> set (d_deferred (w_db w'))" "df_maint_id x = mt_id r" for r x
    using new(2) [OF that(3)] that assms(2) 1(1,4) unfolding tabs(1) reminders_inv_def by auto
  ultimately show ?thesis using new(1) by (simp add: reminders_inv_def)
qed

lemma reminders_edit:
  assumes "(if b then deferred_Replace mid (deferredNotificationsFromCmd i ts) else ret ()) w = (Inr (), w')" "distinct (map df_id (d_deferred (w_db w)))"
  shows "distinct (map df_id (d_deferred (w_db w')))"
    "x \<in> set (d_deferred (w_db w')) \<Longrightarrow> x \<in> set (d_deferred (w_db w)) \<or> df_maint_id x = mid \<and> df_task_id x = None"
proof -
  have "distinct (map df_id (d_deferred (w_db w'))) \<and> (\<forall>x \<in> set (d_deferred (w_db w')). x \<in> set (d_deferred (w_db w)) \<or> df_maint_id x = mid \<and> df_task_id x = None)"
  proof (cases b)
    case True
    with assms(1) obtain v u y where v: "cancelEnqueued mid w = (Inr (), v)" "DeleteByMaint mid v = (Inr (), u)"
        "deferred_CreateMany mid (deferredNotificationsFromCmd i ts) u = (Inr y, w')"
      by (auto simp: deferred_Replace_def ret_def elim!: osequel_unitE [of "cancelEnqueued m" for m]
          osequel_InrE [of "osequel m k" for m k] osequel_unitE [of "DeleteByMaint m" for m])
    have "d_deferred (w_db v) = d_deferred (w_db w)" by (rule fixesD [OF fixes_queue(3) [where f = d_deferred] v(1)]) simp
    moreover have "d_deferred (w_db u) = filter (\<lambda>r. df_maint_id r \<noteq> mid) (d_deferred (w_db v))"
      using v(2) by (auto simp: DeleteByMaint_def db_call_def split: option.splits)
    ultimately have "distinct (map df_id (d_deferred (w_db u)))" "set (d_deferred (w_db u)) \<subseteq> set (d_deferred (w_db w))"
      using assms(2) by (auto simp: distinct_map_filter)
    with post_InrD [OF CreateMany_new v(3)] show ?thesis by auto
  qed (use assms in \<open>simp add: ret_def\<close>)
  then show "distinct (map df_id (d_deferred (w_db w')))"
    "x \<in> set (d_deferred (w_db w')) \<Longrightarrow> x \<in> set (d_deferred (w_db w)) \<or> df_maint_id x = mid \<and> df_task_id x = None" by auto
qed

text \<open>Scheduling writes the task identifiers of the reminders of one maintenance only.\<close>

definition scheduling :: "uuid \<Rightarrow> uuid set \<Rightarrow> deferred_row list \<Rightarrow> uuid list \<Rightarrow> deferred_row list \<Rightarrow> bool" where
  "scheduling mid own others ids rs \<longleftrightarrow> (\<forall>r \<in> set rs. df_id r \<in> own \<longrightarrow> df_maint_id r = mid)
     \<and> filter (\<lambda>r. df_maint_id r \<noteq> mid) rs = others \<and> map df_id rs = ids"

lemma scheduling_set:
  assumes "i \<in> own" "scheduling mid own others ids rs"
  shows "scheduling mid own others ids (map (\<lambda>r. if df_id r = i then r\<lparr>df_task_id := Some t\<rparr> else r) rs)"
proof -
  let ?g = "\<lambda>r. if df_id r = i then r\<lparr>df_task_id := Some t\<rparr> else r"
  have id: "df_id (?g r) = df_id r" "df_maint_id (?g r) = df_maint_id r" for r by simp_all
  have old: "\<forall>r \<in> set rs. df_id r \<in> own \<longrightarrow> df_maint_id r = mid" "filter (\<lambda>r. df_maint_id r \<noteq> mid) rs = others" "map df_id rs = ids"
    using assms(2) by (simp_all add: scheduling_def)
  have "filter (\<lambda>r. df_maint_id r \<noteq> mid) (map ?g xs) = filter (\<lambda>r. df_maint_id r \<noteq> mid) xs"
    if "\<forall>r \<in> set xs. df_id r \<in> own \<longrightarrow> df_maint_id r = mid" for xs
    using that assms(1) by (induction xs) auto
  from this [OF old(1)] have "filter (\<lambda>r. df_maint_id r \<noteq> mid) (map ?g rs) = others" unfolding old(2) .
  moreover have "map df_id (map ?g rs) = ids" unfolding old(3) [symmetric] by (simp add: id(1))
  moreover have "\<forall>r \<in> set (map ?g rs). df_id r \<in> own \<longrightarrow> df_maint_id r = mid" using old(1) by auto
  ultimately show ?thesis unfolding scheduling_def by (intro conjI)
qed

lemma keeps_for_members: "(\<And>x. x \<in> set xs \<Longrightarrow> keeps P (f x)) \<Longrightarrow> keeps P (for_each xs f)"
  by (induction xs) (auto intro!: keep_rules)

lemma scheduling_keeps:
  assumes "i \<in> own"
  shows "keeps (\<lambda>w. scheduling mid own others ids (d_deferred (w_db w))) (obind (ScheduleDelayed ty p dl key) (SetTaskID i))"
proof (rule keeps_bind)
  have "d_deferred (w_db (snd (ScheduleDelayed ty p dl key w))) = d_deferred (w_db w)" for w
    by (rule fixesD [OF fixes_queue(1) [where f = d_deferred] prod.collapse [symmetric]]) simp
  then show "keeps (\<lambda>w. scheduling mid own others ids (d_deferred (w_db w))) (ScheduleDelayed ty p dl key)" by (simp add: keeps_def)
  show "keeps (\<lambda>w. scheduling mid own others ids (d_deferred (w_db w))) (SetTaskID i t)" for t
    using scheduling_set [OF assms] by (auto simp: keeps_def SetTaskID_def db_call_def split: option.split)
qed

lemma scheduled_others:
  assumes "deferred_Schedule mid w = (Inr (), w')" "distinct (map df_id (d_deferred (w_db w)))"
  shows "filter (\<lambda>r. df_maint_id r \<noteq> mid) (d_deferred (w_db w')) = filter (\<lambda>r. df_maint_id r \<noteq> mid) (d_deferred (w_db w))"
    "map df_id (d_deferred (w_db w')) = map df_id (d_deferred (w_db w))"
proof -
  let ?ns = "map deferred_fromDB (deferred_rows (w_db w) mid)" and ?own = "df_id ` set (filter (\<lambda>r. df_maint_id r = mid) (d_deferred (w_db w)))"
  let ?K = "\<lambda>v. scheduling mid ?own (filter (\<lambda>r. df_maint_id r \<noteq> mid) (d_deferred (w_db w))) (map df_id (d_deferred (w_db w))) (d_deferred (w_db v))"
  have own: "dn_id n \<in> ?own" if "n \<in> set ?ns" for n
    using that by (auto simp: deferred_rows_def deferred_fromDB_def)
  have keep: "keeps ?K (for_each ?ns (\<lambda>n. obind (ScheduleDelayed ProcessorTaskMaintReminder (ReminderPayload mid (dn_id n)) (dl n) (key n)) (SetTaskID (dn_id n))))"
    for dl key by (rule keeps_for_members) (rule scheduling_keeps, rule own)
  from assms(1) obtain v dl key where v: "w_db v = w_db w"
      "for_each ?ns (\<lambda>n. obind (ScheduleDelayed ProcessorTaskMaintReminder (ReminderPayload mid (dn_id n)) (dl n) (key n)) (SetTaskID (dn_id n))) v = (Inr (), w')"
  proof -
    from assms(1) have "for_each ?ns (\<lambda>n. obind (ScheduleDelayed ProcessorTaskMaintReminder (ReminderPayload mid (dn_id n))
        (max (time_sub (dn_fire_at n) (clock (w_env w) (Suc (w_tick w)))) 0) (idempotencyKey (sha256_hex (w_env w)) mid (dn_id n)))
        (SetTaskID (dn_id n))) (tick (tick w)) = (Inr (), w')"
      by (auto simp: deferred_Schedule_def deferred_ListByMaint_store_def run_query run_now obind_def [of "read_world g" for g] read_world_def
          split: option.splits)
    then show thesis by (intro that [of "tick (tick w)"]) simp_all
  qed
  have "?K v" using assms(2) by (auto simp: scheduling_def v(1) distinct_map inj_on_def)
  with keep have "?K w'" using v(2) by (rule keepsD)
  then show "filter (\<lambda>r. df_maint_id r \<noteq> mid) (d_deferred (w_db w')) = filter (\<lambda>r. df_maint_id r \<noteq> mid) (d_deferred (w_db w))"
    "map df_id (d_deferred (w_db w')) = map df_id (d_deferred (w_db w))" unfolding scheduling_def by blast+
qed

lemma approve_schedule_run:
  assumes "approve_apply cmd actor m w = (Inr (m', x), w')"
  obtains v where "deferred_Schedule (ac_maint_id cmd) v = (Inr (), w')" "d_deferred (w_db v) = d_deferred (w_db w)"
proof -
  from assms have "obind (loadResources m) (\<lambda>m1. osequel (checkConflicts m1 (ac_snapshot cmd))
        (osequel (SaveSnapshot (ac_maint_id cmd) (ac_snapshot cmd))
        (osequel (deferred_Schedule (ac_maint_id cmd)) (ret (m1\<lparr>m_status := StatusPlanned\<rparr>, ()))))) w = (Inr (m', x), w')"
    by (auto simp: approve_apply_def raise_def split: if_splits)
  then obtain m1 w1 v1 v where run: "loadResources m w = (Inr m1, w1)" "checkConflicts m1 (ac_snapshot cmd) w1 = (Inr (), v1)"
      "SaveSnapshot (ac_maint_id cmd) (ac_snapshot cmd) v1 = (Inr (), v)" "deferred_Schedule (ac_maint_id cmd) v = (Inr (), w')"
    by (auto simp: ret_def elim!: obind_InrE osequel_unitE)
  have "d_deferred (w_db v) = d_deferred (w_db v1)" by (rule fixesD [OF fixes_snapshot [where f = d_deferred] run(3)]) simp
  with run(4) post_InrD [OF loadResources_post run(1)] post_InrD [OF checkConflicts_post run(2)] that show thesis by simp
qed

lemma reminders_inv_change:
  assumes ap: "applies req (fromDBMaintenance row) w m' w'" and found: "find_maint (w_db w) (request_maint req) = Some row"
    and inv: "reminders_inv (w_db w)" and maints: "d_maints (w_db w') = d_maints (w_db w)" and id: "m_id m' = request_maint req"
  shows "reminders_inv (update_row (written e now m') (w_db w'))"
proof -
  have row: "row \<in> set (d_maints (w_db w))" "mt_id row = request_maint req" using find_maint_Some [OF found] by auto
  have has: "has_maint (w_db w) (mt_id (written e now m'))" using row id by (auto simp: has_maint_def intro: rev_image_eqI)
  have ids: "distinct (map df_id (d_deferred (w_db w)))" using inv by (simp add: reminders_inv_def)
  have status: "status_after req (mt_status row) = Some (m_status m')" using applies_status [OF ap] by (simp add: fromDBMaintenance_def)
  have draft: "df_task_id x = None" if "mt_status row = StatusDraft" "x \<in> set (d_deferred (w_db w))" "df_maint_id x = request_maint req" for x
    using that row inv by (auto simp: reminders_inv_def)
  note by_row = reminders_inv_write [OF inv maints has]
  consider (edit) cmd where "req = UpdateMaintReq cmd" | (approve) cmd where "req = ApproveMaintReq cmd"
    | (other) "\<not> edits req" "\<not> approves req" by (cases req) auto
  then show ?thesis
  proof cases
    case edit
    with ap obtain ts where "applyUpdate ts cmd (fromDBMaintenance row) w = (Inr (m', ()), w')" by auto
    then show ?thesis
    proof (cases rule: edit_run)
      case (1 w1 w2 w3 w4)
      have same: "d_deferred (w_db w1) = d_deferred (w_db w)" "d_deferred (w_db w2) = d_deferred (w_db w1)"
          "d_deferred (w_db w3) = d_deferred (w_db w2)" "d_deferred (w_db w') = d_deferred (w_db w4)"
        using fixesD [OF fixes_replaces(1) [where f = d_deferred] 1(3)] fixesD [OF fixes_replaces(2) [where f = d_deferred] 1(4)]
          fixesD [OF fixes_replaces(3) [where f = d_deferred] 1(5)] fixesD [OF fixes_replaces(5) [where f = d_deferred] 1(7)] by simp_all
      have "(if uc_deferred cmd \<noteq> None then deferred_Replace (m_id m') (deferredNotificationsFromCmd (uc_maint_id cmd) (the (uc_deferred cmd))) else ret ()) w3 = (Inr (), w4)"
        using 1(6) edited_values(10) [OF 1(2)] by (cases "uc_deferred cmd") auto
      note r = reminders_edit [OF this, unfolded same(3) same(2) same(1), OF ids]
      show ?thesis
        using r draft 1(1) edit id by (intro by_row) (auto simp: same(4) fromDBMaintenance_def)
    qed
  next
    case approve
    with ap obtain actor where "approve_apply cmd actor (fromDBMaintenance row) w = (Inr (m', ()), w')" by auto
    then obtain v where v: "deferred_Schedule (ac_maint_id cmd) v = (Inr (), w')" "d_deferred (w_db v) = d_deferred (w_db w)"
      by (rule approve_schedule_run)
    note o = scheduled_others [OF v(1), unfolded v(2), OF ids]
    have "x \<in> set (d_deferred (w_db w))" if "x \<in> set (d_deferred (w_db w'))" "df_maint_id x \<noteq> ac_maint_id cmd" for x
      using that arg_cong [OF o(1), of set] by auto
    moreover have "m_status m' = StatusPlanned" using status approve by (auto split: if_splits)
    ultimately show ?thesis using o(2) ids id approve by (intro by_row) auto
  next
    case other
    have "d_deferred (w_db w') = d_deferred (w_db w)" by (rule applies_fixes [where f = d_deferred, OF ap]) (use other in auto)
    then show ?thesis using ids draft status id other by (intro by_row) (cases req; auto split: if_splits)+
  qed
qed

interpretation reminders: service_invariant reminders_inv
proof unfold_locales
  show "reminders_inv d'" if "maint_tables d' = maint_tables d" "reminders_inv d" for d d'
    using that(2) maint_tables_proj(1,4) [OF that(1)] by (simp add: reminders_inv_def has_maint_def)
  show "reminders_inv empty_db" by (simp add: reminders_inv_def empty_db_def)
qed (blast intro: reminders_inv_create reminders_inv_change)+

section \<open>Properties\<close>

text \<open>In every reachable state a global maintenance holds no resources, however it became global, and
  resources are only ever held by a stored maintenance.\<close>

theorem global_maintenance_has_no_resources:
  assumes "reachable w"
  shows "\<forall>(i, rs) \<in> set (d_resources_of (w_db w)). \<exists>row \<in> set (d_maints (w_db w)). mt_id row = i \<and> mt_scope row \<noteq> ScopeGlobal"
proof -
  have inv: "global_inv (w_db w)" by (rule globals.inv_reachable [OF assms])
  have "\<exists>row \<in> set (d_maints (w_db w)). mt_id row = i \<and> mt_scope row \<noteq> ScopeGlobal" if "(i, rs) \<in> set (d_resources_of (w_db w))" for i rs
  proof -
    have "resource_ids (w_db w) i \<noteq> []" using that by (force simp: resource_ids_def filter_empty_conv)
    then show ?thesis using inv by (fastforce simp: global_inv_def has_maint_def)
  qed
  then show ?thesis by auto
qed

theorem global_maintenance_has_no_resources_witness:
  "\<exists>row \<in> set (d_maints (w_db (after [CreateDraftReq sample_create]))). mt_id row = 601 \<and> mt_scope row \<noteq> ScopeGlobal"
proof -
  have "d_resources_of (w_db (after [CreateDraftReq sample_create])) = [(601, 4)]" by code_simp
  with global_maintenance_has_no_resources [OF reachable_after, of "[CreateDraftReq sample_create]"] show ?thesis by auto
qed

text \<open>In every reachable state the reminders of a draft are not queued: whatever edits and failed approvals
  it went through, none of them carries a task of the queue.\<close>

theorem draft_reminders_not_queued:
  assumes "reachable w" "row \<in> set (d_maints (w_db w))" "mt_status row = StatusDraft"
    and "x \<in> set (d_deferred (w_db w))" "df_maint_id x = mt_id row"
  shows "df_task_id x = None \<and> \<not> IsScheduled (deferred_fromDB x)"
proof -
  have "df_task_id x = None" using reminders.inv_reachable [OF assms(1)] assms(2-5) by (auto simp: reminders_inv_def)
  then show ?thesis by (simp add: IsScheduled_def deferred_fromDB_def)
qed

theorem draft_reminders_not_queued_witness:
  "\<exists>x \<in> set (d_deferred (w_db (after [CreateDraftReq sample_create]))). df_task_id x = None"
proof -
  let ?w = "after [CreateDraftReq sample_create]"
  have "map (\<lambda>r. (mt_id r, mt_status r)) (d_maints (w_db ?w)) = [(601, StatusDraft)]" "map df_maint_id (d_deferred (w_db ?w)) = [601]"
    by code_simp+
  then obtain row x where "row \<in> set (d_maints (w_db ?w))" "mt_status row = StatusDraft" "x \<in> set (d_deferred (w_db ?w))" "df_maint_id x = mt_id row"
    by (auto simp: map_eq_Cons_conv)
  with draft_reminders_not_queued [OF reachable_after this] show ?thesis by blast
qed

end
