(* ===== verification/StepOrder.thy ===== *)
theory StepOrder
  imports ServiceInvariant
begin

text \<open>
  The steps of a maintenance: the check that lets one change its status
  (\<open>canChangeStepStatusTo\<close> of \<open>internal/services/maint\<close>) characterised exactly, and what it
  guarantees over every run: steps are taken in their order, none before the maintenance
  runs, and a completed maintenance has no unfinished one.
\<close>

section \<open>The check on one step\<close>

lemma FindIndexOf_Some:
  "FindIndexOf i p xs = Some (x, j) \<longleftrightarrow> (\<exists>k. j = i + k \<and> k < length xs \<and> xs ! k = x \<and> p x \<and> (\<forall>l < k. \<not> p (xs ! l)))"
proof (induction xs arbitrary: i)
  case (Cons y ys)
  show ?case
  proof (cases "p y")
    case True
    have "k = 0" if "\<forall>l < k. \<not> p ((y # ys) ! l)" for k using that True by (cases k) auto
    then have "(\<forall>l < k. \<not> p ((y # ys) ! l)) \<longleftrightarrow> k = 0" for k by auto
    then show ?thesis using True by auto
  next
    case False
    have "(\<exists>k. j = Suc i + k \<and> k < length ys \<and> ys ! k = x \<and> p x \<and> (\<forall>l < k. \<not> p (ys ! l)))
      \<longleftrightarrow> (\<exists>k. j = i + k \<and> k < length (y # ys) \<and> (y # ys) ! k = x \<and> p x \<and> (\<forall>l < k. \<not> p ((y # ys) ! l)))" (is "?L \<longleftrightarrow> ?R")
    proof
      assume ?L
      then obtain k where k: "j = Suc i + k" "k < length ys" "ys ! k = x" "p x" "\<forall>l < k. \<not> p (ys ! l)" by blast
      have "\<not> p ((y # ys) ! l)" if "l < Suc k" for l using that k(5) False by (cases l) auto
      with k show ?R by (intro exI [of _ "Suc k"]) simp
    next
      assume ?R
      then obtain k where k: "j = i + k" "k < length (y # ys)" "(y # ys) ! k = x" "p x" "\<forall>l < k. \<not> p ((y # ys) ! l)" by blast
      with False obtain k' where "k = Suc k'" by (cases k) auto
      with k show ?L by (intro exI [of _ k']) auto
    qed
    with Cons.IH [of "Suc i"] False show ?thesis by simp
  qed
qed simp

lemma FindIndexOf_None: "FindIndexOf i p xs = None \<longleftrightarrow> (\<forall>x \<in> set xs. \<not> p x)"
  by (induction xs arbitrary: i) auto

definition by_order :: "maint_step list \<Rightarrow> maint_step list" where
  "by_order steps = sort_func (\<lambda>a b. ord_cmp (s_order a) (s_order b)) steps"

lemma by_order_sorted: "sorted_wrt (\<lambda>a b. s_order a \<le> s_order b) (by_order steps)"
  using ord_on.sorted_sort_func [of s_order steps] by (simp add: by_order_def)

lemma by_order_set [simp]: "set (by_order steps) = set steps" "length (by_order steps) = length steps"
  by (simp_all add: by_order_def)

lemma by_order_strict:
  assumes "distinct (map s_order steps)" "i < j" "j < length steps"
  shows "s_order (by_order steps ! i) < s_order (by_order steps ! j)"
proof -
  have "mset (map s_order (by_order steps)) = mset (map s_order steps)" by (simp add: by_order_def)
  then have "distinct (map s_order (by_order steps))" using assms(1) mset_eq_imp_distinct_iff by blast
  then have "s_order (by_order steps ! i) \<noteq> s_order (by_order steps ! j)"
    using assms(2,3) by (auto simp: distinct_conv_nth)
  moreover have "s_order (by_order steps ! i) \<le> s_order (by_order steps ! j)"
    using by_order_sorted assms(2,3) by (auto simp: sorted_wrt_iff_nth_less)
  ultimately show ?thesis by simp
qed

text \<open>The step right before another one in the order.\<close>

definition precedes :: "maint_step list \<Rightarrow> maint_step \<Rightarrow> maint_step \<Rightarrow> bool" where
  "precedes steps p s \<longleftrightarrow> p \<in> set steps \<and> s_order p < s_order s
     \<and> (\<forall>q \<in> set steps. s_order q < s_order s \<longrightarrow> s_order q \<le> s_order p)"

lemma precedes_nth:
  assumes "distinct (map s_order steps)" "i < length steps"
  shows "precedes steps p (by_order steps ! i) \<longleftrightarrow> i > 0 \<and> p = by_order steps ! (i - 1)"
proof -
  let ?s = "by_order steps"
  note strict = by_order_strict [OF assms(1)]
  have le: "j \<le> i - 1" if "j < length steps" "s_order (?s ! j) < s_order (?s ! i)" for j
    using that strict [of i j] assms(2) by (cases "j = i"; cases "i < j") auto
  have mono: "s_order (?s ! j) \<le> s_order (?s ! k)" if "j \<le> k" "k < length steps" for j k
    using that strict [of j k] by (cases "j = k") auto
  show ?thesis
  proof
    assume p: "precedes steps p (?s ! i)"
    then obtain j where j: "j < length steps" "p = ?s ! j" unfolding precedes_def by (metis by_order_set in_set_conv_nth)
    from p j have lt: "s_order (?s ! j) < s_order (?s ! i)" by (simp add: precedes_def)
    have i: "j \<le> i - 1" "i > 0" using le [OF j(1) lt] lt by (auto intro: ccontr)
    have "s_order (?s ! (i - 1)) < s_order (?s ! i)" using strict [of "i - 1" i] i assms(2) by simp
    moreover have "?s ! (i - 1) \<in> set steps" using assms(2) i by (metis by_order_set diff_less less_numeral_extra(1) nth_mem order_less_trans)
    ultimately have "s_order (?s ! (i - 1)) \<le> s_order (?s ! j)" using p j by (simp add: precedes_def)
    then have "j = i - 1" using strict [of j "i - 1"] i assms(2) by fastforce
    with i j show "i > 0 \<and> p = ?s ! (i - 1)" by simp
  next
    assume i: "i > 0 \<and> p = ?s ! (i - 1)"
    have "s_order q \<le> s_order p" if "q \<in> set steps" "s_order q < s_order (?s ! i)" for q
    proof -
      from that(1) obtain j where "j < length steps" "q = ?s ! j" by (metis by_order_set in_set_conv_nth)
      with le [of j] mono [of j "i - 1"] that(2) i assms(2) show ?thesis by auto
    qed
    moreover have "p \<in> set steps" using i assms(2) by (metis by_order_set diff_less less_numeral_extra(1) nth_mem order_less_trans)
    ultimately show "precedes steps p (?s ! i)" using i strict [of "i - 1" i] assms(2) by (auto simp: precedes_def)
  qed
qed

lemma canChange_cases:
  assumes "distinct (map s_id steps)" "distinct (map s_order steps)" "s \<in> set steps" "s_id s = sid"
  shows "canChangeStepStatusTo steps sid new =
    (if \<exists>p. precedes steps p s \<and> \<not> StepIsTerminal (s_status p) then Inl ErrStepOrderViolation
     else if \<not> CanMainStepTransition (s_status s) new then Inl (ErrForbiddenStepStatusTransition (s_status s) new)
     else Inr s)"
proof -
  from assms(3) obtain i where i: "i < length steps" "by_order steps ! i = s" by (metis by_order_set in_set_conv_nth)
  have "mset (map s_id (by_order steps)) = mset (map s_id steps)" by (simp add: by_order_def)
  then have d: "distinct (map s_id (by_order steps))" using assms(1) mset_eq_imp_distinct_iff by blast
  then have first: "\<forall>l < i. s_id (by_order steps ! l) \<noteq> sid"
    using i assms(4) by (auto simp: distinct_conv_nth)
  have "FindIndexOf 0 (\<lambda>s. s_id s = sid) (by_order steps) = Some (s, i)"
    using i assms(4) first by (auto simp: FindIndexOf_Some)
  then show ?thesis
    using precedes_nth [OF assms(2) i(1)] i(2)
    by (simp add: canChangeStepStatusTo_def by_order_def Let_def)
qed

lemma canChange_missing: "sid \<notin> s_id ` set steps \<Longrightarrow> canChangeStepStatusTo steps sid new = Inl ErrStepNotFound"
  using FindIndexOf_None [of 0 "\<lambda>s. s_id s = sid" "sort_func (\<lambda>a b. ord_cmp (s_order a) (s_order b)) steps"]
  by (auto simp: canChangeStepStatusTo_def Let_def)

section \<open>The invariant\<close>

definition steps_progress :: "step_row list \<Rightarrow> bool" where
  "steps_progress rows \<longleftrightarrow> (\<forall>a \<in> set rows. \<forall>b \<in> set rows. st_maint_id a = st_maint_id b \<longrightarrow> st_order a < st_order b
     \<longrightarrow> st_status b \<noteq> StepPlanned \<longrightarrow> StepIsTerminal (st_status a))"

definition step_fits :: "maint_status \<Rightarrow> step_status \<Rightarrow> bool" where
  "step_fits ms ss \<longleftrightarrow> (ms = StatusDraft \<or> ms = StatusPlanned \<longrightarrow> ss = StepPlanned) \<and> (ms = StatusCompleted \<longrightarrow> StepIsTerminal ss)"

definition steps_fit :: "db \<Rightarrow> bool" where
  "steps_fit d \<longleftrightarrow> (\<forall>s \<in> set (d_steps d). \<forall>r \<in> set (d_maints d). mt_id r = st_maint_id s \<longrightarrow> step_fits (mt_status r) (st_status s))"

definition steps_inv :: "db \<Rightarrow> bool" where
  "steps_inv d \<longleftrightarrow> steps_unique (d_steps d) \<and> (\<forall>s \<in> set (d_steps d). has_maint d (st_maint_id s))
     \<and> steps_progress (d_steps d) \<and> steps_fit d"

lemma steps_fitD:
  assumes "steps_inv d" "find_maint d mid = Some row" "s \<in> set (d_steps d)" "st_maint_id s = mid"
  shows "step_fits (mt_status row) (st_status s)"
  using assms find_maint_Some [OF assms(2)] by (auto simp: steps_inv_def steps_fit_def)

text \<open>Writing one row and the steps of its maintenance.\<close>

lemma steps_inv_write:
  assumes "steps_inv d" "d_maints d1 = d_maints d" "mt_id r' = mid" "steps_unique (d_steps d1)"
    and "steps_progress (d_steps d1)"
    and "\<And>s. s \<in> set (d_steps d1) \<Longrightarrow> st_maint_id s \<noteq> mid \<Longrightarrow> s \<in> set (d_steps d)"
    and "\<And>s. s \<in> set (d_steps d1) \<Longrightarrow> st_maint_id s = mid \<Longrightarrow> has_maint d mid \<and> step_fits (mt_status r') (st_status s)"
  shows "steps_inv (update_row r' d1)"
proof -
  have "has_maint d (st_maint_id s)" if "s \<in> set (d_steps d1)" for s
    using assms(1) assms(6) [OF that] assms(7) [OF that] by (cases "st_maint_id s = mid") (auto simp: steps_inv_def)
  then have "\<forall>s \<in> set (d_steps d1). has_maint d1 (st_maint_id s)" using assms(2) by (simp add: has_maint_def)
  moreover have "step_fits (mt_status r) (st_status s)"
    if "s \<in> set (d_steps d1)" "r \<in> set (d_maints (update_row r' d1))" "mt_id r = st_maint_id s" for r s
  proof (cases "st_maint_id s = mid")
    case True
    with that assms(3) have "r = r'" by (auto simp: update_row_def split: if_splits)
    with assms(7) [OF that(1) True] show ?thesis by simp
  next
    case False
    with that assms(2,3) have "r \<in> set (d_maints d)" by (auto simp: update_row_def split: if_splits)
    with assms(1) assms(6) [OF that(1) False] that(3) show ?thesis by (auto simp: steps_inv_def steps_fit_def)
  qed
  ultimately show ?thesis using assms(4,5) by (auto simp: steps_inv_def steps_fit_def)
qed

text \<open>A change that leaves the steps alone.\<close>

lemma steps_inv_status:
  assumes "steps_inv d" "d_maints d1 = d_maints d" "d_steps d1 = d_steps d" "mt_id r' = mid"
    and "\<And>s. s \<in> set (d_steps d) \<Longrightarrow> st_maint_id s = mid \<Longrightarrow> step_fits (mt_status r') (st_status s)"
  shows "steps_inv (update_row r' d1)"
  using assms(1) by (intro steps_inv_write [OF assms(1,2,4)]) (use assms(3,5) in \<open>auto simp: steps_inv_def\<close>)

section \<open>Creating and replacing steps\<close>

lemma new_step_planned: "s \<in> set (new_step_rows e t mid (stepsFromCmd ins StepPlanned)) \<Longrightarrow> st_maint_id s = mid \<and> st_status s = StepPlanned"
  by (auto simp: new_step_rows_def toDBMaintenanceStep_def stepsFromCmd_def dest!: set_zip_rightD)

definition planned_rows :: "uuid \<Rightarrow> step_row list \<Rightarrow> bool" where
  "planned_rows mid rows \<longleftrightarrow> (\<forall>s \<in> set rows. st_maint_id s = mid \<and> st_status s = StepPlanned)"

lemma AddSteps_planned:
  "steps_unique (d_steps (w_db w)) \<Longrightarrow>
   post (AddSteps mid (stepsFromCmd ins StepPlanned))
     (\<lambda>_ w'. \<exists>rows. w_db w' = (w_db w)\<lparr>d_steps := d_steps (w_db w) @ rows\<rparr> \<and> planned_rows mid rows
        \<and> steps_unique (d_steps (w_db w) @ rows)) (\<lambda>_ _. True) w"
  by (cases "stepsFromCmd ins StepPlanned = []")
    (auto simp: AddSteps_def post_db_call Let_def planned_rows_def dest: new_step_planned split: option.split intro: exI [of _ "[]"])

lemma progress_append:
  assumes "steps_progress rows" "planned_rows mid new" "\<forall>s \<in> set rows. st_maint_id s \<noteq> mid"
  shows "steps_progress (rows @ new)"
  using assms by (fastforce simp: steps_progress_def planned_rows_def)


lemma steps_inv_create:
  assumes "create_tx cmd w = (Inr m, w')" "steps_inv (w_db w)"
  shows "steps_inv (w_db w')"
  using assms(1)
proof (cases rule: create_run)
  case (1 mid w1 w2 w3 w4 w5 steps ts ds)
  let ?f = "\<lambda>d. (d_maints d, d_steps d)"
  have inv: "steps_unique (d_steps (w_db w))" "\<forall>s \<in> set (d_steps (w_db w)). has_maint (w_db w) (st_maint_id s)"
      "steps_progress (d_steps (w_db w))" "steps_fit (w_db w)" using assms(2) by (auto simp: steps_inv_def)
  have "?f (w_db w2) = ?f (w_db w1)" by (rule fixesD [OF fixes_resources(1) [where f = ?f] 1(5)]) simp
  then have 2: "d_maints (w_db w2) = d_maints (w_db w) @ [new_row cmd w]" "d_steps (w_db w2) = d_steps (w_db w)"
    using 1(2) by simp_all
  from post_InrD [OF AddSteps_planned 1(6)] 2(2) inv(1) obtain rows where
    3: "w_db w3 = (w_db w2)\<lparr>d_steps := d_steps (w_db w) @ rows\<rparr>" "planned_rows mid rows" "steps_unique (d_steps (w_db w) @ rows)" by auto
  have "?f (w_db w4) = ?f (w_db w3)" by (rule fixesD [OF fixes_creates(1) [where f = ?f] 1(7)]) simp
  moreover have "?f (w_db w5) = ?f (w_db w4)" by (rule fixesD [OF fixes_creates(2) [where f = ?f] 1(8)]) simp
  moreover have "?f (w_db w') = ?f (w_db w5)" by (rule fixesD [OF fixes_mentions(1) [where f = ?f] 1(9)]) simp
  ultimately have 4: "d_maints (w_db w') = d_maints (w_db w) @ [new_row cmd w]" "d_steps (w_db w') = d_steps (w_db w) @ rows"
    using 3(1) 2(1) by simp_all
  have old: "\<forall>s \<in> set (d_steps (w_db w)). st_maint_id s \<noteq> mid" using inv(2) 1(4) by auto
  have "steps_progress (d_steps (w_db w'))" unfolding 4 by (rule progress_append [OF inv(3) 3(2) old])
  moreover have fresh: "\<forall>r \<in> set (d_maints (w_db w)). mt_id r \<noteq> mid" using 1(4) by (auto simp: has_maint_def)
  have "step_fits (mt_status r) (st_status s)"
    if "s \<in> set (d_steps (w_db w'))" "r \<in> set (d_maints (w_db w'))" "mt_id r = st_maint_id s" for s r
  proof (cases "s \<in> set rows")
    case True
    then have "st_maint_id s = mid" "st_status s = StepPlanned" using 3(2) by (auto simp: planned_rows_def)
    with that fresh have "r = new_row cmd w" unfolding 4 by auto
    then show ?thesis by (simp add: step_fits_def \<open>st_status s = StepPlanned\<close>)
  next
    case False
    then have s: "s \<in> set (d_steps (w_db w))" using that(1) unfolding 4 by simp
    with old that(3) 1(1) have "r \<noteq> new_row cmd w" by auto
    with that(2) s inv(4) that(3) show ?thesis unfolding 4 steps_fit_def by auto
  qed
  then have "steps_fit (w_db w')" unfolding steps_fit_def by blast
  moreover have "\<forall>s \<in> set (d_steps (w_db w')). has_maint (w_db w') (st_maint_id s)"
    using inv(2) 3(2) 1(1) by (auto simp: 4 has_maint_def planned_rows_def)
  ultimately show ?thesis using 3(3) 4 by (simp add: steps_inv_def)
qed

lemma steps_unique_filter: "steps_unique rows \<Longrightarrow> steps_unique (filter P rows)"
  by (simp add: steps_unique_def distinct_map_filter)

lemma replaceSteps_post:
  assumes "m_steps m = stepsFromCmd ins StepPlanned" "steps_unique (d_steps (w_db w))"
  shows "post (replaceSteps m) (\<lambda>_ w'. \<exists>rows. d_steps (w_db w') = filter (\<lambda>s. st_maint_id s \<noteq> m_id m) (d_steps (w_db w)) @ rows
      \<and> planned_rows (m_id m) rows \<and> steps_unique (d_steps (w_db w'))) (\<lambda>_ _. True) w"
proof -
  have "post (DeleteSteps (m_id m)) (\<lambda>_ v. d_steps (w_db v) = filter (\<lambda>s. st_maint_id s \<noteq> m_id m) (d_steps (w_db w))) (\<lambda>_ _. True) w"
    by (simp add: DeleteSteps_def post_db_call split: option.split)
  then show ?thesis unfolding replaceSteps_def assms(1)
    using steps_unique_filter [OF assms(2)]
    by simp (erule post_weaken, auto intro!: post_weaken [OF AddSteps_planned])
qed

lemma edited_steps:
  assumes "applyValuesFromUpdateCmd m ts cmd = Some m'" "uc_steps cmd \<noteq> []"
  shows "m_steps m' = stepsFromCmd (uc_steps cmd) StepPlanned"
proof -
  note keep = set_opt_keeps [where g = m_steps]
  from assms(1) obtain m5 where mv: "move_start (uc_planned_start cmd) (apply_before_start cmd m) = Some m5"
      and m': "m' = apply_after_start ts cmd m5"
    by (auto simp: applyValuesFromUpdateCmd_def)
  have "m_steps m5 = m_steps (apply_before_start cmd m)" using mv by (auto simp: move_start_def split: option.splits)
  then show ?thesis using assms(2)
    by (simp add: m' apply_after_start_def apply_before_start_def Let_def keep Normalize_def)
qed

lemma steps_inv_edit:
  assumes "applyUpdate ts cmd (fromDBMaintenance row) w = (Inr (m', ()), w')" "find_maint (w_db w) (uc_maint_id cmd) = Some row"
    and "steps_inv (w_db w)" "d_maints (w_db w') = d_maints (w_db w)" "m_id m' = uc_maint_id cmd" "rows_inv (w_db w)"
  shows "steps_inv (update_row (written e now m') (w_db w'))"
  using assms(1)
proof (cases rule: edit_run)
  case (1 w1 w2 w3 w4)
  let ?d = "w_db w" and ?mid = "uc_maint_id cmd"
  have inv: "steps_unique (d_steps ?d)" "steps_progress (d_steps ?d)" "steps_fit ?d" using assms(3) by (auto simp: steps_inv_def)
  have row: "row \<in> set (d_maints ?d)" "mt_id row = ?mid" "mt_status row = StatusDraft" "m_status m' = StatusDraft"
    using find_maint_Some [OF assms(2)] 1(1) applyValues_fields(2) [OF 1(2)] by (auto simp: fromDBMaintenance_def)
  have has: "has_maint ?d ?mid" using row(1,2) by (auto simp: has_maint_def intro: rev_image_eqI)
  have "d_steps (w_db w2) = d_steps (w_db w1)"
    by (rule fixesD [OF fixes_replaces(2) [where f = d_steps] 1(4)]) simp_all
  moreover have "d_steps (w_db w3) = d_steps (w_db w2)"
    by (rule fixesD [OF fixes_replaces(3) [where f = d_steps] 1(5)]) simp_all
  moreover have "d_steps (w_db w4) = d_steps (w_db w3)"
    by (rule fixesD [OF fixes_replaces(4) [where f = d_steps] 1(6)]) simp_all
  moreover have "d_steps (w_db w') = d_steps (w_db w4)"
    by (rule fixesD [OF fixes_replaces(5) [where f = d_steps] 1(7)]) simp_all
  ultimately have same: "d_steps (w_db w') = d_steps (w_db w1)" by simp
  show ?thesis
  proof (cases "uc_steps cmd = []")
    case True
    then have "w1 = w" using 1(3) by (simp add: ret_def)
    with same have "d_steps (w_db w') = d_steps ?d" by simp
    then show ?thesis
      using assms(3,4,5) steps_fitD [OF assms(3,2)] row(3,4) by (intro steps_inv_status [where d = ?d and mid = ?mid]) auto
  next
    case False
    with 1(3) have run: "replaceSteps m' w = (Inr (), w1)" by simp
    from post_InrD [OF replaceSteps_post [OF edited_steps [OF 1(2) False] inv(1)] run] same assms(5) obtain rows where
      r: "d_steps (w_db w') = filter (\<lambda>s. st_maint_id s \<noteq> ?mid) (d_steps ?d) @ rows" "planned_rows ?mid rows"
        "steps_unique (d_steps (w_db w'))" by auto
    have "steps_progress (filter (\<lambda>s. st_maint_id s \<noteq> ?mid) (d_steps ?d))" using inv(2) by (auto simp: steps_progress_def)
    then have "steps_progress (d_steps (w_db w'))" unfolding r(1) by (rule progress_append [OF _ r(2)]) auto
    then show ?thesis
      using assms(3,4,5) row r(2,3) has
      by (intro steps_inv_write [where d = ?d and mid = ?mid]) (auto simp: r(1) planned_rows_def step_fits_def)
  qed
qed

section \<open>Taking a step\<close>

text \<open>What both step transitions do with the row they were let through for.\<close>

definition step_taken :: "uuid \<Rightarrow> uuid \<Rightarrow> step_status \<Rightarrow> db \<Rightarrow> db \<Rightarrow> bool" where
  "step_taken mid sid new d d' \<longleftrightarrow> (\<exists>s y. canChangeStepStatusTo (map fromDBMaintenanceStep (step_rows d mid)) sid new = Inr s
     \<and> st_id y = s_id s \<and> st_maint_id y = mid \<and> st_order y = s_order s \<and> st_status y = new
     \<and> d_steps d' = map (\<lambda>x. if st_id x = s_id s \<and> st_maint_id x = mid then y else x) (d_steps d) \<and> steps_unique (d_steps d'))"

lemma UpdateStep_post:
  "post (UpdateStep mid s) (\<lambda>_ w'. \<exists>y. st_id y = s_id s \<and> st_maint_id y = mid \<and> st_order y = s_order s \<and> st_status y = s_status s
      \<and> d_steps (w_db w') = map (\<lambda>x. if st_id x = s_id s \<and> st_maint_id x = mid then y else x) (d_steps (w_db w))
      \<and> steps_unique (d_steps (w_db w'))) (\<lambda>_ _. True) w"
proof -
  define y where "y = pg_step_row (w_env w) ((toDBMaintenanceStep mid (s\<lparr>s_updated_at := Some (clock (w_env w) (w_tick w))\<rparr>))\<lparr>st_id := s_id s\<rparr>)"
  have "st_id y = s_id s" "st_maint_id y = mid" "st_order y = s_order s" "st_status y = s_status s"
    by (simp_all add: y_def toDBMaintenanceStep_def)
  then show ?thesis
    by (auto simp: UpdateStep_def post_db_call Let_def y_def [symmetric] split: option.split intro!: exI [of _ y])
qed

lemma step_apply_taken:
  assumes "\<And>steps. g steps = obind (lift_sum (canChangeStepStatusTo steps sid new)) (\<lambda>s. obind UTCNow (\<lambda>now. ret [h now s]))"
    and "\<And>now s. s_id (h now s) = s_id s \<and> s_order (h now s) = s_order s \<and> s_status (h now s) = new"
  shows "post (step_apply mid g m) (\<lambda>(m', _) w'. m' = m \<and> m_status m = StatusInProgress \<and> step_taken mid sid new (w_db w) (w_db w'))
     (\<lambda>_ _. True) w"
proof -
  have lift: "post (lift_sum r) Q R v = (case r of Inl e \<Rightarrow> R e v | Inr a \<Rightarrow> Q a v)" for r Q R v
    by (simp add: post_def lift_sum_def split: sum.split)
  have "post (UpdateStep mid (h now s)) (\<lambda>_ w'. step_taken mid sid new (w_db w) (w_db w')) (\<lambda>_ _. True) v"
    if "canChangeStepStatusTo (map fromDBMaintenanceStep (step_rows (w_db w) mid)) sid new = Inr s" "w_db v = w_db w" for now s v
    by (rule post_weaken [OF UpdateStep_post]) (use that assms(2) in \<open>auto simp: step_taken_def\<close>)
  then show ?thesis
    unfolding step_apply_def GetMaintStepsForUpdate_def getSteps_def
    by (auto simp: post_db_query assms(1) lift post_now split: option.split sum.split intro!: post_weaken)
qed

lemma precedes_exists:
  assumes "t \<in> set steps" "s_order t < s_order s"
  shows "\<exists>p. precedes steps p s \<and> s_order t \<le> s_order p"
proof -
  let ?below = "{x \<in> set steps. s_order x < s_order s}"
  have fin: "finite (s_order ` ?below)" "s_order ` ?below \<noteq> {}" using assms by auto
  from Max_in [OF fin] obtain p where p: "p \<in> ?below" "s_order p = Max (s_order ` ?below)" by (auto simp: image_iff)
  have "s_order q \<le> s_order p" if "q \<in> ?below" for q unfolding p(2) using fin(1) that by simp
  with p(1) assms show ?thesis by (auto simp: precedes_def)
qed

definition listed :: "db \<Rightarrow> uuid \<Rightarrow> maint_step list" where
  "listed d mid = map fromDBMaintenanceStep (step_rows d mid)"

lemma listed_mem: "t \<in> set (listed d mid) \<longleftrightarrow> (\<exists>x \<in> set (d_steps d). st_maint_id x = mid \<and> t = fromDBMaintenanceStep x)"
  by (auto simp: listed_def step_rows_def)

lemma listed_distinct:
  assumes "steps_unique (d_steps d)"
  shows "distinct (map s_id (listed d mid))" "distinct (map s_order (listed d mid))"
proof -
  have perm: "mset (step_rows d mid) = mset (filter (\<lambda>r. st_maint_id r = mid) (d_steps d))" by (simp add: step_rows_def)
  have "distinct (map st_id (filter (\<lambda>r. st_maint_id r = mid) (d_steps d)))"
      "distinct (map st_order (filter (\<lambda>r. st_maint_id r = mid) (d_steps d)))"
    using assms by (auto simp: steps_unique_def distinct_map_filter distinct_map inj_on_def)
  then have "distinct (map st_id (step_rows d mid))" "distinct (map st_order (step_rows d mid))"
    using perm by (metis mset_eq_imp_distinct_iff mset_map)+
  then show "distinct (map s_id (listed d mid))" "distinct (map s_order (listed d mid))"
    by (simp_all add: listed_def comp_def fromDBMaintenanceStep_def)
qed

lemma canChange_listed:
  assumes "canChangeStepStatusTo (listed d mid) sid new = Inr s" "steps_unique (d_steps d)"
  obtains x where "x \<in> set (d_steps d)" "st_maint_id x = mid" "s = fromDBMaintenanceStep x" "st_id x = sid"
    "CanMainStepTransition (st_status x) new" "\<And>p. precedes (listed d mid) p s \<Longrightarrow> StepIsTerminal (s_status p)"
proof -
  note dist = listed_distinct [OF assms(2), of mid]
  have "sid \<in> s_id ` set (listed d mid)" using canChange_missing [of sid "listed d mid" new] assms(1) by fastforce
  then obtain u where u: "u \<in> set (listed d mid)" "s_id u = sid" by auto
  from canChange_cases [OF dist u, of new] assms(1) have "u = s" "CanMainStepTransition (s_status s) new"
      "\<And>p. precedes (listed d mid) p s \<Longrightarrow> StepIsTerminal (s_status p)"
    by (auto split: if_splits)
  with u listed_mem [of s d mid] that show thesis by (auto simp: fromDBMaintenanceStep_def)
qed

text \<open>With the steps taken in order so far, a finished predecessor means all earlier steps are finished.\<close>

lemma earlier_finished:
  assumes "steps_progress (d_steps d)" "steps_unique (d_steps d)" "\<And>p. precedes (listed d mid) p s \<Longrightarrow> StepIsTerminal (s_status p)"
    and "a \<in> set (d_steps d)" "st_maint_id a = mid" "st_order a < s_order s"
  shows "StepIsTerminal (st_status a)"
proof -
  have "fromDBMaintenanceStep a \<in> set (listed d mid)" using assms(4,5) listed_mem by blast
  from precedes_exists [OF this, of s] assms(6) obtain p where p: "precedes (listed d mid) p s" "st_order a \<le> s_order p"
    by (auto simp: fromDBMaintenanceStep_def)
  then obtain b where b: "b \<in> set (d_steps d)" "st_maint_id b = mid" "p = fromDBMaintenanceStep b"
    using listed_mem unfolding precedes_def by blast
  have fin: "StepIsTerminal (st_status b)" "st_order a \<le> st_order b"
    using assms(3) [OF p(1)] p(2) by (simp_all add: b(3) fromDBMaintenanceStep_def)
  show ?thesis
  proof (cases "st_order a = st_order b")
    case True
    with assms(2,4,5) b have "a = b" by (auto simp: steps_unique_def distinct_map inj_on_def)
    with fin show ?thesis by simp
  next
    case False
    with fin have "st_order a < st_order b" "st_status b \<noteq> StepPlanned" by (auto simp: StepIsTerminal_def)
    with assms(1,4,5) b(1,2) show ?thesis unfolding steps_progress_def by metis
  qed
qed

lemma step_taken_guard:
  assumes "step_taken mid sid new d d'" "steps_unique (d_steps d)" "steps_progress (d_steps d)"
  obtains x y where "x \<in> set (d_steps d)" "st_maint_id x = mid" "st_id x = sid" "CanMainStepTransition (st_status x) new"
    "\<And>a. a \<in> set (d_steps d) \<Longrightarrow> st_maint_id a = mid \<Longrightarrow> st_order a < st_order x \<Longrightarrow> StepIsTerminal (st_status a)"
    "st_id y = sid" "st_maint_id y = mid" "st_order y = st_order x" "st_status y = new"
    "d_steps d' = map (\<lambda>z. if z = x then y else z) (d_steps d)" "steps_unique (d_steps d')"
proof -
  from assms(1) obtain s y where t: "canChangeStepStatusTo (listed d mid) sid new = Inr s" "st_id y = s_id s" "st_maint_id y = mid"
      "st_order y = s_order s" "st_status y = new" "steps_unique (d_steps d')"
      "d_steps d' = map (\<lambda>x. if st_id x = s_id s \<and> st_maint_id x = mid then y else x) (d_steps d)"
    unfolding step_taken_def listed_def by blast
  from t(1) assms(2) show thesis
  proof (cases rule: canChange_listed)
    case (1 x)
    have s: "s_id s = sid" "s_order s = st_order x" using 1(3,4) by (simp_all add: fromDBMaintenanceStep_def)
    have "(st_id z = s_id s \<and> st_maint_id z = mid) \<longleftrightarrow> z = x" if "z \<in> set (d_steps d)" for z
      using that 1(1,2,4) s assms(2) by (auto simp: steps_unique_def distinct_map inj_on_def)
    then have d': "d_steps d' = map (\<lambda>z. if z = x then y else z) (d_steps d)" unfolding t(7) by (auto intro: map_cong)
    have "StepIsTerminal (st_status a)" if "a \<in> set (d_steps d)" "st_maint_id a = mid" "st_order a < st_order x" for a
      using earlier_finished [OF assms(3,2) 1(6)] that s by simp
    then show thesis using that [OF 1(1,2,4,5)] t(2-6) s d' by simp
  qed
qed

lemma steps_inv_taken:
  assumes "step_taken mid sid new d d'" "steps_inv d" "d_maints d' = d_maints d" "mt_id r' = mid" "mt_status r' = StatusInProgress"
  shows "steps_inv (update_row r' d')"
proof -
  have inv: "steps_unique (d_steps d)" "steps_progress (d_steps d)" using assms(2) by (auto simp: steps_inv_def)
  from assms(1) inv show ?thesis
  proof (cases rule: step_taken_guard)
    case (1 x y)
    have open_x: "\<not> StepIsTerminal (st_status x)" using 1(4) step_sm.terminal_stuck by blast
    have "StepIsTerminal (st_status a)"
      if ab: "a \<in> set (d_steps d')" "b \<in> set (d_steps d')" "st_maint_id a = st_maint_id b" "st_order a < st_order b"
        "st_status b \<noteq> StepPlanned" for a b
    proof -
      from ab 1(10) obtain a0 b0 where o: "a0 \<in> set (d_steps d)" "b0 \<in> set (d_steps d)" "a = (if a0 = x then y else a0)"
          "b = (if b0 = x then y else b0)" by auto
      have "a0 \<noteq> x"
        using ab o open_x inv(2) 1(1,2,7,8) unfolding steps_progress_def by (metis less_irrefl)
      moreover have "b0 = x \<Longrightarrow> StepIsTerminal (st_status a0)"
        using calculation ab o 1(5,7,8) by auto
      ultimately show ?thesis using ab o inv(2) unfolding steps_progress_def by metis
    qed
    then have "steps_progress (d_steps d')" unfolding steps_progress_def by blast
    moreover have "has_maint d mid" using 1(1,2) assms(2) by (auto simp: steps_inv_def)
    ultimately show ?thesis
      using assms 1 by (intro steps_inv_write [where d = d and mid = mid]) (auto simp: step_fits_def)
  qed
qed

lemmas start_step_taken = step_apply_taken [where new = StepStarted, OF start_step_def]
lemmas finish_step_taken = step_apply_taken [OF finish_step_def]

section \<open>The invariant over runs\<close>

lemma complete_all_finished:
  "post (complete_apply m) (\<lambda>(m', _) _. \<forall>s \<in> set (d_steps (w_db w)). st_maint_id s = m_id m \<longrightarrow> StepIsTerminal (st_status s))
     (\<lambda>_ _. True) w"
proof -
  have "StepIsTerminal (st_status s)" if "allStepsTerminal (listed d mid)" "s \<in> set (d_steps d)" "st_maint_id s = mid" for d s mid
    using that by (auto simp: allStepsTerminal_def list_all_iff listed_def step_rows_def fromDBMaintenanceStep_def)
  then show ?thesis
    by (auto simp: complete_apply_def GetMaintSteps_def getSteps_def post_db_query Let_def listed_def [symmetric] split: option.split)
qed

lemma steps_inv_change:
  assumes ap: "applies req (fromDBMaintenance row) w m' w'" and found: "find_maint (w_db w) (request_maint req) = Some row"
    and rows: "rows_inv (w_db w)" and inv: "steps_inv (w_db w)"
    and maints: "d_maints (w_db w') = d_maints (w_db w)" and id: "m_id m' = request_maint req"
  shows "steps_inv (update_row (written e now m') (w_db w'))"
proof -
  have status: "status_after req (mt_status row) = Some (m_status m')"
    using applies_status [OF ap] by (simp add: fromDBMaintenance_def)
  have row: "mt_id row = request_maint req" using find_maint_Some [OF found] by simp
  consider (edit) cmd ts where "req = UpdateMaintReq cmd" "applyUpdate ts cmd (fromDBMaintenance row) w = (Inr (m', ()), w')"
    | (step) new sid where "step_taken (request_maint req) sid new (w_db w) (w_db w')" "m_status m' = StatusInProgress"
    | (other) "\<not> edits req" "\<not> takes_step req"
  proof (cases req)
    case (StartStepReq cmd)
    with ap obtain ss where "step_apply (sc_maint_id cmd) (start_step (sc_step_id cmd)) (fromDBMaintenance row) w = (Inr (m', ss), w')" by auto
    from post_InrD [OF start_step_taken this] StartStepReq show ?thesis by (intro step) auto
  next
    case (CompleteStepReq cmd)
    with ap obtain ss where "step_apply (sc_maint_id cmd) (finish_step StepCompleted (sc_step_id cmd)) (fromDBMaintenance row) w = (Inr (m', ss), w')" by auto
    from post_InrD [OF finish_step_taken this] CompleteStepReq show ?thesis by (intro step) auto
  next
    case (CancelStepReq cmd)
    with ap obtain ss where "step_apply (sc_maint_id cmd) (finish_step StepCanceled (sc_step_id cmd)) (fromDBMaintenance row) w = (Inr (m', ss), w')" by auto
    from post_InrD [OF finish_step_taken this] CancelStepReq show ?thesis by (intro step) auto
  qed (use ap in auto)
  then show ?thesis
  proof cases
    case edit
    then show ?thesis using steps_inv_edit [OF edit(2) _ inv maints _ rows] found id by simp
  next
    case step
    then show ?thesis using steps_inv_taken [OF step(1) inv maints] id by simp
  next
    case other
    have "d_steps (w_db w') = d_steps (w_db w)" by (rule applies_fixes [where f = d_steps, OF ap]) (use other in auto)
    moreover have "step_fits (m_status m') (st_status s)" if s: "s \<in> set (d_steps (w_db w))" "st_maint_id s = request_maint req" for s
      using steps_fitD [OF inv found s] status ap other s row post_InrD [OF complete_all_finished, of "fromDBMaintenance row" w _ w']
      by (cases req) (auto simp: step_fits_def fromDBMaintenance_def split: if_splits)
    ultimately show ?thesis using id by (intro steps_inv_status [OF inv maints]) auto
  qed
qed

interpretation steps: service_invariant steps_inv
proof unfold_locales
  show "steps_inv d'" if "maint_tables d' = maint_tables d" "steps_inv d" for d d'
    using that(2) maint_tables_proj(1,3) [OF that(1)] by (simp add: steps_inv_def steps_fit_def has_maint_def)
  show "steps_inv empty_db" by (simp add: steps_inv_def steps_fit_def steps_unique_def steps_progress_def empty_db_def)
  show "steps_inv (w_db w')" if "create_tx cmd w = (Inr m, w')" "steps_inv (w_db w)" for cmd w m w'
    by (rule steps_inv_create [OF that])
  show "steps_inv (update_row (written (w_env w) now m') (w_db w'))"
    if "applies req (fromDBMaintenance row) w m' w'" "find_maint (w_db w) (request_maint req) = Some row" "rows_inv (w_db w)"
      "steps_inv (w_db w)" "d_maints (w_db w') = d_maints (w_db w)" "m_id m' = request_maint req" for req row w m' w' now
    by (rule steps_inv_change [OF that])
qed

section \<open>A sample run with two steps\<close>

definition two_step_create :: create_cmd where
  "two_step_create = sample_create\<lparr>cc_steps := [
     \<lparr>si_order = 1, si_description = ''a'', si_rollback = ''b'', si_duration_minutes = 5\<rparr>,
     \<lparr>si_order = 2, si_description = ''c'', si_rollback = ''d'', si_duration_minutes = 5\<rparr>]\<rparr>"

text \<open>The identifiers and the revision the quiet environment gives this draft.\<close>

definition step_request :: "uuid \<Rightarrow> step_cmd" where
  "step_request sid = \<lparr>sc_maint_id = 601, sc_step_id = sid, sc_actor = SystemUser\<rparr>"

definition reviewer :: user where
  "reviewer = \<lparr>u_id = 7, u_email = ''e'', u_name = ''n'', u_roles = [RoleReviewer], u_created_at = 0, u_blocked_at = None,
       u_timezone = None, u_telegram_tag = None, u_slack_tag = None\<rparr>"

definition two_steps_running :: "request list" where
  "two_steps_running = [CreateDraftReq two_step_create,
     ApproveMaintReq \<lparr>ac_maint_id = 601, ac_observed_revision = 6000000, ac_snapshot = [], ac_actor_user_id = 7, ac_actor = Some reviewer\<rparr>,
     StartMaintReq \<lparr>lc_maint_id = 601, lc_actor = SystemUser\<rparr>]"

definition two_steps_started :: "request list" where
  "two_steps_started = two_steps_running @ [StartStepReq (step_request 801), CompleteStepReq (step_request 801), StartStepReq (step_request 802)]"

lemma sample_steps: "map (\<lambda>s. (st_maint_id s, st_order s, st_status s)) (d_steps (w_db (after two_steps_started)))
    = [(601, 1, StepCompleted), (601, 2, StepStarted)]"
  by code_simp

section \<open>Properties\<close>

text \<open>C22. Steps are taken in order: in every reachable state, once a step of a maintenance has been started or
  finished, every step of that maintenance with a smaller order number is completed or cancelled.\<close>

theorem steps_taken_in_order:
  assumes "reachable w" "a \<in> set (d_steps (w_db w))" "b \<in> set (d_steps (w_db w))" "st_maint_id a = st_maint_id b"
    and "st_order a < st_order b" "st_status b \<noteq> StepPlanned"
  shows "st_status a = StepCompleted \<or> st_status a = StepCanceled"
  using steps.inv_reachable [OF assms(1)] assms(2-6)
  unfolding steps_inv_def steps_progress_def StepIsTerminal_def by blast

lemma sample_steps_list:
  obtains a b where "d_steps (w_db (after two_steps_started)) = [a, b]" "st_maint_id a = 601" "st_order a = 1" "st_status a = StepCompleted"
    "st_maint_id b = 601" "st_order b = 2" "st_status b = StepStarted"
  using sample_steps by (auto simp: map_eq_Cons_conv)

theorem steps_taken_in_order_witness:
  "\<exists>a \<in> set (d_steps (w_db (after two_steps_started))). st_order a = 1 \<and> (st_status a = StepCompleted \<or> st_status a = StepCanceled)"
proof -
  obtain a b where l: "d_steps (w_db (after two_steps_started)) = [a, b]" "st_maint_id a = 601" "st_order a = 1"
    "st_maint_id b = 601" "st_order b = 2" "st_status b = StepStarted" by (rule sample_steps_list)
  from steps_taken_in_order [OF reachable_after, of a two_steps_started b] l show ?thesis by auto
qed

text \<open>The steps agree with their maintenance in every reachable state: each belongs to a stored
  maintenance and no two of it share an order number, none has been touched while the maintenance is a draft
  or planned, and all are finished once it is completed.\<close>

theorem steps_agree_with_maintenance:
  assumes "reachable w" "s \<in> set (d_steps (w_db w))"
  shows "\<exists>row \<in> set (d_maints (w_db w)). mt_id row = st_maint_id s
    \<and> (mt_status row = StatusDraft \<or> mt_status row = StatusPlanned \<longrightarrow> st_status s = StepPlanned)
    \<and> (mt_status row = StatusCompleted \<longrightarrow> StepIsTerminal (st_status s))
    \<and> (\<forall>t \<in> set (d_steps (w_db w)). st_maint_id t = st_maint_id s \<and> st_order t = st_order s \<longrightarrow> t = s)"
proof -
  have inv: "steps_inv (w_db w)" by (rule steps.inv_reachable [OF assms(1)])
  then obtain row where row: "row \<in> set (d_maints (w_db w))" "mt_id row = st_maint_id s"
    using assms(2) by (auto simp: steps_inv_def has_maint_def)
  moreover have "t = s" if "t \<in> set (d_steps (w_db w))" "st_maint_id t = st_maint_id s" "st_order t = st_order s" for t
    using that assms(2) inv by (auto simp: steps_inv_def steps_unique_def distinct_map inj_on_def)
  ultimately show ?thesis using inv assms(2) unfolding steps_inv_def steps_fit_def step_fits_def by blast
qed

theorem steps_agree_with_maintenance_witness:
  "\<exists>row \<in> set (d_maints (w_db (after two_steps_started))). mt_id row = 601"
proof -
  obtain a b where "d_steps (w_db (after two_steps_started)) = [a, b]" "st_maint_id a = 601" by (rule sample_steps_list)
  with steps_agree_with_maintenance [OF reachable_after, of a two_steps_started] show ?thesis by auto
qed

text \<open>The check behind every step transition, exactly: with distinct identifiers and orders it reports a
  missing step, else refuses one whose immediate predecessor in the order is unfinished, else refuses a
  transition the step table does not have, and otherwise returns the step.\<close>

theorem canChangeStepStatusTo_exact:
  assumes "distinct (map s_id steps)" "distinct (map s_order steps)"
  shows "canChangeStepStatusTo steps sid new = (case find (\<lambda>s. s_id s = sid) steps of
      None \<Rightarrow> Inl ErrStepNotFound
    | Some s \<Rightarrow> if \<exists>p \<in> set steps. precedes steps p s \<and> \<not> StepIsTerminal (s_status p) then Inl ErrStepOrderViolation
        else if \<not> CanMainStepTransition (s_status s) new then Inl (ErrForbiddenStepStatusTransition (s_status s) new)
        else Inr s)"
proof (cases "find (\<lambda>s. s_id s = sid) steps")
  case None
  then have "sid \<notin> s_id ` set steps" by (auto simp: find_None_iff)
  with canChange_missing None show ?thesis by auto
next
  case (Some s)
  then have s: "s \<in> set steps" "s_id s = sid" by (auto simp: find_Some_iff in_set_conv_nth)
  have "(\<exists>p \<in> set steps. precedes steps p s \<and> \<not> StepIsTerminal (s_status p)) \<longleftrightarrow> (\<exists>p. precedes steps p s \<and> \<not> StepIsTerminal (s_status p))"
    by (auto simp: precedes_def)
  with canChange_cases [OF assms s] Some show ?thesis by simp
qed

theorem canChangeStepStatusTo_exact_witness:
  "canChangeStepStatusTo (stepsFromCmd (take 1 (cc_steps two_step_create)) StepPlanned) 5 StepStarted = Inl ErrStepNotFound"
  by (subst canChangeStepStatusTo_exact) (simp_all add: stepsFromCmd_def two_step_create_def)

end
