(* ===== verification/LifecycleSpec.thy ===== *)
theory LifecycleSpec
  imports StepOrder
begin

text \<open>
  The abstract specification of the maintenance service: a finite map from identifiers to
  statuses and, per request, the moves it may make there. The service refines it: reading
  the statuses off the tables is a simulation of every request and, along runs, of every
  reachable state. On the abstract side the lifecycle of one maintenance is a path in the
  table of \<open>internal/entity\<close>.
\<close>

section \<open>The abstract machine\<close>

type_synonym statuses = "uuid \<rightharpoonup> maint_status"

inductive spec_step :: "request \<Rightarrow> statuses \<Rightarrow> statuses \<Rightarrow> bool" where
  refuse: "spec_step req S S"
| create: "S i = None \<Longrightarrow> spec_step (CreateDraftReq cmd) S (S(i \<mapsto> StatusDraft))"
| change: "S (request_maint req) = Some s \<Longrightarrow> status_after req s = Some s' \<Longrightarrow> spec_step req S (S(request_maint req \<mapsto> s'))"

inductive_cases spec_stepE: "spec_step req S S'"

inductive spec_reachable :: "statuses \<Rightarrow> bool" where
  empty: "spec_reachable Map.empty"
| step: "spec_reachable S \<Longrightarrow> spec_step req S S' \<Longrightarrow> spec_reachable S'"

definition statuses_of :: "db \<Rightarrow> statuses" where
  "statuses_of d i = map_option mt_status (find_maint d i)"

section \<open>The simulation\<close>

lemma statuses_tables: "maint_tables d' = maint_tables d \<Longrightarrow> statuses_of d' = statuses_of d"
proof
  fix i assume "maint_tables d' = maint_tables d"
  from maint_tables_proj(1) [OF this] show "statuses_of d' i = statuses_of d i" by (simp only: statuses_of_def find_maint_def)
qed

lemma statuses_update: "has_maint d (mt_id r) \<Longrightarrow> statuses_of (update_row r d) = (statuses_of d)(mt_id r \<mapsto> mt_status r)"
  by (auto simp: statuses_of_def fun_eq_iff find_maint_update_row)

lemma statuses_create:
  assumes "d_maints d' = d_maints d @ [r]" "\<not> has_maint d (mt_id r)"
  shows "statuses_of d' = (statuses_of d)(mt_id r \<mapsto> mt_status r)" "statuses_of d (mt_id r) = None"
proof -
  have none: "find_maint d (mt_id r) = None" using assms(2) unfolding has_maint_def find_maint_def find_None_iff by (simp add: image_iff) metis
  have app: "find P (xs @ [y]) = (case find P xs of None \<Rightarrow> if P y then Some y else None | Some x \<Rightarrow> Some x)" for P and xs :: "maint_row list" and y
    by (induction xs) auto
  show "statuses_of d' = (statuses_of d)(mt_id r \<mapsto> mt_status r)"
    using none by (auto simp: statuses_of_def fun_eq_iff find_maint_def assms(1) app split: option.splits)
  show "statuses_of d (mt_id r) = None" using none by (simp add: statuses_of_def)
qed

lemma create_simulated:
  assumes "created_by req w d'"
  obtains cmd i where "req = CreateDraftReq cmd" "statuses_of (w_db w) i = None" "statuses_of d' = (statuses_of (w_db w))(i \<mapsto> StatusDraft)"
proof -
  from assms obtain cmd m w1 w2 where c: "req = CreateDraftReq cmd" "w_db w1 = w_db w" "create_tx cmd w1 = (Inr m, w2)"
      "maint_tables d' = maint_tables (w_db w2)" unfolding created_by_def by blast
  from post_InrD [OF create_rows c(3)] obtain r where r: "d_maints (w_db w2) = d_maints (w_db w) @ [r]" "mt_status r = StatusDraft"
      "\<not> has_maint (w_db w) (mt_id r)"
    by (auto simp: rows_create_def c(2))
  from statuses_create [OF r(1,3)] r(2) c(1) statuses_tables [OF c(4)] that show thesis by simp
qed

lemma change_simulated:
  assumes "changed_by req w d'"
  obtains s s' where "statuses_of (w_db w) (request_maint req) = Some s" "status_after req s = Some s'"
    "statuses_of d' = (statuses_of (w_db w))(request_maint req \<mapsto> s')"
proof -
  from assms obtain row w2 w3 m' now where c: "find_maint (w_db w) (request_maint req) = Some row"
     "applies req (fromDBMaintenance row) w2 m' w3" "d_maints (w_db w3) = d_maints (w_db w)" "m_id m' = request_maint req"
     "maint_tables d' = maint_tables (update_row (written (w_env w) now m') (w_db w3))"
    unfolding changed_by_def by blast
  have "has_maint (w_db w3) (request_maint req)"
    using c(3) find_maint_Some [OF c(1)] by (auto simp: has_maint_def intro: rev_image_eqI)
  then have "statuses_of d' = (statuses_of (w_db w3))(request_maint req \<mapsto> m_status m')"
    using statuses_tables [OF c(5)] statuses_update [of "w_db w3" "written (w_env w) now m'"] c(4) by simp
  moreover have "statuses_of (w_db w3) = statuses_of (w_db w)" using c(3) by (simp add: statuses_of_def fun_eq_iff find_maint_def)
  ultimately show thesis
    using that [of "mt_status row" "m_status m'"] applies_status [OF c(2)] c(1) by (simp add: statuses_of_def fromDBMaintenance_def)
qed

lemma outcome_simulated:
  assumes "outcome req w f w'"
  shows "spec_step req (statuses_of (w_db w)) (statuses_of (w_db w'))"
  using assms unfolding outcome_def
proof (elim disjE)
  assume "maint_tables (w_db w') = maint_tables (w_db w) \<and> (f \<or> may_skip req)"
  from statuses_tables [OF conjunct1 [OF this]] show ?thesis by (simp add: refuse)
qed (auto elim!: create_simulated change_simulated intro: spec_step.create spec_step.change)

lemma request_outcome: "reachable w \<Longrightarrow> serve req w = (r, w') \<Longrightarrow> outcome req w (isl r) w'"
  using serve_outcome reachable_rows by blast

lemma reachable_simulated: "reachable w \<Longrightarrow> spec_reachable (statuses_of (w_db w))"
proof (induction rule: reachable.induct)
  case (start w)
  then have "statuses_of (w_db w) = Map.empty"
    using statuses_tables [of "w_db w" empty_db] by (simp add: initial_def statuses_of_def fun_eq_iff find_maint_def empty_db_def)
  then show ?case by (simp add: spec_reachable.empty)
next
  case (step w w')
  from step(2) show ?case
  proof (cases rule: service_step.cases)
    case (serve_request req r)
    from spec_reachable.step [OF step(3) outcome_simulated [OF request_outcome [OF step(1) this]]] show ?thesis .
  next
    case outside
    from statuses_tables [OF this(2)] step(3) show ?thesis by simp
  qed
qed

section \<open>Properties\<close>

text \<open>C6. The service refines the abstract lifecycle machine: reading the statuses off the tables, every
  request is one of its moves (refuse, create a draft under a fresh identifier, or take the one maintenance
  the request names to the status the request leads to), every reachable state of the service is a reachable
  state of the machine, and a request other than a cancellation or a completion that reports success has
  made its move.\<close>

theorem service_refines_lifecycle:
  assumes "reachable w" "serve req w = (r, w')"
  shows "spec_step req (statuses_of (w_db w)) (statuses_of (w_db w')) \<and> spec_reachable (statuses_of (w_db w))
    \<and> (r = Inr () \<and> \<not> may_skip req \<longrightarrow> (case req of
          CreateDraftReq cmd \<Rightarrow> \<exists>i. statuses_of (w_db w) i = None \<and> statuses_of (w_db w') = (statuses_of (w_db w))(i \<mapsto> StatusDraft)
        | _ \<Rightarrow> \<exists>s s'. statuses_of (w_db w) (request_maint req) = Some s \<and> status_after req s = Some s'
             \<and> statuses_of (w_db w') = (statuses_of (w_db w))(request_maint req \<mapsto> s')))"
proof (intro conjI impI)
  note out = request_outcome [OF assms]
  show "spec_step req (statuses_of (w_db w)) (statuses_of (w_db w'))" by (rule outcome_simulated [OF out])
  show "spec_reachable (statuses_of (w_db w))" by (rule reachable_simulated [OF assms(1)])
  assume ok: "r = Inr () \<and> \<not> may_skip req"
  then have "created_by req w (w_db w') \<or> changed_by req w (w_db w')" using out by (simp add: outcome_def)
  then show "case req of
          CreateDraftReq cmd \<Rightarrow> \<exists>i. statuses_of (w_db w) i = None \<and> statuses_of (w_db w') = (statuses_of (w_db w))(i \<mapsto> StatusDraft)
        | _ \<Rightarrow> \<exists>s s'. statuses_of (w_db w) (request_maint req) = Some s \<and> status_after req s = Some s'
             \<and> statuses_of (w_db w') = (statuses_of (w_db w))(request_maint req \<mapsto> s')"
  proof (elim disjE)
    assume "created_by req w (w_db w')"
    then obtain cmd i where c: "req = CreateDraftReq cmd" "statuses_of (w_db w) i = None"
        "statuses_of (w_db w') = (statuses_of (w_db w))(i \<mapsto> StatusDraft)" by (rule create_simulated)
    then have "\<exists>i. statuses_of (w_db w) i = None \<and> statuses_of (w_db w') = (statuses_of (w_db w))(i \<mapsto> StatusDraft)" by blast
    then show ?thesis unfolding c(1) request.case .
  next
    assume changed: "changed_by req w (w_db w')"
    then have "\<exists>s s'. statuses_of (w_db w) (request_maint req) = Some s \<and> status_after req s = Some s'
             \<and> statuses_of (w_db w') = (statuses_of (w_db w))(request_maint req \<mapsto> s')" by (rule change_simulated) blast
    moreover have "req \<noteq> CreateDraftReq cmd" for cmd using changed by (auto simp: changed_by_def)
    ultimately show ?thesis by (cases req) (simp_all only: request.case, blast)
  qed
qed

theorem service_refines_lifecycle_witness:
  "\<exists>s s'. statuses_of (w_db (after [CreateDraftReq sample_create])) 601 = Some s
     \<and> statuses_of (w_db (snd (serve (ApproveMaintReq sample_approve) (after [CreateDraftReq sample_create])))) 601 = Some s'"
proof -
  let ?w = "after [CreateDraftReq sample_create]" and ?req = "ApproveMaintReq sample_approve"
  have ok: "serve ?req ?w = (Inr (), snd (serve ?req ?w))" using sample_approved by (metis prod.collapse serve_def request.case(3))
  have "request_maint ?req = 601" by code_simp
  with service_refines_lifecycle [OF reachable_after ok] show ?thesis by auto
qed

end
