(* ===== verification/Sweep.thy ===== *)
theory Sweep
  imports ServiceInvariant
begin

text \<open>
  The sweep of overdue maintenances (\<open>CancelUnStarted\<close>, run by the periodic
  \<open>maint.auto.cancel\<close> task): what it may touch under any schedule of failures, and what it
  achieves when nothing fails. One item of the sweep is one \<open>AutoCancelReq\<close> of the machine.
\<close>

section \<open>What one item may do\<close>

definition unstarted :: "maint_row \<Rightarrow> bool" where
  "unstarted r \<longleftrightarrow> mt_status r = StatusDraft \<or> mt_status r = StatusPlanned"

definition overdue :: "time \<Rightarrow> maint_row \<Rightarrow> bool" where
  "overdue before r \<longleftrightarrow> unstarted r \<and> p_start (mt_planned r) < before"

text \<open>A row of the table before and after: untouched, or named, not started and cancelled by the sweep.\<close>

definition swept :: "uuid set \<Rightarrow> maint_row \<Rightarrow> maint_row \<Rightarrow> bool" where
  "swept ids r r' \<longleftrightarrow> r' = r \<or> mt_id r \<in> ids \<and> unstarted r \<and> mt_id r' = mt_id r \<and> mt_status r' = StatusCancelled
     \<and> mt_cancel_code r' = Some ReasonNotStarted \<and> mt_cancel_comment r' = Some cancelUnStartedReasonComment \<and> mt_actual r' = None"

lemma swept_trans: "swept A r1 r2 \<Longrightarrow> swept B r2 r3 \<Longrightarrow> swept (A \<union> B) r1 r3"
  by (auto simp: swept_def unstarted_def)

lemma swept_ids: "list_all2 (swept ids) rs rs' \<Longrightarrow> map mt_id rs' = map mt_id rs"
  by (induction rule: list_all2_induct) (auto simp: swept_def)

lemma item_rows:
  assumes "serve (AutoCancelReq m) w = (r, w')" "w_tx w = None" "rows_inv (w_db w)"
  shows "list_all2 (swept {m_id m}) (d_maints (w_db w)) (d_maints (w_db w'))"
proof -
  have same: ?thesis if "d_maints (w_db w') = d_maints (w_db w)" by (simp add: that swept_def list_all2_same)
  from serve_outcome [OF assms(1,2)] consider "maint_tables (w_db w') = maint_tables (w_db w)"
    | "changed_by (AutoCancelReq m) w (w_db w')" by (auto simp: outcome_def created_by_def)
  then show ?thesis
  proof cases
    case 1
    show ?thesis by (rule same [OF maint_tables_proj(1) [OF 1]])
  next
    case 2
    then obtain row w2 w3 m' now where c: "find_maint (w_db w) (m_id m) = Some row"
       "cancel_apply (sweep_cmd m) not_started (fromDBMaintenance row) w2 = (Inr (m', ()), w3)"
       "d_maints (w_db w3) = d_maints (w_db w)" "m_id m' = m_id m"
       "maint_tables (w_db w') = maint_tables (update_row (written (w_env w) now m') (w_db w3))"
      unfolding changed_by_def by auto
    let ?r = "written (w_env w) now m'"
    have rows: "d_maints (w_db w') = map (\<lambda>x. if mt_id x = m_id m then ?r else x) (d_maints (w_db w))"
      using maint_tables_proj(1) [OF c(5)] c(3,4) by (simp add: update_row_def)
    have row: "row \<in> set (d_maints (w_db w))" "mt_id row = m_id m" using find_maint_Some [OF c(1)] by auto
    have un: "unstarted row" using c(2)
      by (auto simp: cancel_apply_def not_started_def raise_def ret_def unstarted_def fromDBMaintenance_def
          elim!: osequel_InrE split: if_splits)
    have "mt_actual row = None" using un row(1) assms(3) by (auto simp: rows_inv_def life_def unstarted_def)
    then have "mt_status ?r = StatusCancelled \<and> mt_cancel_code ?r = Some ReasonNotStarted
        \<and> mt_cancel_comment ?r = Some cancelUnStartedReasonComment \<and> mt_actual ?r = None"
      using c(2)
      by (auto simp: cancel_apply_def sweep_cmd_def raise_def ret_def written_def toDBMaintenance_def pg_maint_row_def
          CloseActualPeriod_def deref_actual_def fromDBMaintenance_def elim!: osequel_InrE obind_InrE split: if_splits)
    then have "swept {m_id m} row ?r" using un row(2) c(4) by (simp add: swept_def)
    moreover have "x = row" if "x \<in> set (d_maints (w_db w))" "mt_id x = m_id m" for x
      using that row assms(3) by (auto simp: rows_inv_def distinct_map inj_on_def)
    ultimately show ?thesis by (auto simp: rows list_all2_map2 list_all2_same swept_def)
  qed
qed

lemma sweep_step:
  assumes "sweep (m # ms) w = (r, w')"
  obtains r1 w1 r2 where "serve (AutoCancelReq m) w = (r1, w1)" "sweep ms w1 = (r2, w')"
    "\<forall>es. r2 = Inr es \<longrightarrow> r = Inr ((case r1 of Inl e \<Rightarrow> [e] | Inr _ \<Rightarrow> []) @ es)"
proof -
  obtain r1 w1 where s: "serve (AutoCancelReq m) w = (r1, w1)" by fastforce
  obtain r2 w2 where t: "sweep ms w1 = (r2, w2)" by fastforce
  from s have c: "cancelMaint (sweep_cmd m) not_started w = (r1, w1)" by (simp add: serve_def)
  have "w' = w2 \<and> (\<forall>es. r2 = Inr es \<longrightarrow> r = Inr ((case r1 of Inl e \<Rightarrow> [e] | Inr _ \<Rightarrow> []) @ es))"
    using assms c t by (cases r1; cases r2) (auto simp: obind_def ocatch_def osequel_def ret_def)
  with s t that show thesis by blast
qed

lemma sweep_rows:
  assumes "sweep ms w = (r, w')" "w_tx w = None" "rows_inv (w_db w)"
  shows "list_all2 (swept (m_id ` set ms)) (d_maints (w_db w)) (d_maints (w_db w'))"
  using assms
proof (induction ms arbitrary: w r)
  case Nil
  then show ?case by (simp add: ret_def swept_def list_all2_same)
next
  case (Cons m ms)
  from Cons.prems(1) obtain r1 w1 r2 where s: "serve (AutoCancelReq m) w = (r1, w1)" "sweep ms w1 = (r2, w')" by (rule sweep_step)
  note eff = mutationD [OF mutation_serve s(1) Cons.prems(2,3)]
  have "list_all2 (swept (m_id ` set ms)) (d_maints (w_db w1)) (d_maints (w_db w'))"
    by (rule Cons.IH [OF s(2) eff(1) rows_effect_inv [OF eff(3) Cons.prems(3)]])
  from list_all2_trans [OF _ item_rows [OF s(1) Cons.prems(2,3)] this, of "swept (m_id ` set (m # ms))"] show ?case
    using swept_trans [of "{m_id m}" _ _ "m_id ` set ms"] by simp
qed

section \<open>What one item does when nothing fails\<close>

text \<open>The planned periods are stored at the precision of their columns.\<close>

definition at_precision :: "world \<Rightarrow> bool" where
  "at_precision w \<longleftrightarrow> (\<forall>r \<in> set (d_maints (w_db w)). pg_period (w_env w) (mt_planned r) = mt_planned r)"

lemma UpdateMaint_store_fault_free:
  assumes "fault_free w" "has_maint (w_db w) (m_id m)" "row_ok (written (w_env w) (clock (w_env w) (w_tick w)) m)"
  shows "UpdateMaint_store m w = (Inr (m\<lparr>m_updated_at := Some (clock (w_env w) (w_tick w))\<rparr>),
    (tick (tick w))\<lparr>w_db := update_row (written (w_env w) (clock (w_env w) (w_tick w)) m) (w_db w)\<rparr>)"
proof -
  let ?m = "m\<lparr>m_updated_at := Some (clock (w_env w) (w_tick w))\<rparr>"
  have "mt_id (toDBMaintenance ?m) = m_id m" by (simp add: toDBMaintenance_def)
  moreover have "row_error (written (w_env w) (clock (w_env w) (w_tick w)) m) = None" using assms(3) by simp
  ultimately show ?thesis
    using assms(1,2) by (simp add: UpdateMaint_store_def run_now db_call_def Let_def written_def del: row_error_None)
qed

lemma item_cancels:
  assumes "fault_free w" "w_tx w = None" "rows_inv (w_db w)" "at_precision w"
    and "row \<in> set (d_maints (w_db w))" "unstarted row" "mt_id row = m_id m"
  obtains w' r' where "serve (AutoCancelReq m) w = (Inr (), w')"
    "d_maints (w_db w') = map (\<lambda>x. if mt_id x = m_id m then r' else x) (d_maints (w_db w))"
    "mt_id r' = m_id m" "mt_status r' = StatusCancelled" "mt_planned r' = mt_planned row"
proof -
  let ?w1 = "(tick w)\<lparr>w_tx := Some (w_db w)\<rparr>" and ?m = "fromDBMaintenance row"
  let ?m' = "?m\<lparr>m_status := StatusCancelled, m_cancel_reason := ReasonNotStarted, m_cancel_comment := cancelUnStartedReasonComment\<rparr>"
  let ?app = "cancel_apply (sweep_cmd m) not_started"
  have find: "find_maint (w_db w) (m_id m) = Some row"
  proof -
    from assms(5,7) obtain x where x: "find_maint (w_db w) (m_id m) = Some x"
      using find_maint_None [of "w_db w" "m_id m"] by (force simp: has_maint_def)
    from find_maint_Some [OF x] assms(3,5,7) have "x = row" by (auto simp: rows_inv_def distinct_map inj_on_def)
    with x show ?thesis by simp
  qed
  have none: "mt_actual row = None" using assms(3,5,6) by (auto simp: rows_inv_def life_def unstarted_def)
  have close: "CloseActualPeriod ?m t = ?m" for t
    by (simp add: CloseActualPeriod_def deref_actual_def fromDBMaintenance_def none)
  have ok: "row_ok (written (w_env w) now ?m')" for now
  proof -
    have "planned_ok (pg_period (w_env w) (mt_planned row))"
      using assms(3,4,5) by (auto simp: at_precision_def rows_inv_def row_ok_def)
    then show ?thesis by (simp add: row_ok_def actual_ok_def deref_actual_def fromDBMaintenance_def none)
  qed
  have st: "m_status ?m = StatusDraft \<or> m_status ?m = StatusPlanned" using assms(6) by (simp add: unstarted_def fromDBMaintenance_def)
  have app: "?app ?m v = (Inr (?m', ()), tick v)" for v
    using st by (auto simp: cancel_apply_def not_started_def osequel_def obind_def ret_def UTCNow_def close sweep_cmd_def)
  have has: "has_maint (w_db w) (mt_id row)" using assms(5) by (simp add: has_maint_def)
  obtain c w2 where body: "update_body (m_id m) ?app ?w1 = (Inr (?m, c, ()), w2)" and env2: "w_env w2 = w_env w"
      and rows: "\<exists>now. w_db w2 = update_row (written (w_env w) now ?m') (w_db w)"
  proof -
    have get: "getMaint (m_id m) ?w1 = (Inr ?m, tick ?w1)" using assms(1) find by (simp add: getMaint_def run_query ret_def)
    let ?v = "tick (tick ?w1)"
    let ?r = "written (w_env w) (clock (w_env w) (w_tick ?v)) ?m'"
    have "UpdateMaint_store ?m' ?v = (Inr (?m'\<lparr>m_updated_at := Some (clock (w_env w) (w_tick ?v))\<rparr>),
        (tick (tick ?v))\<lparr>w_db := update_row ?r (w_db w)\<rparr>)"
      using UpdateMaint_store_fault_free [of ?v ?m'] ok has assms(1) by (simp add: fault_free_def)
    then have "update_body (m_id m) ?app ?w1 = (Inr (?m, ?m'\<lparr>m_updated_at := Some (clock (w_env w) (w_tick ?v))\<rparr>, ()),
        (tick (tick ?v))\<lparr>w_db := update_row ?r (w_db w)\<rparr>)"
      by (simp add: update_body_def GetMaintForUpdate_def obind_def get app ret_def)
    then show thesis by (rule that) auto
  qed
  from rows obtain now where now: "w_db w2 = update_row (written (w_env w) now ?m') (w_db w)" by blast
  let ?w3 = "(tick w2)\<lparr>w_tx := None\<rparr>"
  have tx: "WithinTx (update_body (m_id m) ?app) w = (Inr (?m, c, ()), ?w3)"
    by (rule WithinTx_fault_free [where fn = "update_body (m_id m) ?app", OF assms(2,1) body env2])
  obtain w4 where life: "dispatchMaintLifecycle ?m c ?w3 = (Inr (), w4)" using lifecycle_returns by blast
  with tx have upd: "updateWithApply (m_id m) ?app w = (Inr (?m, c, ()), w4)"
    by (simp add: updateWithApply_def runUpdateWithApply_def obind_def osequel_def ret_def)
  let ?w' = "snd (publishAudit (AuditMaintCancelled SystemUser c) w4)"
  have "xc_maint_id (sweep_cmd m) = m_id m" "xc_actor (sweep_cmd m) = SystemUser" by (simp_all add: sweep_cmd_def)
  then have "serve (AutoCancelReq m) w = (Inr (), ?w')"
    by (simp add: serve_def cancelMaint_def skip_ok_def ocatch_def obind_def upd publishAudit_def split: option.split)
  moreover have "d_maints (w_db ?w') = d_maints (w_db w2)"
    using maint_tables_proj(1) [OF post_tables [OF post_onlyD [OF post_only_lifecycle(1) life]]]
    by (simp add: publishAudit_def split: option.split)
  moreover have id: "m_id ?m' = m_id m" using assms(7) by (simp add: fromDBMaintenance_def)
  moreover have "d_maints (w_db w2) = map (\<lambda>x. if mt_id x = m_id m then written (w_env w) now ?m' else x) (d_maints (w_db w))"
    using id by (simp add: now update_row_def)
  moreover have "mt_planned (written (w_env w) now ?m') = mt_planned row"
    using assms(4,5) by (simp add: at_precision_def fromDBMaintenance_def)
  ultimately show thesis by (intro that [of ?w' "written (w_env w) now ?m'"]) auto
qed

lemma sweep_cancels:
  assumes "fault_free w" "w_tx w = None" "rows_inv (w_db w)" "at_precision w" "distinct (map m_id ms)"
    and "\<forall>m \<in> set ms. \<exists>row \<in> set (d_maints (w_db w)). mt_id row = m_id m \<and> unstarted row"
    and "sweep ms w = (r, w')"
  shows "r = Inr [] \<and> (\<forall>m \<in> set ms. \<exists>row \<in> set (d_maints (w_db w')). mt_id row = m_id m \<and> mt_status row = StatusCancelled)"
  using assms
proof (induction ms arbitrary: w r)
  case Nil
  then show ?case by (simp add: ret_def)
next
  case (Cons m ms)
  from Cons.prems(7) obtain r1 w1 r2 where s: "serve (AutoCancelReq m) w = (r1, w1)" "sweep ms w1 = (r2, w')"
    and r: "\<forall>es. r2 = Inr es \<longrightarrow> r = Inr ((case r1 of Inl e \<Rightarrow> [e] | Inr _ \<Rightarrow> []) @ es)" by (rule sweep_step)
  from Cons.prems(6) obtain row where row: "row \<in> set (d_maints (w_db w))" "unstarted row" "mt_id row = m_id m" by auto
  from item_cancels [OF Cons.prems(1-4) row] s(1) obtain r' where i: "r1 = Inr ()"
      "d_maints (w_db w1) = map (\<lambda>x. if mt_id x = m_id m then r' else x) (d_maints (w_db w))"
      "mt_id r' = m_id m" "mt_status r' = StatusCancelled" "mt_planned r' = mt_planned row" by auto
  note eff = mutationD [OF mutation_serve s(1) Cons.prems(2,3)]
  have inv: "rows_inv (w_db w1)" by (rule rows_effect_inv [OF eff(3) Cons.prems(3)])
  have "at_precision w1" using Cons.prems(4) row(1) i(2,5) eff(2) by (auto simp: at_precision_def)
  moreover have "\<exists>row \<in> set (d_maints (w_db w1)). mt_id row = m_id x \<and> unstarted row" if "x \<in> set ms" for x
  proof -
    from that Cons.prems(5,6) obtain y where "y \<in> set (d_maints (w_db w))" "mt_id y = m_id x" "unstarted y" "m_id x \<noteq> m_id m"
      by (metis distinct.simps(2) image_eqI list.set_intros(2) list.set_map list.simps(9))
    then show ?thesis by (intro bexI [of _ y]) (auto simp: i(2))
  qed
  ultimately have "r2 = Inr [] \<and> (\<forall>m \<in> set ms. \<exists>row \<in> set (d_maints (w_db w')). mt_id row = m_id m \<and> mt_status row = StatusCancelled)"
    using Cons.prems(1,5) eff(1,2) inv s(2) by (intro Cons.IH) (auto simp: fault_free_def)
  moreover have "\<exists>row \<in> set (d_maints (w_db w')). mt_id row = m_id m \<and> mt_status row = StatusCancelled"
  proof -
    have "r' \<in> set (d_maints (w_db w1))" using row by (force simp: i(2))
    with sweep_rows [OF s(2) eff(1) inv] obtain x where "x \<in> set (d_maints (w_db w'))" "swept (m_id ` set ms) r' x"
      by (metis in_set_conv_nth list_all2_conv_all_nth)
    then show ?thesis using i(3,4) by (auto simp: swept_def)
  qed
  ultimately show ?case using r i(1) by simp
qed

section \<open>The listing\<close>

definition earliest_overdue :: "time \<Rightarrow> db \<Rightarrow> maint_row list" where
  "earliest_overdue before d = sort_func (\<lambda>a b. ord_cmp (p_start (mt_planned a)) (p_start (mt_planned b)))
     (filter (overdue before) (d_maints d))"

lemma earliest_overdue_distinct: "rows_inv d \<Longrightarrow> distinct (map mt_id (earliest_overdue before d))"
proof -
  assume "rows_inv d"
  then have "distinct (map mt_id (filter (overdue before) (d_maints d)))" by (simp add: rows_inv_def distinct_map_filter)
  moreover have "mset (map mt_id (earliest_overdue before d)) = mset (map mt_id (filter (overdue before) (d_maints d)))"
    by (simp add: earliest_overdue_def)
  ultimately show ?thesis using mset_eq_imp_distinct_iff by blast
qed

lemma sweep_run:
  assumes "CancelUnStarted cutoff limit w = (r, w')"
  obtains (failed) e where "r = Inl e" "w' = tick w" "fault (w_env w) (w_tick w) \<noteq> None \<or> limit < 0"
  | (swept) errs where "0 \<le> limit" "r = (if errs = [] then Inr () else Inl (ErrJoin errs))"
      "sweep (map fromDBMaintenance (take (nat limit) (earliest_overdue (pg_time (w_env w) cutoff) (w_db w)))) (tick w) = (Inr errs, w')"
proof -
  have total: "\<exists>errs v'. sweep ms v = (Inr errs, v')" for ms v
  proof (induction ms arbitrary: v)
    case (Cons m ms)
    obtain x v' where "sweep (m # ms) v = (x, v')" by fastforce
    from this sweep_step [OF this] Cons.IH show ?case by (metis prod.inject)
  qed (simp add: ret_def)
  have list: "(\<lambda>r. (mt_status r = StatusDraft \<or> mt_status r = StatusPlanned) \<and> p_start (mt_planned r) < b) = overdue b" for b
    by (auto simp: overdue_def unstarted_def)
  show thesis
  proof (cases "fault (w_env w) (w_tick w) = None \<and> 0 \<le> limit")
    case False
    with assms have "w' = tick w \<and> (\<exists>e. r = Inl e)"
      by (auto simp: CancelUnStarted_def ListOverdueNotStarted_def run_call split: option.splits if_splits)
    with False show thesis by (auto intro: failed)
  next
    case True
    let ?ms = "map fromDBMaintenance (take (nat limit) (earliest_overdue (pg_time (w_env w) cutoff) (w_db w)))"
    obtain errs v' where s: "sweep ?ms (tick w) = (Inr errs, v')" using total by blast
    let ?k = "\<lambda>errs. if errs = [] then ret () else raise (ErrJoin errs)"
    have "CancelUnStarted cutoff limit w = (if ?ms = [] then ret () else obind (sweep ?ms) ?k) (tick w)"
      using True by (simp add: CancelUnStarted_def ListOverdueNotStarted_def run_call list earliest_overdue_def)
    moreover have "\<dots> = ?k errs v'" using s by (cases "?ms = []") (auto simp: obind_def ret_def)
    ultimately show thesis using assms s True by (intro swept [of errs]) (auto simp: ret_def raise_def split: if_splits)
  qed
qed

lemma count_split: "length (filter P xs) = length (filter (\<lambda>x. P x \<and> Q x) xs) + length (filter (\<lambda>x. P x \<and> \<not> Q x) xs)"
  by (induction xs) auto

lemma list_all2_count: "list_all2 (\<lambda>x y. P x \<longleftrightarrow> Q y) xs ys \<Longrightarrow> length (filter P xs) = length (filter Q ys)"
  by (induction rule: list_all2_induct) auto

section \<open>Properties\<close>

text \<open>What the sweep may touch, whatever fails on the way: every maintenance keeps its row, except that one
  that was not started and whose planned start lies before the cutoff may have been cancelled with the
  reason and the comment of the sweep. So a started or finished maintenance is never cancelled by it, at
  most \<open>limit\<close> are, and those are among the \<open>limit\<close> overdue ones with the earliest planned start.\<close>

theorem sweep_spares_the_rest:
  assumes "reachable w" "CancelUnStarted cutoff limit w = (r, w')"
  shows "list_all2 (\<lambda>row row'. row' = row \<or> overdue (pg_time (w_env w) cutoff) row \<and> mt_id row' = mt_id row
      \<and> mt_status row' = StatusCancelled \<and> mt_cancel_code row' = Some ReasonNotStarted
      \<and> mt_cancel_comment row' = Some cancelUnStartedReasonComment
      \<and> row \<in> set (take (nat limit) (earliest_overdue (pg_time (w_env w) cutoff) (w_db w))))
    (d_maints (w_db w)) (d_maints (w_db w'))"
  using assms(2)
proof (cases rule: sweep_run)
  case (failed e)
  then show ?thesis by (simp add: list_all2_same)
next
  case (swept errs)
  let ?listed = "take (nat limit) (earliest_overdue (pg_time (w_env w) cutoff) (w_db w))"
  have inv: "w_tx w = None" "rows_inv (w_db w)" using reachable_rows [OF assms(1)] by auto
  have listed: "x \<in> set (d_maints (w_db w)) \<and> overdue (pg_time (w_env w) cutoff) x" if "x \<in> set ?listed" for x
    using in_set_takeD [OF that] by (simp add: earliest_overdue_def)
  have "x = y" if "x \<in> set (d_maints (w_db w))" "y \<in> set ?listed" "mt_id x = mt_id y" for x y
    using that listed [OF that(2)] inv(2) by (auto simp: rows_inv_def distinct_map inj_on_def)
  then have member: "x \<in> set ?listed" if "x \<in> set (d_maints (w_db w))" "mt_id x \<in> mt_id ` set ?listed" for x
    using that by auto
  have "list_all2 (Sweep.swept (mt_id ` set ?listed)) (d_maints (w_db w)) (d_maints (w_db w'))"
    using sweep_rows [OF swept(3)] inv by (simp add: image_image fromDBMaintenance_def)
  then show ?thesis
    by (rule list.rel_mono_strong) (use member listed in \<open>auto simp: swept_def\<close>)
qed

theorem sweep_spares_the_rest_witness:
  "length (d_maints (w_db (snd (CancelUnStarted (1000 * second) 5 (after [CreateDraftReq sample_create]))))) = 1"
proof -
  let ?w = "after [CreateDraftReq sample_create]"
  from sweep_spares_the_rest [OF reachable_after prod.collapse [of "CancelUnStarted (1000 * second) 5 ?w", symmetric]]
  have "length (d_maints (w_db (snd (CancelUnStarted (1000 * second) 5 ?w)))) = length (d_maints (w_db ?w))"
    by (simp add: list_all2_lengthD)
  moreover have "length (d_maints (w_db ?w)) = 1" using sample_draft by (metis length_map list.size(3,4) One_nat_def add_0)
  ultimately show ?thesis by simp
qed

text \<open>C35. What the sweep achieves: when no statement fails and the planned periods are stored at the precision of
  their columns, it reports success and cancels exactly as many overdue maintenances as the limit allows, so
  repeated sweeps leave none.\<close>

theorem sweep_makes_progress:
  assumes "reachable w" "fault_free w" "at_precision w" "0 \<le> limit" "CancelUnStarted cutoff limit w = (r, w')"
  shows "r = Inr () \<and> length (filter (overdue (pg_time (w_env w) cutoff)) (d_maints (w_db w')))
      = length (filter (overdue (pg_time (w_env w) cutoff)) (d_maints (w_db w))) - nat limit"
  using assms(5)
proof (cases rule: sweep_run)
  case (failed e)
  with assms(2,4) show ?thesis by simp
next
  case (swept errs)
  let ?ov = "overdue (pg_time (w_env w) cutoff)" and ?d = "d_maints (w_db w)" and ?d' = "d_maints (w_db w')"
  let ?listed = "take (nat limit) (earliest_overdue (pg_time (w_env w) cutoff) (w_db w))"
  let ?ids = "mt_id ` set ?listed"
  have inv: "w_tx w = None" "rows_inv (w_db w)" using reachable_rows [OF assms(1)] by auto
  have listed: "x \<in> set ?d \<and> ?ov x" if "x \<in> set ?listed" for x
    using in_set_takeD [OF that] by (simp add: earliest_overdue_def)
  have dist: "distinct (map mt_id ?listed)" using earliest_overdue_distinct [OF inv(2)] by (simp add: take_map [symmetric])
  have unique: "x = y" if "x \<in> set ?d" "y \<in> set ?d" "mt_id x = mt_id y" for x y
    using that inv(2) by (auto simp: rows_inv_def distinct_map inj_on_def)
  have rows: "list_all2 (Sweep.swept ?ids) ?d ?d'"
    using sweep_rows [OF swept(3)] inv by (simp add: image_image fromDBMaintenance_def)
  have "\<exists>row \<in> set ?d. mt_id row = mt_id x \<and> unstarted row" if "x \<in> set ?listed" for x
    using listed [OF that] by (auto simp: overdue_def)
  then have cleared: "errs = [] \<and> (\<forall>x \<in> set ?listed. \<exists>row \<in> set ?d'. mt_id row = mt_id x \<and> mt_status row = StatusCancelled)"
    using sweep_cancels [OF _ _ _ _ _ _ swept(3)] assms(2,3) inv dist
    by (simp add: fault_free_def at_precision_def fromDBMaintenance_def comp_def)
  have cancelled: "mt_status y = StatusCancelled" if "y \<in> set ?d'" "mt_id y \<in> ?ids" for y
  proof -
    have "distinct (map mt_id ?d')" using swept_ids [OF rows] inv(2) by (simp add: rows_inv_def)
    with that cleared show ?thesis by (force simp: distinct_map inj_on_def)
  qed
  have "list_all2 (\<lambda>x y. (?ov x \<and> mt_id x \<notin> ?ids) \<longleftrightarrow> ?ov y) ?d ?d'"
    using rows
    by (rule list.rel_mono_strong) (use cancelled in \<open>auto simp: swept_def overdue_def unstarted_def\<close>)
  then have left: "length (filter ?ov ?d') = length (filter (\<lambda>x. ?ov x \<and> mt_id x \<notin> ?ids) ?d)" by (simp add: list_all2_count)
  have "set (filter (\<lambda>x. ?ov x \<and> mt_id x \<in> ?ids) ?d) = set ?listed" using unique listed by auto
  then have "length (filter (\<lambda>x. ?ov x \<and> mt_id x \<in> ?ids) ?d) = length ?listed"
    using dist inv(2) by (metis (no_types, lifting) distinct_card distinct_filter distinct_map rows_inv_def)
  moreover have "length ?listed = min (nat limit) (length (filter ?ov ?d))" by (simp add: earliest_overdue_def)
  ultimately have "length (filter ?ov ?d') = length (filter ?ov ?d) - nat limit"
    using left count_split [of ?ov ?d "\<lambda>x. mt_id x \<in> ?ids"] by linarith
  then show ?thesis using swept(2) cleared by simp
qed

theorem sweep_makes_progress_witness:
  "length (filter (overdue (1000 * second)) (d_maints (w_db (after [CreateDraftReq sample_create])))) = 1
     \<and> filter (overdue (1000 * second)) (d_maints (w_db (snd (CancelUnStarted (1000 * second) 5 (after [CreateDraftReq sample_create]))))) = []"
proof -
  let ?w = "after [CreateDraftReq sample_create]"
  have one: "length (filter (overdue (1000 * second)) (d_maints (w_db ?w))) = 1" by code_simp
  have "w_env ?w = w_env (quiet_world setup_db)"
    using mutationD(2) [OF mutation_serve prod.collapse [symmetric]] reachable_rows [OF reachable_after [of "[]"]]
    by (simp add: after_def)
  then have env: "w_env ?w = quiet_env" by (simp add: quiet_world_def)
  have "fault_free ?w" by (simp add: fault_free_def env quiet_env_def)
  moreover have "at_precision ?w" by (simp add: at_precision_def env quiet_env_def pg_period_def option.map_ident)
  ultimately show ?thesis
    using sweep_makes_progress [OF reachable_after _ _ _ prod.collapse [of "CancelUnStarted (1000 * second) 5 ?w", symmetric]] one env
    by (simp add: quiet_env_def)
qed

end
