(* ===== verification/TokenService.thy ===== *)
theory TokenService
  imports Deferred MaintStore
begin

text \<open>
  Refresh tokens: \<open>internal/storages/refreshtoken\<close>, the revocation marks of
  \<open>internal/storages/blacklisttoken\<close> and the token service
  \<open>internal/services/token\<close> (issue, rotate, revoke, prune; the access token itself is the
  JWT library's, under the environment's key). The advisory locks of
  \<open>internal/utils/dbtx\<close> are statements that need an open transaction.
\<close>

section \<open>Locks and small readings\<close>

definition AdvisoryXactLock :: "unit op" where
  "AdvisoryXactLock = obind (read_world w_tx) (\<lambda>tx. if tx = None then raise ErrNoTransaction else db_query (\<lambda>_. ()))"

definition on_auth :: "(env \<Rightarrow> nat \<Rightarrow> auth_db \<Rightarrow> apperr + ('a \<times> auth_db)) \<Rightarrow> 'a op" where
  "on_auth f = db_call (\<lambda>e t d. case f e t (d_auth d) of Inl err \<Rightarrow> Inl err | Inr (a, x) \<Rightarrow> Inr (a, d\<lparr>d_auth := x\<rparr>))"

definition auth_query :: "(env \<Rightarrow> nat \<Rightarrow> auth_db \<Rightarrow> 'a) \<Rightarrow> 'a op" where
  "auth_query q = on_auth (\<lambda>e t x. Inr (q e t x, x))"

definition read_cfg :: "(auth_cfg \<Rightarrow> 'a) \<Rightarrow> 'a op" where
  "read_cfg f = read_world (\<lambda>w. f (au_cfg (e_auth (w_env w))))"

section \<open>The refresh-token store\<close>

definition find_token :: "auth_db \<Rightarrow> string \<Rightarrow> refresh_row option" where
  "find_token x h = find (\<lambda>r. rt_hash r = h) (a_refresh x)"

definition GetByTokenHash :: "string \<Rightarrow> refresh_row op" where
  "GetByTokenHash h = obind (auth_query (\<lambda>_ _ x. find_token x h)) (\<lambda>r.
     case r of None \<Rightarrow> raise ErrRefreshTokenNotFound | Some t \<Rightarrow> ret t)"

definition live :: "refresh_row \<Rightarrow> bool" where
  "live r \<longleftrightarrow> \<not> rt_revoked r"

definition HasLiveToken :: "uuid \<Rightarrow> bool op" where
  "HasLiveToken family = auth_query (\<lambda>e t x. \<exists>r \<in> set (a_refresh x). rt_family r = family \<and> live r \<and> rt_expires_at r > clock e t)"

definition LockUserSessions :: "uuid \<Rightarrow> unit op" where
  "LockUserSessions uid = AdvisoryXactLock"

text \<open>The row an insert stores: \<open>created_at\<close> by its default, the instants at column precision.\<close>

definition stored_token :: "env \<Rightarrow> nat \<Rightarrow> refresh_row \<Rightarrow> refresh_row" where
  "stored_token e t r = r\<lparr>rt_expires_at := pg_time e (rt_expires_at r), rt_grace := map_option (pg_time e) (rt_grace r),
     rt_started_at := pg_time e (rt_started_at r), rt_created_at := pg_time e (clock e t),
     rt_updated_at := map_option (pg_time e) (rt_updated_at r)\<rparr>"

definition token_Save :: "refresh_row \<Rightarrow> unit op" where
  "token_Save r = db_call (\<lambda>e t d. let row = stored_token e t r in
     if find_token (d_auth d) (rt_hash row) \<noteq> None then Inl PgUniqueViolation
     else if rt_user row \<notin> u_id ` set (d_users d) then Inl PgForeignKeyViolation
     else Inr ((), d\<lparr>d_auth := (d_auth d)\<lparr>a_refresh := a_refresh (d_auth d) @ [row]\<rparr>\<rparr>))"

definition rotated :: "env \<Rightarrow> nat \<Rightarrow> string \<Rightarrow> time \<Rightarrow> refresh_row \<Rightarrow> refresh_row" where
  "rotated e t succ grace r = r\<lparr>rt_revoked := True, rt_replaced_by := Some succ, rt_grace := Some (pg_time e grace),
     rt_updated_at := Some (pg_time e (clock e t))\<rparr>"

definition token_Rotate :: "string \<Rightarrow> string \<Rightarrow> time \<Rightarrow> unit op" where
  "token_Rotate h succ grace = obind (on_auth (\<lambda>e t x.
       let hit = (\<lambda>r. rt_hash r = h \<and> live r) in
       Inr (length (filter hit (a_refresh x)),
         x\<lparr>a_refresh := map (\<lambda>r. if hit r then rotated e t succ grace r else r) (a_refresh x)\<rparr>)))
     (\<lambda>n. if n = 0 then raise ErrRefreshTokenAlreadyRotated else ret ())"

definition revoked_row :: "env \<Rightarrow> nat \<Rightarrow> refresh_row \<Rightarrow> refresh_row" where
  "revoked_row e t r = r\<lparr>rt_revoked := True, rt_updated_at := Some (pg_time e (clock e t))\<rparr>"

definition token_revoke :: "(refresh_row \<Rightarrow> bool) \<Rightarrow> uuid list op" where
  "token_revoke p = on_auth (\<lambda>e t x. Inr (uniq (map rt_family (filter p (a_refresh x))),
     x\<lparr>a_refresh := map (\<lambda>r. if p r then revoked_row e t r else r) (a_refresh x)\<rparr>))"

definition RevokeByUserID :: "uuid \<Rightarrow> uuid list op" where
  "RevokeByUserID uid = token_revoke (\<lambda>r. rt_user r = uid)"

definition RevokeByUserIDExceptFamily :: "uuid \<Rightarrow> uuid \<Rightarrow> uuid list op" where
  "RevokeByUserIDExceptFamily uid keep = token_revoke (\<lambda>r. rt_user r = uid \<and> rt_family r \<noteq> keep)"

definition RevokeFamily :: "uuid \<Rightarrow> unit op" where
  "RevokeFamily family = osequel (token_revoke (\<lambda>r. rt_family r = family)) (ret ())"

text \<open>The hashes one batch of the prune selects: the oldest expired ones, up to the limit.\<close>

definition prune_batch :: "time \<Rightarrow> int \<Rightarrow> refresh_row list \<Rightarrow> string list" where
  "prune_batch cutoff limit rows = map rt_hash (take (nat limit)
     (sort_func (\<lambda>a b. ord_cmp (rt_expires_at a) (rt_expires_at b)) (filter (\<lambda>r. rt_expires_at r < cutoff) rows)))"

definition PruneExpiredBefore :: "time \<Rightarrow> int \<Rightarrow> int op" where
  "PruneExpiredBefore cutoff limit = on_auth (\<lambda>e _ x. if limit < 0 then Inl (PgOther 2201) else
     let hs = prune_batch (pg_time e cutoff) limit (a_refresh x) in
     Inr (int (length (filter (\<lambda>r. rt_hash r \<in> set hs) (a_refresh x))),
       x\<lparr>a_refresh := filter (\<lambda>r. rt_hash r \<notin> set hs) (a_refresh x)\<rparr>))"

section \<open>Revocation marks\<close>

definition blacklist_key :: "string \<Rightarrow> string" where
  "blacklist_key jti = ''blacklist:'' @ jti"

definition session_key :: "string \<Rightarrow> string" where
  "session_key sid = ''blacklist:session:'' @ sid"

text \<open>One command to the key-value store, which may fail like any other call.\<close>

definition valkey_set :: "string list \<Rightarrow> duration \<Rightarrow> unit op" where
  "valkey_set keys ttl w = (case fault (w_env w) (w_tick w) of Some e \<Rightarrow> (Inl e, tick w)
     | None \<Rightarrow> (Inr (), (tick w)\<lparr>w_valkey := w_valkey w @ map (\<lambda>k. (k, clock (w_env w) (w_tick w) + ttl)) keys\<rparr>))"

definition valkey_exists :: "string list \<Rightarrow> bool op" where
  "valkey_exists keys w = (case fault (w_env w) (w_tick w) of Some e \<Rightarrow> (Inl e, tick w)
     | None \<Rightarrow> (Inr (\<exists>(k, until) \<in> set (w_valkey w). k \<in> set keys \<and> clock (w_env w) (w_tick w) < until), tick w))"

definition blacklist_Add :: "string \<Rightarrow> duration \<Rightarrow> unit op" where
  "blacklist_Add jti ttl = (if ttl \<le> 0 then ret () else valkey_set [blacklist_key jti] ttl)"

definition AddSessions :: "duration \<Rightarrow> uuid list \<Rightarrow> unit op" where
  "AddSessions ttl ids = (if ttl \<le> 0 \<or> ids = [] then ret () else valkey_set (map (\<lambda>i. session_key (uuid_string i)) ids) ttl)"

definition IsRevoked :: "string \<Rightarrow> string \<Rightarrow> bool op" where
  "IsRevoked jti sid = valkey_exists (blacklist_key jti # (if sid \<noteq> [] then [session_key sid] else []))"

section \<open>The token service\<close>

definition GenerateRefreshToken :: "(string \<times> string) op" where
  "GenerateRefreshToken w = (case au_random (e_auth (w_env w)) (w_tick w) of Inl e \<Rightarrow> (Inl e, tick w)
     | Inr raw \<Rightarrow> (Inr (raw, sha256_hex (w_env w) raw), tick w))"

definition GetRefreshTokenByHash :: "string \<Rightarrow> refresh_row op" where
  "GetRefreshTokenByHash h = GetByTokenHash h"

definition HasLiveRefreshToken :: "uuid \<Rightarrow> bool op" where
  "HasLiveRefreshToken family = HasLiveToken family"

definition new_uuid :: "uuid op" where
  "new_uuid w = (Inr (gen (w_env w) (w_tick w) 0), tick w)"

definition or_else :: "string \<Rightarrow> string \<Rightarrow> string" where
  "or_else a b = (if a \<noteq> [] then a else b)"

definition IssueAccessToken :: "duration \<Rightarrow> user \<Rightarrow> uuid \<Rightarrow> string op" where
  "IssueAccessToken ttl u sid = (if IsBlocked u then raise ErrUserBlocked else if sid = nil_uuid then raise ErrNoSessionID
     else obind UTCNow (\<lambda>now. obind new_uuid (\<lambda>jti. obind (read_world (\<lambda>w. au_sign (e_auth (w_env w)))) (\<lambda>sign.
       case sign \<lparr>cl_user_name = or_else (u_name u) (or_else (u_email u) ''unknown''), cl_email = u_email u,
           cl_roles = u_roles u, cl_session = uuid_string sid, cl_jti = uuid_string jti, cl_subject = uuid_string (u_id u),
           cl_issued_at = now, cl_expires_at = now + ttl\<rparr> of
         Inl e \<Rightarrow> raise e | Inr s \<Rightarrow> ret s))))"

definition VerifyAccessToken :: "string \<Rightarrow> access_claims op" where
  "VerifyAccessToken s w = (au_verify (e_auth (w_env w)) (w_tick w) s, tick w)"

definition revokedSessionSkew :: duration where "revokedSessionSkew = minute"

definition revokeSessionAccessTokens :: "uuid list \<Rightarrow> unit op" where
  "revokeSessionAccessTokens ids = (if ids = [] then ret () else
     obind (read_cfg cf_access_ttl) (\<lambda>ttl. best_effort (AddSessions (ttl + revokedSessionSkew) ids)))"

definition withUserSessionsLocked :: "uuid \<Rightarrow> 'a op \<Rightarrow> 'a op" where
  "withUserSessionsLocked uid fn = WithinTx (osequel (LockUserSessions uid) fn)"

definition RevokeRefreshTokenByFamily :: "uuid \<Rightarrow> uuid \<Rightarrow> unit op" where
  "RevokeRefreshTokenByFamily uid family =
     osequel (withUserSessionsLocked uid (RevokeFamily family)) (revokeSessionAccessTokens [family])"

definition RevokeRefreshTokenByUserID :: "uuid \<Rightarrow> unit op" where
  "RevokeRefreshTokenByUserID uid =
     obind (withUserSessionsLocked uid (RevokeByUserID uid)) revokeSessionAccessTokens"

definition RevokeRefreshTokenByUserIDExceptFamily :: "uuid \<Rightarrow> uuid \<Rightarrow> unit op" where
  "RevokeRefreshTokenByUserIDExceptFamily uid keep =
     obind (withUserSessionsLocked uid (RevokeByUserIDExceptFamily uid keep)) revokeSessionAccessTokens"

definition FamilyByRefreshToken :: "string \<Rightarrow> uuid \<Rightarrow> uuid op" where
  "FamilyByRefreshToken raw uid = obind (read_world (\<lambda>w. sha256_hex (w_env w) raw)) (\<lambda>h.
     obind (GetByTokenHash h) (\<lambda>rt. if rt_user rt \<noteq> uid \<or> rt_revoked rt then raise ErrInvalidRefreshToken
       else ret (rt_family rt)))"

definition RevokeFamilyByRefreshToken :: "string \<Rightarrow> access_claims \<Rightarrow> uuid op" where
  "RevokeFamilyByRefreshToken raw claims = obind (read_world (\<lambda>w. au_uuid_parse (e_auth (w_env w)) (cl_subject claims))) (\<lambda>parsed.
     case parsed of None \<Rightarrow> raise ErrInvalidAccessToken | Some uid \<Rightarrow>
       obind (read_world (\<lambda>w. sha256_hex (w_env w) raw)) (\<lambda>h.
       obind (withUserSessionsLocked uid (obind (ocatch (GetByTokenHash h) (\<lambda>_. raise ErrRefreshTokenNotFound)) (\<lambda>rt.
           if uuid_string (rt_user rt) \<noteq> cl_subject claims then raise ErrInvalidAccessToken
           else osequel (RevokeFamily (rt_family rt)) (ret (rt_family rt)))))
         (\<lambda>family. osequel (revokeSessionAccessTokens [family]) (ret family))))"

definition maxPruneBatches :: nat where "maxPruneBatches = 100"
definition defaultPruneBatchLimit :: int where "defaultPruneBatchLimit = 1000"
definition defaultPruneRetention :: duration where "defaultPruneRetention = 24 * 60 * minute"

fun prune_batches :: "nat \<Rightarrow> time \<Rightarrow> int \<Rightarrow> unit op" where
  "prune_batches 0 cutoff limit = ret ()"
| "prune_batches (Suc n) cutoff limit = obind (PruneExpiredBefore cutoff limit) (\<lambda>deleted.
     if deleted < limit then ret () else prune_batches n cutoff limit)"

definition PruneRefreshTokens :: "duration \<Rightarrow> int \<Rightarrow> unit op" where
  "PruneRefreshTokens retention batchLimit = (
     let limit = (if batchLimit \<le> 0 then defaultPruneBatchLimit else batchLimit);
         keep = (if retention \<le> 0 then defaultPruneRetention else retention) in
     obind UTCNow (\<lambda>now. prune_batches maxPruneBatches (now + i64 (- keep)) limit))"

end
