(* ===== verification/TableInvariant.thy ===== *)
theory TableInvariant
  imports TokenService
begin

text \<open>
  Invariants of the tables under operations that open transactions of their own. A
  predicate holds of a world when it holds of the tables and of what a rollback would
  restore; then statements that keep it may be sequenced, nested in transactions and
  retried freely, which is how the account and session services are put together.
\<close>

definition tables_sat :: "(env \<Rightarrow> db \<Rightarrow> bool) \<Rightarrow> world \<Rightarrow> bool" where
  "tables_sat P w \<longleftrightarrow> P (w_env w) (w_db w) \<and> (\<forall>d. w_tx w = Some d \<longrightarrow> P (w_env w) d)"

definition maintains :: "(env \<Rightarrow> db \<Rightarrow> bool) \<Rightarrow> 'a op \<Rightarrow> bool" where
  "maintains P m \<longleftrightarrow> keeps (tables_sat P) m"

named_theorems maintain_rules \<open>operations that maintain a table invariant\<close>

lemma tables_sat_top: "w_tx w = None \<Longrightarrow> tables_sat P w = P (w_env w) (w_db w)"
  by (simp add: tables_sat_def)

lemma maintainsD: "maintains P m \<Longrightarrow> m w = (r, w') \<Longrightarrow> tables_sat P w \<Longrightarrow> tables_sat P w'"
  unfolding maintains_def by (rule keepsD)

lemma maintains_ops [maintain_rules]:
  "maintains P (ret a)" "maintains P (raise e)" "maintains P (read_world f)"
  "maintains P m \<Longrightarrow> (\<And>x. maintains P (g x)) \<Longrightarrow> maintains P (obind m g)"
  "maintains P m \<Longrightarrow> maintains P n \<Longrightarrow> maintains P (osequel m n)"
  "maintains P m \<Longrightarrow> maintains P (best_effort m)"
  "maintains P m \<Longrightarrow> (\<And>er. maintains P (h er)) \<Longrightarrow> maintains P (ocatch m h)"
  "maintains P m \<Longrightarrow> maintains P k \<Longrightarrow> maintains P (if b then m else k)"
  "maintains P m \<Longrightarrow> (\<And>x. maintains P (k' x)) \<Longrightarrow> maintains P (case xo of None \<Rightarrow> m | Some x \<Rightarrow> k' x)"
  "(\<And>x y. maintains P (q x y)) \<Longrightarrow> maintains P (case z of (x, y) \<Rightarrow> q x y)"
  "(\<And>x. maintains P (l x)) \<Longrightarrow> (\<And>x. maintains P (k' x)) \<Longrightarrow> maintains P (case s of Inl x \<Rightarrow> l x | Inr x \<Rightarrow> k' x)"
  for m k :: "'b op"
  unfolding maintains_def by (auto intro!: keep_rules split: sum.split prod.split)

text \<open>An operation that leaves the tables, the environment and the open transaction alone.\<close>

definition off_tables :: "'a op \<Rightarrow> bool" where
  "off_tables m \<longleftrightarrow> (\<forall>w. w_db (snd (m w)) = w_db w \<and> w_tx (snd (m w)) = w_tx w \<and> w_env (snd (m w)) = w_env w)"

definition same_tables :: "world \<Rightarrow> world \<Rightarrow> bool" where
  "same_tables w w' \<longleftrightarrow> w_db w' = w_db w \<and> w_tx w' = w_tx w \<and> w_env w' = w_env w"

lemma same_tables_refl [simp]: "same_tables w w" "same_tables w (tick w')  = same_tables w w'"
  by (simp_all add: same_tables_def)

lemma off_tables_post: "off_tables m \<longleftrightarrow> (\<forall>w. post m (\<lambda>_. same_tables w) (\<lambda>_. same_tables w) w)"
  by (auto simp: off_tables_def post_def same_tables_def prod.case_eq_if split: sum.split)

lemma off_tables_keeps: "off_tables m \<longleftrightarrow> (\<forall>w0. keeps (same_tables w0) m)"
  unfolding off_tables_def keeps_def same_tables_def by metis

lemma off_tables_ops:
  "off_tables (ret a)" "off_tables (raise e)" "off_tables (read_world f)"
  "off_tables m \<Longrightarrow> (\<And>x. off_tables (g x)) \<Longrightarrow> off_tables (obind m g)"
  "off_tables m \<Longrightarrow> off_tables n \<Longrightarrow> off_tables (osequel m n)"
  "off_tables m \<Longrightarrow> off_tables (best_effort m)"
  "off_tables m \<Longrightarrow> off_tables k \<Longrightarrow> off_tables (if b then m else k)"
  "off_tables m \<Longrightarrow> (\<And>x. off_tables (k' x)) \<Longrightarrow> off_tables (case xo of None \<Rightarrow> m | Some x \<Rightarrow> k' x)"
  for m k :: "'b op"
  unfolding off_tables_keeps by (auto intro!: keep_rules)

lemma same_tables_sat: "same_tables w w' \<Longrightarrow> tables_sat P w' = tables_sat P w"
  by (simp add: same_tables_def tables_sat_def)

lemma maintains_off: "off_tables m \<Longrightarrow> maintains P m"
  by (simp add: maintains_def off_tables_def keeps_def tables_sat_def)

lemma off_tables_base:
  "off_tables UTCNow" "off_tables new_uuid" "off_tables GenerateRefreshToken" "off_tables (VerifyAccessToken s)"
  "off_tables (valkey_set ks ttl)" "off_tables (valkey_exists ks)" "off_tables (db_query q)" "off_tables (auth_query q')"
  "off_tables AdvisoryXactLock"
  by (auto simp: off_tables_def UTCNow_def new_uuid_def GenerateRefreshToken_def VerifyAccessToken_def valkey_set_def
      valkey_exists_def db_query_def db_call_def auth_query_def on_auth_def AdvisoryXactLock_def op_defs
      split: option.split sum.split)

lemmas maintains_base [maintain_rules] = off_tables_base [THEN maintains_off]

lemma db_call_cases:
  obtains e where "db_call f w = (Inl e, tick w)"
  | a d where "db_call f w = (Inr a, (tick w)\<lparr>w_db := d\<rparr>)" "f (w_env w) (w_tick w) (w_db w) = Inr (a, d)"
  by (cases "fault (w_env w) (w_tick w)"; cases "f (w_env w) (w_tick w) (w_db w)") (auto simp: db_call_def)

lemma maintains_call [maintain_rules]:
  assumes "\<And>e t d a d'. P e d \<Longrightarrow> f e t d = Inr (a, d') \<Longrightarrow> P e d'"
  shows "maintains P (db_call f)"
  unfolding maintains_def
proof (rule keepsI)
  fix w assume "tables_sat P w"
  then show "tables_sat P (snd (db_call f w))"
    using assms [of "w_env w" "w_db w" "w_tick w"]
    by (cases rule: db_call_cases [of f w]) (auto simp: tables_sat_def simp del: assms)
qed

lemma maintains_auth [maintain_rules]:
  "(\<And>e t d a x. P e d \<Longrightarrow> f e t (d_auth d) = Inr (a, x) \<Longrightarrow> P e (d\<lparr>d_auth := x\<rparr>)) \<Longrightarrow> maintains P (on_auth f)"
  unfolding on_auth_def by (rule maintains_call) (auto split: sum.splits)

lemma maintains_WithinTx [maintain_rules]:
  assumes "maintains P fn"
  shows "maintains P (WithinTx fn)"
proof -
  have opened: "tables_sat P w1" if "tx_begin w = (r, w1)" "tables_sat P w" for w w1 r
    using that by (auto simp: tx_begin_def op_defs db_query_def db_call_def tables_sat_def split: option.splits)
  have closed: "tables_sat P w1" if "tx_commit w = (r, w1)" "tables_sat P w" for w w1 r
    using that by (auto simp: tx_commit_def op_defs db_query_def db_call_def tables_sat_def split: option.splits)
  have undone: "tables_sat P (tx_rollback w)" if "tables_sat P w" for w
    using that by (auto simp: tx_rollback_def tables_sat_def split: option.split)
  have body: "tables_sat P w1" if "fn w = (r, w1)" "tables_sat P w" for w w1 r
    using assms that by (rule maintainsD)
  have nested: "tables_sat P (snd (fn w))" if "tables_sat P w" for w
    using assms that by (simp add: maintains_def keeps_def)
  show ?thesis
    by (auto simp: maintains_def keeps_def WithinTx_def split: option.split prod.split sum.split
        dest: opened closed body intro: undone nested)
qed

end
