(* ===== verification/UserService.thy ===== *)
theory UserService
  imports TokenService
begin

text \<open>
  User management: \<open>internal/storages/users\<close>, the seats-cap guard of
  \<open>internal/services/license\<close> and the user service \<open>internal/services/user\<close> (roles,
  blocking, profile tags). Every mutation of a user reads the row under a lock, applies a guarded change
  and writes the whole row back in one transaction.
\<close>

section \<open>Commands\<close>

record roles_cmd =
  rc_actor :: "user option"
  rc_user_id :: uuid
  rc_roles :: "role list"

record revoke_role_cmd =
  rv_actor :: "user option"
  rv_user_id :: uuid
  rv_role :: role

record block_cmd =
  bc_actor :: "user option"
  bc_user_id :: uuid

record tags_cmd =
  tc_actor :: "user option"
  tc_user_id :: uuid
  tc_set_telegram :: bool
  tc_telegram :: "string option"
  tc_set_slack :: bool
  tc_slack :: "string option"

record preferences_cmd =
  pc_set_timezone :: bool
  pc_timezone :: "string option"
  pc_set_telegram :: bool
  pc_telegram :: "string option"
  pc_set_slack :: bool
  pc_slack :: "string option"

section \<open>The users store\<close>

definition find_user :: "db \<Rightarrow> uuid \<Rightarrow> user option" where
  "find_user d uid = find (\<lambda>u. u_id u = uid) (d_users d)"

definition user_or_not_found :: "user option \<Rightarrow> user op" where
  "user_or_not_found r = (case r of None \<Rightarrow> raise ErrUserNotFound | Some u \<Rightarrow> ret u)"

definition users_GetByID :: "uuid \<Rightarrow> user op" where
  "users_GetByID uid = obind (db_query (\<lambda>d. find_user d uid)) user_or_not_found"

definition GetForUpdateByID :: "uuid \<Rightarrow> user op" where
  "GetForUpdateByID uid = obind (db_query (\<lambda>d. find_user d uid)) user_or_not_found"

definition users_GetByEmail :: "string \<Rightarrow> user op" where
  "users_GetByEmail email = obind (db_call (\<lambda>e _ d.
     Inr (find (\<lambda>u. au_pg_lower (e_auth e) (u_email u) = au_pg_lower (e_auth e) email) (d_users d), d))) user_or_not_found"

text \<open>The checks on the two messenger tags.\<close>

definition tags_ok :: "user \<Rightarrow> bool" where
  "tags_ok u = (\<forall>t \<in> set_option (u_telegram_tag u) \<union> set_option (u_slack_tag u). length t \<le> 64)"

definition pg_user :: "env \<Rightarrow> user \<Rightarrow> user" where
  "pg_user e u = u\<lparr>u_blocked_at := map_option (pg_time e) (u_blocked_at u)\<rparr>"

definition users_Create :: "user \<Rightarrow> user op" where
  "users_Create u = db_call (\<lambda>e t d.
     let row = (pg_user e u)\<lparr>u_id := gen e t 0, u_created_at := pg_time e (clock e t)\<rparr> in
     if \<not> tags_ok row then Inl PgCheckViolation
     else if u_id row \<in> u_id ` set (d_users d) \<or> u_email row \<in> u_email ` set (d_users d) then Inl PgUniqueViolation
     else Inr (row, d\<lparr>d_users := d_users d @ [row]\<rparr>))"

definition set_user :: "user \<Rightarrow> user \<Rightarrow> user" where
  "set_user new old = old\<lparr>u_roles := u_roles new, u_blocked_at := u_blocked_at new, u_timezone := u_timezone new,
     u_telegram_tag := u_telegram_tag new, u_slack_tag := u_slack_tag new\<rparr>"

definition users_Update :: "user \<Rightarrow> unit op" where
  "users_Update u = db_call (\<lambda>e _ d. if u_id u \<in> u_id ` set (d_users d) \<and> \<not> tags_ok u then Inl PgCheckViolation
     else Inr ((), d\<lparr>d_users := map (\<lambda>x. if u_id x = u_id u then set_user (pg_user e u) x else x) (d_users d)\<rparr>))"

definition LockAdminMutations :: "unit op" where
  "LockAdminMutations = AdvisoryXactLock"

definition ListActiveRoles :: "role list list op" where
  "ListActiveRoles = db_query (\<lambda>d. map u_roles (filter (\<lambda>u. u_blocked_at u = None) (d_users d)))"

section \<open>Seats\<close>

definition ListPendingRoles :: "role list list op" where
  "ListPendingRoles = obind UTCNow (\<lambda>now. auth_query (\<lambda>e _ x. map inv_roles
     (filter (\<lambda>i. inv_status i = InvitationPending \<and> inv_expires_at i \<ge> pg_time e now) (a_invitations x))))"

text \<open>The seat cap of the cached license: \<open>None\<close> without a license, without a reported cap, or when it cannot be read.\<close>

definition License_cap :: "int option op" where
  "License_cap w = (Inr (au_seats (e_auth (w_env w)) (w_tick w)), tick w)"

definition EnsureSeatAvailable :: "unit op" where
  "EnsureSeatAvailable = obind License_cap (\<lambda>lic. case lic of None \<Rightarrow> ret () | Some cap \<Rightarrow>
     osequel AdvisoryXactLock (obind ListActiveRoles (\<lambda>act. obind ListPendingRoles (\<lambda>pend.
       if SeatsOccupied (BucketSeats act pend) + 1 > cap then raise ErrSeatsLimitExceeded else ret ()))))"

section \<open>The service\<close>

definition user_publishAudit :: "audit_action \<Rightarrow> unit op" where
  "user_publishAudit a w = (case fault (w_env w) (w_tick w) of Some _ \<Rightarrow> (Inr (), tick w)
     | None \<Rightarrow> (Inr (), (tick w)\<lparr>w_audit := w_audit w @ [a]\<rparr>))"

definition user_update_tx :: "uuid \<Rightarrow> (user \<Rightarrow> (user \<times> 'x) op) \<Rightarrow> (user \<times> 'x) op" where
  "user_update_tx uid fn = obind (GetForUpdateByID uid) (\<lambda>u. obind (fn u) (\<lambda>(u', x). osequel (users_Update u') (ret (u', x))))"

definition user_updateWithApply :: "uuid \<Rightarrow> (user \<Rightarrow> (user \<times> 'x) op) \<Rightarrow> (user \<times> 'x) op" where
  "user_updateWithApply uid fn = WithinTx (user_update_tx uid fn)"

definition ensureNotLastActiveAdmin :: "user \<Rightarrow> unit op" where
  "ensureNotLastActiveAdmin u = (if \<not> IsActiveAdmin u then ret () else
     osequel LockAdminMutations (obind CountActiveAdmins (\<lambda>n. if n \<le> 1 then raise ErrLastAdmin else ret ())))"

definition user_GetByID :: "uuid \<Rightarrow> user op" where
  "user_GetByID uid = users_GetByID uid"

definition self_action :: "user option \<Rightarrow> uuid \<Rightarrow> bool" where
  "self_action actor uid = (case actor of None \<Rightarrow> False | Some a \<Rightarrow> u_id a = uid)"

text \<open>\<open>ErrNotChanged\<close> from the closure is success: the caller answers with what is stored.\<close>

definition unchanged_ok :: "'a op \<Rightarrow> 'a op \<Rightarrow> 'a op" where
  "unchanged_ok m k = ocatch m (\<lambda>e. if e = ErrNotChanged then k else raise e)"

subsection \<open>Roles\<close>

definition assign_apply :: "bool \<Rightarrow> role list \<Rightarrow> user \<Rightarrow> (user \<times> role list) op" where
  "assign_apply guarded roles u = (let added = filter (\<lambda>r. r \<notin> set (u_roles u)) roles; new = u_roles u @ added in
     if added = [] then raise ErrNotChanged else
     osequel (if guarded \<and> \<not> RoleOccupiesSeat (HighestRole (u_roles u)) \<and> RoleOccupiesSeat (HighestRole new)
         then EnsureSeatAvailable else ret ())
       (ret (u\<lparr>u_roles := new\<rparr>, added)))"

definition AssignRoles :: "roles_cmd \<Rightarrow> user op" where
  "AssignRoles cmd = (if \<not> list_all Role_Valid (rc_roles cmd) then raise ErrInvalidRole
     else if self_action (rc_actor cmd) (rc_user_id cmd) then raise ErrSelfAssign
     else unchanged_ok (obind (user_updateWithApply (rc_user_id cmd) (assign_apply True (rc_roles cmd))) (\<lambda>(u, added).
         osequel (user_publishAudit (AuditRolesChanged (rc_actor cmd) u (RolesAssigned added))) (ret u)))
       (user_GetByID (rc_user_id cmd)))"

definition grantRolesUnguarded :: "uuid \<Rightarrow> role list \<Rightarrow> user op" where
  "grantRolesUnguarded uid roles = unchanged_ok (obind (user_updateWithApply uid (assign_apply False roles)) (\<lambda>(u, added).
         osequel (user_publishAudit (AuditRolesChanged (Some SystemUser) u (RolesAssigned added))) (ret u)))
       (user_GetByID uid)"

definition revoke_apply :: "role \<Rightarrow> user \<Rightarrow> (user \<times> unit) op" where
  "revoke_apply r u = (if r \<notin> set (u_roles u) then raise ErrNotChanged else
     osequel (if r = RoleAdmin then ensureNotLastActiveAdmin u else ret ()) (ret (u\<lparr>u_roles := remove1 r (u_roles u)\<rparr>, ())))"

definition RevokeRole :: "revoke_role_cmd \<Rightarrow> unit op" where
  "RevokeRole cmd = (if \<not> Role_Valid (rv_role cmd) then raise ErrInvalidRole
     else if self_action (rv_actor cmd) (rv_user_id cmd) then raise ErrSelfRevoke
     else unchanged_ok (obind (user_updateWithApply (rv_user_id cmd) (revoke_apply (rv_role cmd))) (\<lambda>(u, _).
       user_publishAudit (AuditRolesChanged (rv_actor cmd) u (RolesRevoked [rv_role cmd])))) (ret ()))"

definition sort_roles :: "role list \<Rightarrow> role list" where
  "sort_roles roles = sort_func (\<lambda>a b. ord_cmp (role_string a) (role_string b)) roles"

definition replace_apply :: "role list \<Rightarrow> user \<Rightarrow> (user \<times> role list) op" where
  "replace_apply roles u = (let new = sort_roles (uniq (filter Role_Valid roles)); old = sort_roles (u_roles u) in
     if old = new then raise ErrNotChanged else
     osequel (if RoleAdmin \<in> set old \<and> RoleAdmin \<notin> set new then ensureNotLastActiveAdmin (u\<lparr>u_roles := old\<rparr>) else ret ())
     (osequel (if \<not> RoleOccupiesSeat (HighestRole old) \<and> RoleOccupiesSeat (HighestRole new) then EnsureSeatAvailable else ret ())
       (ret (u\<lparr>u_roles := new\<rparr>, old))))"

definition without :: "'a list \<Rightarrow> 'a list \<Rightarrow> 'a list" where
  "without xs ys = filter (\<lambda>x. x \<notin> set ys) xs"

definition ReplaceRoles :: "roles_cmd \<Rightarrow> unit op" where
  "ReplaceRoles cmd = (if self_action (rc_actor cmd) (rc_user_id cmd) then raise ErrSelfRevoke
     else unchanged_ok (obind (user_updateWithApply (rc_user_id cmd) (replace_apply (rc_roles cmd))) (\<lambda>(u, old).
       user_publishAudit (AuditRolesChanged (rc_actor cmd) u
         (RolesReplaced (u_roles u) (without (u_roles u) old) (without old (u_roles u)))))) (ret ()))"

subsection \<open>Blocking\<close>

definition block_apply :: "user \<Rightarrow> (user \<times> unit) op" where
  "block_apply u = (if IsBlocked u then raise ErrNotChanged else
     osequel (ensureNotLastActiveAdmin u) (obind UTCNow (\<lambda>now. ret (u\<lparr>u_blocked_at := Some now\<rparr>, ()))))"

definition BlockUser :: "block_cmd \<Rightarrow> unit op" where
  "BlockUser cmd = (if self_action (bc_actor cmd) (bc_user_id cmd) then raise ErrSelfBlock
     else obind (unchanged_ok (obind (user_updateWithApply (bc_user_id cmd) block_apply) (\<lambda>(u, _). ret (Some u))) (ret None)) (\<lambda>r.
       case r of None \<Rightarrow> ret ()
       | Some u \<Rightarrow> osequel (RevokeRefreshTokenByUserID (bc_user_id cmd)) (user_publishAudit (AuditUserBlocked (bc_actor cmd) u))))"

definition unblock_apply :: "user \<Rightarrow> (user \<times> unit) op" where
  "unblock_apply u = (if \<not> IsBlocked u then raise ErrNotChanged else
     osequel (if RoleOccupiesSeat (HighestRole (u_roles u)) then EnsureSeatAvailable else ret ())
       (ret (u\<lparr>u_blocked_at := None\<rparr>, ())))"

definition UnblockUser :: "block_cmd \<Rightarrow> unit op" where
  "UnblockUser cmd = (if self_action (bc_actor cmd) (bc_user_id cmd) then raise ErrSelfUnblock
     else unchanged_ok (obind (user_updateWithApply (bc_user_id cmd) unblock_apply) (\<lambda>(u, _).
       user_publishAudit (AuditUserUnblocked (bc_actor cmd) u))) (ret ()))"

subsection \<open>Profile fields\<close>

definition emptyToNil :: "string \<Rightarrow> string option" where
  "emptyToNil v = (if v = [] then None else Some v)"

text \<open>A field of a patch: absent, or canonicalised by a rule that may reject it.\<close>

definition patch_field :: "bool \<Rightarrow> (string option \<Rightarrow> string option) \<Rightarrow> string option \<Rightarrow> apperr \<Rightarrow> string option op" where
  "patch_field supplied canon v err = (if \<not> supplied then ret None else case canon v of None \<Rightarrow> raise err | Some s \<Rightarrow> ret (emptyToNil s))"

definition from_ptr :: "string option \<Rightarrow> string" where
  "from_ptr v = (case v of None \<Rightarrow> [] | Some s \<Rightarrow> s)"

definition tagChange :: "string \<Rightarrow> string option \<Rightarrow> string option \<Rightarrow> audit_change list" where
  "tagChange field old new = (if from_ptr old = from_ptr new then []
     else [\<lparr>ch_field = field, ch_old = from_ptr old, ch_new = from_ptr new\<rparr>])"

definition tagChanges :: "tags_cmd \<Rightarrow> user \<Rightarrow> string option \<Rightarrow> string option \<Rightarrow> audit_change list" where
  "tagChanges cmd before telegram slack =
     (if tc_set_telegram cmd then tagChange ''telegram_tag'' (u_telegram_tag before) telegram else [])
     @ (if tc_set_slack cmd then tagChange ''slack_tag'' (u_slack_tag before) slack else [])"

definition UpdateUserTags :: "tags_cmd \<Rightarrow> user op" where
  "UpdateUserTags cmd = (if \<not> tc_set_telegram cmd \<and> \<not> tc_set_slack cmd then user_GetByID (tc_user_id cmd) else
     obind (patch_field (tc_set_telegram cmd) CanonicalTelegramTag (tc_telegram cmd) ErrInvalidMessengerTag) (\<lambda>tg.
     obind (patch_field (tc_set_slack cmd) CanonicalSlackTag (tc_slack cmd) ErrInvalidMessengerTag) (\<lambda>sl.
     obind (user_updateWithApply (tc_user_id cmd) (\<lambda>u. ret
         (u\<lparr>u_telegram_tag := (if tc_set_telegram cmd then tg else u_telegram_tag u),
            u_slack_tag := (if tc_set_slack cmd then sl else u_slack_tag u)\<rparr>, tagChanges cmd u tg sl))) (\<lambda>(u, changes).
     osequel (if changes \<noteq> [] then user_publishAudit (AuditUserTagsChanged (tc_actor cmd) u changes) else ret ()) (ret u)))))"

definition UpdatePreferences :: "uuid \<Rightarrow> preferences_cmd \<Rightarrow> user op" where
  "UpdatePreferences uid cmd = (if \<not> pc_set_timezone cmd \<and> \<not> pc_set_telegram cmd \<and> \<not> pc_set_slack cmd then user_GetByID uid else
     obind (read_world (\<lambda>w. e_auth (w_env w))) (\<lambda>a.
     obind (patch_field (pc_set_timezone cmd) (CanonicalTimezone (au_location_ok a)) (pc_timezone cmd) ErrInvalidTimezone) (\<lambda>tz.
     obind (patch_field (pc_set_telegram cmd) CanonicalTelegramTag (pc_telegram cmd) ErrInvalidMessengerTag) (\<lambda>tg.
     obind (patch_field (pc_set_slack cmd) CanonicalSlackTag (pc_slack cmd) ErrInvalidMessengerTag) (\<lambda>sl.
     obind (user_updateWithApply uid (\<lambda>u. ret
         (u\<lparr>u_timezone := (if pc_set_timezone cmd then tz else u_timezone u),
            u_telegram_tag := (if pc_set_telegram cmd then tg else u_telegram_tag u),
            u_slack_tag := (if pc_set_slack cmd then sl else u_slack_tag u)\<rparr>, ()))) (\<lambda>(u, _). ret u))))))"

end
