(* ===== verification/Identities.thy ===== *)
theory Identities
  imports UserService
begin

text \<open>
  Provider identities: \<open>internal/storages/useridentities\<close>, the lookup of a login provider's
  registry row (\<open>internal/services/integration/resolve_login_provider.go\<close>) and the part of
  \<open>internal/services/user\<close> that links, unlinks and lists identities and that creates
  accounts on a first sign-in.
\<close>

section \<open>The registry of login providers\<close>

definition CategoryLogin :: string where "CategoryLogin = ''login''"

definition GetByKindName :: "string \<Rightarrow> string \<Rightarrow> integration_row op" where
  "GetByKindName kind name = obind (auth_query (\<lambda>_ _ x. find (\<lambda>i. itg_kind i = kind \<and> itg_name i = name) (a_integrations x)))
     (\<lambda>r. case r of None \<Rightarrow> raise ErrIntegrationNotFound | Some i \<Rightarrow> ret i)"

definition ResolveID :: "string \<Rightarrow> uuid op" where
  "ResolveID name = obind (GetByKindName CategoryLogin name) (\<lambda>i. ret (itg_id i))"

definition integrationID :: "string \<Rightarrow> uuid op" where
  "integrationID provider = ocatch (ResolveID provider) (\<lambda>e. if e = ErrIntegrationNotFound then raise ErrUnsupportedProvider else raise e)"

section \<open>The identities store\<close>

text \<open>
  The insert: the identifier and \<open>created_at\<close> by their defaults, the two unique indexes
  and the two foreign keys of the table.
\<close>

definition identity_insert :: "env \<Rightarrow> nat \<Rightarrow> db \<Rightarrow> identity_row \<Rightarrow> apperr + (identity_row \<times> db)" where
  "identity_insert e t d r = (let row = r\<lparr>idn_id := gen e t 0, idn_created_at := pg_time e (clock e t)\<rparr>; x = d_auth d in
     if \<exists>i \<in> set (a_identities x). idn_id i = idn_id row
         \<or> idn_integration i = idn_integration row \<and> (idn_subject i = idn_subject row \<or> idn_user i = idn_user row)
     then Inl PgUniqueViolation
     else if idn_user row \<notin> u_id ` set (d_users d) \<or> idn_integration row \<notin> itg_id ` set (a_integrations x)
     then Inl PgForeignKeyViolation
     else Inr (row, d\<lparr>d_auth := x\<lparr>a_identities := a_identities x @ [row]\<rparr>\<rparr>))"

definition identities_Create :: "identity_row \<Rightarrow> identity_row op" where
  "identities_Create r = ocatch (db_call (\<lambda>e t d. identity_insert e t d r))
     (\<lambda>err. if err = PgUniqueViolation then raise ErrProviderAlreadyConnected else raise err)"

definition identities_get :: "(identity_row \<Rightarrow> bool) \<Rightarrow> identity_row op" where
  "identities_get p = obind (auth_query (\<lambda>_ _ x. find p (a_identities x)))
     (\<lambda>r. case r of None \<Rightarrow> raise ErrProviderNotConnected | Some i \<Rightarrow> ret i)"

definition GetByMethodSubject :: "uuid \<Rightarrow> string \<Rightarrow> identity_row op" where
  "GetByMethodSubject iid subject = identities_get (\<lambda>i. idn_integration i = iid \<and> idn_subject i = subject)"

definition GetByUserAndMethod :: "uuid \<Rightarrow> uuid \<Rightarrow> identity_row op" where
  "GetByUserAndMethod uid iid = identities_get (\<lambda>i. idn_user i = uid \<and> idn_integration i = iid)"

definition CountProvidersByUserID :: "uuid \<Rightarrow> int op" where
  "CountProvidersByUserID uid = auth_query (\<lambda>_ _ x. int (length (filter (\<lambda>i. idn_user i = uid) (a_identities x))))"

definition DeleteUserIdentityByProviderName :: "uuid \<Rightarrow> string \<Rightarrow> unit op" where
  "DeleteUserIdentityByProviderName uid name = on_auth (\<lambda>_ _ x. Inr ((), x\<lparr>a_identities := filter (\<lambda>i.
     \<not> (idn_user i = uid \<and> (\<exists>g \<in> set (a_integrations x). itg_id g = idn_integration i \<and> itg_name g = name))) (a_identities x)\<rparr>))"

definition DeleteByIntegrationID :: "uuid \<Rightarrow> int op" where
  "DeleteByIntegrationID iid = on_auth (\<lambda>_ _ x. let hit = (\<lambda>i. idn_integration i = iid) in
     Inr (int (length (filter hit (a_identities x))), x\<lparr>a_identities := filter (\<lambda>i. \<not> hit i) (a_identities x)\<rparr>))"

text \<open>The provider names behind the identities of one user, in the order of the join.\<close>

definition methods_of :: "auth_db \<Rightarrow> uuid \<Rightarrow> string list" where
  "methods_of x uid = concat (map (\<lambda>i. map itg_name (filter (\<lambda>g. itg_id g = idn_integration i) (a_integrations x)))
     (filter (\<lambda>i. idn_user i = uid) (a_identities x)))"

definition ListMethodsByUserID :: "uuid \<Rightarrow> string list op" where
  "ListMethodsByUserID uid = auth_query (\<lambda>_ _ x. sort_func ord_cmp (methods_of x uid))"

text \<open>The map keyed by user: users without identities are absent.\<close>

definition ListMethodsByUserIDs :: "uuid list \<Rightarrow> (uuid \<Rightarrow> string list option) op" where
  "ListMethodsByUserIDs uids = (if uids = [] then ret (\<lambda>_. None) else auth_query (\<lambda>_ _ x uid.
     if uid \<in> set uids \<and> methods_of x uid \<noteq> [] then Some (sort_func ord_cmp (methods_of x uid)) else None))"

section \<open>Linking\<close>

text \<open>What the provider vouches for: \<open>OAuthIDTokenClaims\<close> and \<open>OAuthProviderUserInfo\<close> as far as they are read.\<close>

record provider_info =
  pi_subject :: string
  pi_email :: string
  pi_name :: string

definition new_identity :: "uuid \<Rightarrow> uuid \<Rightarrow> string \<Rightarrow> string \<Rightarrow> identity_row" where
  "new_identity uid iid subject email = \<lparr>idn_id = nil_uuid, idn_user = uid, idn_integration = iid, idn_subject = subject,
     idn_email = email, idn_created_at = zero_time\<rparr>"

text \<open>A lookup whose not-found error is an answer.\<close>

definition optional :: "apperr \<Rightarrow> 'a op \<Rightarrow> 'a option op" where
  "optional missing m = ocatch (obind m (\<lambda>a. ret (Some a))) (\<lambda>e. if e = missing then ret None else raise e)"

definition link_tx :: "uuid \<Rightarrow> uuid \<Rightarrow> provider_info \<Rightarrow> unit op" where
  "link_tx uid iid claims = obind (GetForUpdateByID uid) (\<lambda>owner.
     if IsBlocked owner then raise ErrUserBlocked
     else if IsBreakGlass owner then raise ErrBreakGlassPersonalSignIn
     else obind (optional ErrProviderNotConnected (GetByMethodSubject iid (pi_subject claims))) (\<lambda>bySubject.
       case bySubject of
         Some i \<Rightarrow> raise (if idn_user i = uid then ErrProviderAlreadyConnected else ErrProviderLinkedToAnotherUser)
       | None \<Rightarrow> obind (optional ErrProviderNotConnected (GetByUserAndMethod uid iid)) (\<lambda>held.
           case held of Some _ \<Rightarrow> raise ErrProviderAlreadyConnected
           | None \<Rightarrow> osequel (identities_Create (new_identity uid iid (pi_subject claims) (pi_email claims))) (ret ()))))"

definition LinkIdentity :: "uuid \<Rightarrow> string \<Rightarrow> provider_info \<Rightarrow> unit op" where
  "LinkIdentity uid provider claims = obind (integrationID provider) (\<lambda>iid. WithinTx (link_tx uid iid claims))"

definition unlink_tx :: "uuid \<Rightarrow> string \<Rightarrow> bool \<Rightarrow> unit op" where
  "unlink_tx uid provider keepsSignIn = osequel (GetForUpdateByID uid) (obind (CountProvidersByUserID uid) (\<lambda>count.
     if count \<le> 1 \<and> \<not> keepsSignIn then raise ErrCannotDisconnectLastProvider
     else DeleteUserIdentityByProviderName uid provider))"

definition UnlinkIdentity :: "uuid \<Rightarrow> string \<Rightarrow> bool \<Rightarrow> unit op" where
  "UnlinkIdentity uid provider keepsSignIn = WithinTx (unlink_tx uid provider keepsSignIn)"

definition ListConnectedProviders :: "uuid \<Rightarrow> string list op" where
  "ListConnectedProviders uid = ListMethodsByUserID uid"

section \<open>Accounts\<close>

record creation_policy =
  cp_allow_create :: bool
  cp_grant_roles :: "role list"

definition new_user :: "string \<Rightarrow> string \<Rightarrow> user" where
  "new_user email name = \<lparr>u_id = nil_uuid, u_email = email, u_name = name, u_roles = DefaultRoles, u_created_at = zero_time,
     u_blocked_at = None, u_timezone = None, u_telegram_tag = None, u_slack_tag = None\<rparr>"

text \<open>
  Role grants made while an account is created publish their audit record to the outbox
  inside the surrounding transaction, so a rollback takes the record with it.
\<close>

definition WithinTx_outbox :: "'a op \<Rightarrow> 'a op" where
  "WithinTx_outbox fn w = (case WithinTx fn w of
     (Inl e, w') \<Rightarrow> (Inl e, if w_tx w = None then w'\<lparr>w_audit := w_audit w\<rparr> else w')
   | (Inr a, w') \<Rightarrow> (Inr a, w'))"

definition getUserByIdentity :: "string \<Rightarrow> string \<Rightarrow> user op" where
  "getUserByIdentity provider subject = obind (integrationID provider) (\<lambda>iid.
     obind (GetByMethodSubject iid subject) (\<lambda>i. users_GetByID (idn_user i)))"

definition createIdentity :: "uuid \<Rightarrow> string \<Rightarrow> string \<Rightarrow> string \<Rightarrow> unit op" where
  "createIdentity uid provider subject email = obind (integrationID provider) (\<lambda>iid.
     osequel (identities_Create (new_identity uid iid subject email)) (ret ()))"

definition createWithIdentity :: "string \<Rightarrow> provider_info \<Rightarrow> role list \<Rightarrow> user op" where
  "createWithIdentity provider info grantRoles = obind (users_Create (new_user (pi_email info) (pi_name info))) (\<lambda>u.
     osequel (createIdentity (u_id u) provider (pi_subject info) (pi_email info))
       (if grantRoles = [] then ret u
        else AssignRoles \<lparr>rc_actor = Some SystemUser, rc_user_id = u_id u, rc_roles = grantRoles\<rparr>))"

definition createByPolicy :: "string \<Rightarrow> provider_info \<Rightarrow> creation_policy \<Rightarrow> user op" where
  "createByPolicy provider info policy = obind (read_cfg cf_open_signup) (\<lambda>allowOpenSignup.
     if cp_allow_create policy then createWithIdentity provider info (cp_grant_roles policy)
     else if allowOpenSignup then createWithIdentity provider info []
     else raise ErrSignupDisabled)"

definition GetOrCreateByAuthInfo :: "string \<Rightarrow> provider_info \<Rightarrow> creation_policy \<Rightarrow> user op" where
  "GetOrCreateByAuthInfo provider info policy = (if \<not> list_all Role_Valid (cp_grant_roles policy) then raise ErrInvalidRole else ocatch
     (WithinTx_outbox (obind (optional ErrProviderNotConnected (getUserByIdentity provider (pi_subject info))) (\<lambda>found.
        case found of Some u \<Rightarrow> ret u | None \<Rightarrow> createByPolicy provider info policy)))
     (\<lambda>e. if e = ErrProviderAlreadyConnected then getUserByIdentity provider (pi_subject info) else raise e))"

definition break_glass_tx :: "string \<Rightarrow> string \<Rightarrow> user op" where
  "break_glass_tx email name = obind (optional ErrUserNotFound (users_GetByEmail email)) (\<lambda>found.
     obind (case found of Some u \<Rightarrow> ret u | None \<Rightarrow> users_Create (new_user email name)) (\<lambda>account.
       grantRolesUnguarded (u_id account) [RoleAdmin]))"

definition ensureBreakGlassAccount :: "string \<Rightarrow> string \<Rightarrow> user op" where
  "ensureBreakGlassAccount email name = WithinTx_outbox (break_glass_tx email name)"

definition EnsureBreakGlassAccount :: "string \<Rightarrow> string \<Rightarrow> user op" where
  "EnsureBreakGlassAccount email name = ocatch (ensureBreakGlassAccount email name)
     (\<lambda>e. if e = PgUniqueViolation then ensureBreakGlassAccount email name else raise e)"

definition CreateWithoutIdentity :: "string \<Rightarrow> string \<Rightarrow> user op" where
  "CreateWithoutIdentity email name = obind (optional ErrUserNotFound (users_GetByEmail email)) (\<lambda>found.
     case found of Some _ \<Rightarrow> raise ErrUserAlreadyExists
     | None \<Rightarrow> ocatch (users_Create (new_user email name))
         (\<lambda>e. if e = PgUniqueViolation then raise ErrUserAlreadyExists else raise e))"

end
