(* ===== verification/UserInvariant.thy ===== *)
theory UserInvariant
  imports TableInvariant Identities
begin

text \<open>
  What the account service keeps of the users and identities tables over any sequence of
  requests: identifiers stay unique, the last active administrator is never lost, the seats
  cap is not exceeded by the guarded paths, every identity belongs to an account and to a
  login provider, and disconnecting a provider leaves a way to sign in.
\<close>

section \<open>Requests\<close>

datatype user_request =
    ReqAssignRoles roles_cmd
  | ReqRevokeRole revoke_role_cmd
  | ReqReplaceRoles roles_cmd
  | ReqBlockUser block_cmd
  | ReqUnblockUser block_cmd
  | ReqUpdateUserTags tags_cmd
  | ReqUpdatePreferences uuid preferences_cmd
  | ReqLinkIdentity uuid string provider_info
  | ReqUnlinkIdentity uuid string bool
  | ReqSignIn string provider_info creation_policy
  | ReqCreateAccount string string
  | ReqBreakGlass string string

definition forget :: "'a op \<Rightarrow> unit op" where
  "forget m = osequel m (ret ())"

fun serve_user :: "user_request \<Rightarrow> unit op" where
  "serve_user (ReqAssignRoles cmd) = forget (AssignRoles cmd)"
| "serve_user (ReqRevokeRole cmd) = RevokeRole cmd"
| "serve_user (ReqReplaceRoles cmd) = ReplaceRoles cmd"
| "serve_user (ReqBlockUser cmd) = BlockUser cmd"
| "serve_user (ReqUnblockUser cmd) = UnblockUser cmd"
| "serve_user (ReqUpdateUserTags cmd) = forget (UpdateUserTags cmd)"
| "serve_user (ReqUpdatePreferences uid cmd) = forget (UpdatePreferences uid cmd)"
| "serve_user (ReqLinkIdentity uid p c) = LinkIdentity uid p c"
| "serve_user (ReqUnlinkIdentity uid p k) = UnlinkIdentity uid p k"
| "serve_user (ReqSignIn p info pol) = forget (GetOrCreateByAuthInfo p info pol)"
| "serve_user (ReqCreateAccount email name) = forget (CreateWithoutIdentity email name)"
| "serve_user (ReqBreakGlass email name) = forget (EnsureBreakGlassAccount email name)"

section \<open>Statements on the users table\<close>

definition write_user :: "env \<Rightarrow> user \<Rightarrow> db \<Rightarrow> db" where
  "write_user e u d = d\<lparr>d_users := map (\<lambda>x. if u_id x = u_id u then set_user (pg_user e u) x else x) (d_users d)\<rparr>"

lemma users_Update_write: "users_Update u = db_call (\<lambda>e _ d.
    if u_id u \<in> u_id ` set (d_users d) \<and> \<not> tags_ok u then Inl PgCheckViolation else Inr ((), write_user e u d))"
  unfolding users_Update_def write_user_def by (rule refl)

lemma off_tables_users:
  "off_tables (users_GetByID uid)" "off_tables (GetForUpdateByID uid)" "off_tables CountActiveAdmins"
  "off_tables LockAdminMutations" "off_tables ListActiveRoles" "off_tables ListPendingRoles" "off_tables License_cap"
  "off_tables EnsureSeatAvailable" "off_tables (user_publishAudit a)" "off_tables (user_GetByID uid)"
  "off_tables (ensureNotLastActiveAdmin u)"
proof -
  show seats: "off_tables License_cap" by (simp add: off_tables_def License_cap_def)
  show "off_tables (user_publishAudit a)" by (simp add: off_tables_def user_publishAudit_def split: option.split)
  show ids: "off_tables (users_GetByID uid)" "off_tables (GetForUpdateByID uid)" for uid
    by (auto simp: users_GetByID_def GetForUpdateByID_def user_or_not_found_def intro!: off_tables_ops off_tables_base)
  show "off_tables (user_GetByID uid)" by (simp add: user_GetByID_def ids)
  show base: "off_tables CountActiveAdmins" "off_tables LockAdminMutations" "off_tables ListActiveRoles" "off_tables ListPendingRoles"
    by (auto simp: CountActiveAdmins_def LockAdminMutations_def ListActiveRoles_def ListPendingRoles_def
        intro!: off_tables_ops off_tables_base)
  show "off_tables EnsureSeatAvailable" "off_tables (ensureNotLastActiveAdmin u)"
    by (auto simp: EnsureSeatAvailable_def ensureNotLastActiveAdmin_def intro!: off_tables_ops off_tables_base base seats)
qed

lemmas maintains_users [maintain_rules] = off_tables_users [THEN maintains_off]

lemma find_member: "find p xs = Some x \<Longrightarrow> x \<in> set xs \<and> p x"
  by (auto simp: find_Some_iff)

lemma find_user_Some: "find_user d uid = Some u \<Longrightarrow> u \<in> set (d_users d) \<and> u_id u = uid"
  by (auto simp: find_user_def find_Some_iff)

text \<open>
  The guarded read-modify-write of one account: it maintains whatever the write of the
  applied value keeps, given what the guards of the closure established.
\<close>

lemma maintains_update:
  assumes "\<And>w u. tables_sat P w \<Longrightarrow> find_user (w_db w) uid = Some u \<Longrightarrow> post (fn u)
    (\<lambda>(u', _) w'. same_tables w w' \<and> (u_id u' = u_id u \<and> P (w_env w) (write_user (w_env w) u' (w_db w)))) (\<lambda>_ w'. same_tables w w') w"
  shows "maintains P (user_updateWithApply uid fn)"
  unfolding user_updateWithApply_def
proof (rule maintains_WithinTx)
  have "post (user_update_tx uid fn) (\<lambda>_. tables_sat P) (\<lambda>_. tables_sat P) w" if inv: "tables_sat P w" for w
  proof -
    have frame: "same_tables w (tick w)" by simp
    have upd: "post (users_Update u') (\<lambda>_. tables_sat P) (\<lambda>_. tables_sat P) w2"
      if "same_tables w w2" "P (w_env w) (write_user (w_env w) u' (w_db w))" for u' w2
      using that inv by (auto simp: users_Update_write post_db_call same_tables_def tables_sat_def split: option.split)
    show ?thesis
    proof (cases "fault (w_env w) (w_tick w)")
      case (Some e)
      with inv show ?thesis
        by (simp add: user_update_tx_def GetForUpdateByID_def post_db_query same_tables_sat [OF frame])
    next
      case None
      show ?thesis
      proof (cases "find_user (w_db w) uid")
        case None
        with inv \<open>fault _ _ = None\<close> show ?thesis
          by (simp add: user_update_tx_def GetForUpdateByID_def post_db_query user_or_not_found_def same_tables_sat [OF frame])
      next
        case (Some u)
        have "tables_sat P (tick w)" using inv same_tables_sat [OF frame] by blast
        then have "post (fn u) (\<lambda>(u', _) w'. same_tables (tick w) w' \<and> (u_id u' = u_id u \<and> P (w_env w) (write_user (w_env w) u' (w_db w))))
            (\<lambda>_ w'. same_tables (tick w) w') (tick w)"
          using assms [of "tick w" u] Some by simp
        then have "post (obind (fn u) (\<lambda>(u', x). osequel (users_Update u') (ret (u', x)))) (\<lambda>_. tables_sat P) (\<lambda>_. tables_sat P) (tick w)"
        proof (simp, elim post_weaken)
          fix a w2
          assume "(case a of (u', _) \<Rightarrow> \<lambda>w'. same_tables (tick w) w' \<and> u_id u' = u_id u \<and> P (w_env w) (write_user (w_env w) u' (w_db w))) w2"
          then show "post (case a of (u', x) \<Rightarrow> osequel (users_Update u') (ret (u', x))) (\<lambda>_. tables_sat P) (\<lambda>_. tables_sat P) w2"
            by (cases a) (auto intro: upd simp: same_tables_def)
        next
          fix w2 assume "same_tables (tick w) w2"
          then show "tables_sat P w2" using inv by (simp add: same_tables_def tables_sat_def)
        qed
        with Some \<open>fault _ _ = None\<close> show ?thesis
          by (simp add: user_update_tx_def GetForUpdateByID_def post_db_query user_or_not_found_def)
      qed
    qed
  qed
  then show "maintains P (user_update_tx uid fn)" by (simp add: maintains_def keeps_post)
qed

section \<open>What the guards of a change establish\<close>

definition active_admins :: "db \<Rightarrow> nat" where
  "active_admins d = length (filter IsActiveAdmin (d_users d))"

definition takes_seat :: "user \<Rightarrow> bool" where
  "takes_seat u \<longleftrightarrow> \<not> IsBlocked u \<and> seated (u_roles u)"

definition seats_taken :: "db \<Rightarrow> int" where
  "seats_taken d = int (length (filter takes_seat (d_users d)))"

text \<open>At some reading of the license there was no cap, or room for one more.\<close>

definition seat_free :: "env \<Rightarrow> db \<Rightarrow> bool" where
  "seat_free e d \<longleftrightarrow> (\<exists>t. case au_seats (e_auth e) t of None \<Rightarrow> True | Some cap \<Rightarrow> seats_taken d + 1 \<le> cap)"

definition admin_kept :: "user \<Rightarrow> user \<Rightarrow> db \<Rightarrow> bool" where
  "admin_kept u u' d \<longleftrightarrow> (IsActiveAdmin u \<and> \<not> IsActiveAdmin u' \<longrightarrow> 2 \<le> active_admins d)"

definition seat_granted :: "env \<Rightarrow> user \<Rightarrow> user \<Rightarrow> db \<Rightarrow> bool" where
  "seat_granted e u u' d \<longleftrightarrow> (takes_seat u' \<and> \<not> takes_seat u \<longrightarrow> seat_free e d)"

lemma ensure_admin_post:
  "post (ensureNotLastActiveAdmin u) (\<lambda>_ w'. same_tables w w' \<and> (IsActiveAdmin u \<longrightarrow> 2 \<le> active_admins (w_db w)))
     (\<lambda>_ w'. same_tables w w') w"
proof -
  have "filter (\<lambda>u. RoleAdmin \<in> set (u_roles u) \<and> u_blocked_at u = None) us = filter IsActiveAdmin us" for us
    by (rule filter_cong) (simp_all add: IsActiveAdmin_def IsAdmin_def IsBlocked_def)
  then show ?thesis
    by (auto simp: ensureNotLastActiveAdmin_def LockAdminMutations_def AdvisoryXactLock_def CountActiveAdmins_def
        post_db_query active_admins_def same_tables_def split: option.split)
qed

lemma takes_seat_eq: "takes_seat = (\<lambda>u. u_blocked_at u = None \<and> seated (u_roles u))"
  by (simp add: takes_seat_def IsBlocked_def fun_eq_iff)

lemma post_auth_query: "post (auth_query q) Q R w =
  (case fault (w_env w) (w_tick w) of Some e \<Rightarrow> R e (tick w) | None \<Rightarrow> Q (q (w_env w) (w_tick w) (d_auth (w_db w))) (tick w))"
  by (simp add: auth_query_def on_auth_def post_db_call split: option.split)

lemma ensure_seat_post:
  "post EnsureSeatAvailable (\<lambda>_ w'. same_tables w w' \<and> seat_free (w_env w) (w_db w)) (\<lambda>_ w'. same_tables w w') w"
proof (cases "au_seats (e_auth (w_env w)) (w_tick w)")
  case None
  then show ?thesis
    by (auto simp: EnsureSeatAvailable_def post_def License_cap_def obind_def ret_def seat_free_def same_tables_def
        intro: exI [of _ "w_tick w"])
next
  case (Some cap)
  have room: "seat_free (w_env w) (w_db w)" if "\<not> cap \<le> SeatsOccupied (BucketSeats
      (map u_roles (filter (\<lambda>u. u_blocked_at u = None) (d_users (w_db w)))) pend)" for pend
    using that Some
    by (auto simp: seat_free_def SeatsOccupied_BucketSeats takes_seat_eq seats_taken_def intro!: exI [of _ "w_tick w"])
  have cap: "post License_cap Q R w = Q (Some cap) (tick w)" for Q R
    by (simp add: post_def License_cap_def Some)
  show ?thesis
    by (auto simp: EnsureSeatAvailable_def cap AdvisoryXactLock_def ListActiveRoles_def ListPendingRoles_def post_db_query
        post_auth_query same_tables_def dest: room split: option.split)
qed

text \<open>The closures: what each applies, and that its guards cover it.\<close>

definition covered :: "bool \<Rightarrow> world \<Rightarrow> user \<Rightarrow> user \<times> 'x \<Rightarrow> world \<Rightarrow> bool" where
  "covered seats w u p w' \<longleftrightarrow> same_tables w w' \<and> u_id (fst p) = u_id u \<and> admin_kept u (fst p) (w_db w)
     \<and> (seats \<longrightarrow> seat_granted (w_env w) u (fst p) (w_db w))"

definition covers :: "bool \<Rightarrow> (user \<Rightarrow> (user \<times> 'x) op) \<Rightarrow> bool" where
  "covers seats fn \<longleftrightarrow> (\<forall>w u. post (fn u) (covered seats w u) (\<lambda>_ w'. same_tables w w') w)"

lemmas covered_defs = covered_def admin_kept_def seat_granted_def takes_seat_def IsActiveAdmin_def IsAdmin_def IsBlocked_def

lemma covers_assign: "covers g (assign_apply g roles)"
  unfolding covers_def
proof (intro allI)
  fix w and u :: user
  let ?new = "u_roles u @ filter (\<lambda>r. r \<notin> set (u_roles u)) roles"
  show "post (assign_apply g roles u) (covered g w u) (\<lambda>_ w'. same_tables w w') w"
  proof (cases "g \<and> \<not> seated (u_roles u) \<and> seated ?new")
    case True
    then show ?thesis
      by (auto simp: assign_apply_def Let_def seated_def covered_defs intro!: post_weaken [OF ensure_seat_post])
  next
    case False
    then show ?thesis by (auto simp: assign_apply_def Let_def seated_def covered_defs)
  qed
qed

lemma covers_revoke: "covers True (revoke_apply r)"
  unfolding covers_def revoke_apply_def
  by (auto intro!: post_weaken [OF ensure_admin_post] simp: covered_defs seated_iff dest: notin_set_remove1)

lemma sort_roles_set [simp]: "set (sort_roles rs) = set rs"
  by (simp add: sort_roles_def)

lemma seated_sort [simp]: "seated (sort_roles rs) = seated rs"
  by (simp add: seated_iff)

lemma IsActiveAdmin_sort [simp]: "IsActiveAdmin (u\<lparr>u_roles := sort_roles (u_roles u)\<rparr>) = IsActiveAdmin u"
  by (simp add: IsActiveAdmin_def IsAdmin_def IsBlocked_def)

lemma covers_replace: "covers True (replace_apply roles)"
  unfolding covers_def
proof (intro allI)
  fix w and u :: user
  let ?new = "sort_roles (uniq (filter Role_Valid roles))" and ?old = "sort_roles (u_roles u)"
  define seat where "seat = osequel (if \<not> seated ?old \<and> seated ?new then EnsureSeatAvailable else ret ()) (ret (u\<lparr>u_roles := ?new\<rparr>, ?old))"
  have body: "replace_apply roles u = (if ?old = ?new then raise ErrNotChanged else
      osequel (if RoleAdmin \<in> set ?old \<and> RoleAdmin \<notin> set ?new then ensureNotLastActiveAdmin (u\<lparr>u_roles := ?old\<rparr>) else ret ()) seat)"
    by (simp only: replace_apply_def Let_def seat_def seated_def)
  have seat: "post seat (covered True w u) (\<lambda>_ w'. same_tables w w') w1"
    if "same_tables w w1" "admin_kept u (u\<lparr>u_roles := ?new\<rparr>) (w_db w)" for w1
    using that by (auto simp: seat_def covered_def seat_granted_def takes_seat_def same_tables_def IsBlocked_def
        intro!: post_weaken [OF ensure_seat_post])
  show "post (replace_apply roles u) (covered True w u) (\<lambda>_ w'. same_tables w w') w"
  proof (cases "RoleAdmin \<in> set ?old \<and> RoleAdmin \<notin> set ?new")
    case True
    have "post (ensureNotLastActiveAdmin (u\<lparr>u_roles := ?old\<rparr>)) (\<lambda>_. post seat (covered True w u) (\<lambda>_ w'. same_tables w w'))
        (\<lambda>_ w'. same_tables w w') w"
      by (rule post_weaken [OF ensure_admin_post [where w = w]]) (auto simp: admin_kept_def intro: seat)
    with True show ?thesis unfolding body by auto
  next
    case False
    then have "admin_kept u (u\<lparr>u_roles := ?new\<rparr>) (w_db w)"
      by (auto simp: admin_kept_def IsActiveAdmin_def IsAdmin_def IsBlocked_def)
    then have "post seat (covered True w u) (\<lambda>_ w'. same_tables w w') w" by (intro seat) simp_all
    with False show ?thesis unfolding body by auto
  qed
qed

lemma covers_block: "covers True block_apply"
  unfolding covers_def block_apply_def
  by (auto intro!: post_weaken [OF ensure_admin_post] simp: covered_defs same_tables_def)

lemma covers_unblock: "covers True unblock_apply"
  unfolding covers_def unblock_apply_def
  by (auto intro!: post_weaken [OF ensure_seat_post] simp: covered_defs seated_def)

lemma covers_plain:
  "(\<And>u. u_id (f u) = u_id u \<and> u_roles (f u) = u_roles u \<and> u_blocked_at (f u) = u_blocked_at u) \<Longrightarrow> covers True (\<lambda>u. ret (f u, g u))"
  by (auto simp: covers_def covered_defs)

lemma off_tables_identities:
  "off_tables (identities_get p)" "off_tables (GetByMethodSubject iid sub)" "off_tables (GetByUserAndMethod uid iid)"
  "off_tables (CountProvidersByUserID uid)" "off_tables (GetByKindName k n)" "off_tables (users_GetByEmail em)"
proof -
  show get: "off_tables (identities_get p)" for p
    by (auto simp: identities_get_def intro!: off_tables_ops off_tables_base)
  show "off_tables (GetByMethodSubject iid sub)" "off_tables (GetByUserAndMethod uid iid)"
    by (simp_all add: GetByMethodSubject_def GetByUserAndMethod_def get)
  show "off_tables (CountProvidersByUserID uid)" "off_tables (GetByKindName k n)"
    by (auto simp: CountProvidersByUserID_def GetByKindName_def intro!: off_tables_ops off_tables_base)
  have "off_tables (db_call (\<lambda>e (_ :: nat) d. Inr (q e d, d)))" for q :: "env \<Rightarrow> db \<Rightarrow> 'x"
    by (simp add: off_tables_def db_call_def split: option.split)
  then show "off_tables (users_GetByEmail em)"
    by (auto simp: users_GetByEmail_def user_or_not_found_def intro!: off_tables_ops)
qed

lemmas maintains_identities [maintain_rules] = off_tables_identities [THEN maintains_off]

lemma maintains_optional [maintain_rules]: "maintains P m \<Longrightarrow> maintains P (optional missing m)"
  by (auto simp: optional_def intro!: maintain_rules)

lemma maintains_outbox [maintain_rules]:
  assumes "maintains P fn"
  shows "maintains P (WithinTx_outbox fn)"
proof -
  have "maintains P (WithinTx fn)" using assms by (rule maintain_rules)
  then have "tables_sat P (snd (WithinTx fn w))" if "tables_sat P w" for w
    using that by (simp add: maintains_def keeps_def)
  then show ?thesis
    by (fastforce simp: maintains_def keeps_def WithinTx_outbox_def tables_sat_def split: prod.splits sum.splits)
qed

section \<open>The contract of an account invariant\<close>

text \<open>
  A predicate on the tables that ignores sessions, survives a new default account and
  survives the write of a change whose guards held.
\<close>

locale users_invariant =
  fixes P :: "env \<Rightarrow> db \<Rightarrow> bool"
  assumes sessions: "P e d \<Longrightarrow> P e (d\<lparr>d_auth := (d_auth d)\<lparr>a_refresh := rs\<rparr>\<rparr>)"
    and created: "P e d \<Longrightarrow> u_id row \<notin> u_id ` set (d_users d) \<Longrightarrow> u_roles row = DefaultRoles \<Longrightarrow> P e (d\<lparr>d_users := d_users d @ [row]\<rparr>)"
    and written: "P e d \<Longrightarrow> find_user d (u_id u) = Some u \<Longrightarrow> u_id u' = u_id u \<Longrightarrow> admin_kept u u' d \<Longrightarrow>
      seat_granted e u u' d \<Longrightarrow> P e (write_user e u' d)"
begin

lemma update_guarded:
  assumes "\<And>w u. find_user (w_db w) uid = Some u \<Longrightarrow> post (fn u) (\<lambda>(u', _) w'. same_tables w w' \<and> (u_id u' = u_id u
    \<and> admin_kept u u' (w_db w) \<and> seat_granted (w_env w) u u' (w_db w))) (\<lambda>_ w'. same_tables w w') w"
  shows "maintains P (user_updateWithApply uid fn)"
proof (rule maintains_update)
  fix w u assume inv: "tables_sat P w" and u: "find_user (w_db w) uid = Some u"
  have "find_user (w_db w) (u_id u) = Some u" using u find_user_Some [OF u] by simp
  with inv have w: "u_id u' = u_id u \<Longrightarrow> admin_kept u u' (w_db w) \<Longrightarrow> seat_granted (w_env w) u u' (w_db w) \<Longrightarrow>
      P (w_env w) (write_user (w_env w) u' (w_db w))" for u'
    by (auto simp: tables_sat_def intro: written)
  show "post (fn u) (\<lambda>(u', _) w'. same_tables w w' \<and> (u_id u' = u_id u \<and> P (w_env w) (write_user (w_env w) u' (w_db w))))
      (\<lambda>_ w'. same_tables w w') w"
    by (rule post_weaken [OF assms [OF u]]) (auto intro: w)
qed

lemma token_revoke_kept: "maintains P (token_revoke p)"
  unfolding token_revoke_def by (rule maintains_auth) (auto intro: sessions)

lemma revoke_by_user: "maintains P (RevokeRefreshTokenByUserID uid)"
  by (auto simp: RevokeRefreshTokenByUserID_def withUserSessionsLocked_def LockUserSessions_def RevokeByUserID_def
      revokeSessionAccessTokens_def read_cfg_def AddSessions_def intro!: maintain_rules token_revoke_kept)

lemma update_covered: "covers True fn \<Longrightarrow> maintains P (user_updateWithApply uid fn)"
  by (rule update_guarded) (auto simp: covers_def covered_def prod.case_eq_if elim!: allE [where P = "\<lambda>w. \<forall>u. Q w u" for Q] intro: post_weaken)

lemma roles_kept: "maintains P (AssignRoles cmd)" "maintains P (RevokeRole rcmd)" "maintains P (ReplaceRoles cmd)"
  by (auto simp: AssignRoles_def RevokeRole_def ReplaceRoles_def unchanged_ok_def
      intro!: maintain_rules update_covered covers_assign covers_revoke covers_replace)

lemma blocking_kept: "maintains P (BlockUser cmd)" "maintains P (UnblockUser cmd)"
  by (auto simp: BlockUser_def UnblockUser_def unchanged_ok_def
      intro!: maintain_rules update_covered covers_block covers_unblock revoke_by_user)

lemma patch_kept: "maintains P (patch_field b c v e)"
  by (auto simp: patch_field_def intro!: maintain_rules)

lemma profile_kept: "maintains P (UpdateUserTags tcmd)" "maintains P (UpdatePreferences uid pcmd)"
  by (auto simp: UpdateUserTags_def UpdatePreferences_def intro!: maintain_rules update_covered covers_plain patch_kept)

lemma account_kept: "maintains P (users_Create (new_user email name))"
  unfolding users_Create_def
  by (rule maintains_call) (auto simp: Let_def new_user_def pg_user_def split: if_splits intro!: created)

lemma without_identity_kept: "maintains P (CreateWithoutIdentity email name)"
  by (auto simp: CreateWithoutIdentity_def intro!: maintain_rules account_kept)

end

definition login_provider :: "integration_row list \<Rightarrow> uuid \<Rightarrow> bool" where
  "login_provider reg iid \<longleftrightarrow> (\<exists>g \<in> set reg. itg_id g = iid \<and> itg_kind g = CategoryLogin)"

text \<open>With identities, which belong to a login provider of a registry these requests do not write.\<close>

locale account_invariant = users_invariant P for P :: "env \<Rightarrow> db \<Rightarrow> bool" +
  fixes reg :: "integration_row list"
  assumes registry: "P e d \<Longrightarrow> a_integrations (d_auth d) = reg"
    and linked: "P e d \<Longrightarrow> login_provider reg iid \<Longrightarrow> identity_insert e t d (new_identity uid iid s m) = Inr (i, d') \<Longrightarrow> P e d'"
    and unlinked: "P e d \<Longrightarrow> P e (d\<lparr>d_auth := (d_auth d)\<lparr>a_identities := filter q (a_identities (d_auth d))\<rparr>\<rparr>)"
begin

lemma resolved:
  assumes "\<And>iid. login_provider reg iid \<Longrightarrow> maintains P (k iid)"
  shows "maintains P (obind (integrationID p) k)"
proof -
  have "post (integrationID p) (\<lambda>iid w'. same_tables w w' \<and> login_provider reg iid) (\<lambda>_ w'. same_tables w w') w"
    if "tables_sat P w" for w
    using registry [of "w_env w" "w_db w"] that
    by (auto simp: integrationID_def ResolveID_def GetByKindName_def post_auth_query tables_sat_def same_tables_def
        login_provider_def dest!: find_member split: option.split)
  then have "post (obind (integrationID p) k) (\<lambda>_. tables_sat P) (\<lambda>_. tables_sat P) w" if "tables_sat P w" for w
    using that assms by (force simp: maintains_def keeps_post same_tables_sat intro: post_weaken)
  then show ?thesis by (simp add: maintains_def keeps_post)
qed

lemma identity_kept: "login_provider reg iid \<Longrightarrow> maintains P (identities_Create (new_identity uid iid s m))"
  by (auto simp: identities_Create_def intro!: maintain_rules intro: linked)

lemma linking_kept: "maintains P (LinkIdentity uid p c)" "maintains P (UnlinkIdentity uid p keep)"
proof -
  show "maintains P (LinkIdentity uid p c)"
    by (auto simp: LinkIdentity_def link_tx_def intro!: resolved maintain_rules identity_kept)
  have "maintains P (DeleteUserIdentityByProviderName uid p)"
    unfolding DeleteUserIdentityByProviderName_def by (rule maintains_auth) (auto intro: unlinked)
  then show "maintains P (UnlinkIdentity uid p keep)"
    by (auto simp: UnlinkIdentity_def unlink_tx_def intro!: maintain_rules)
qed

lemma lookup_kept: "maintains P (getUserByIdentity p s)"
  by (auto simp: getUserByIdentity_def intro!: resolved maintain_rules)

lemma accounts_kept: "maintains P (GetOrCreateByAuthInfo p info pol)"
proof -
  have "maintains P (createWithIdentity p info rs)" for rs
    by (auto simp: createWithIdentity_def createIdentity_def intro!: resolved maintain_rules account_kept identity_kept roles_kept)
  then show ?thesis
    by (auto simp: GetOrCreateByAuthInfo_def createByPolicy_def read_cfg_def intro!: maintain_rules lookup_kept)
qed

lemma guarded_requests_kept: "(\<forall>em nm. r \<noteq> ReqBreakGlass em nm) \<Longrightarrow> maintains P (serve_user r)"
  by (cases r) (auto simp: forget_def intro!: maintain_rules roles_kept blocking_kept profile_kept linking_kept accounts_kept without_identity_kept)

end

text \<open>The break-glass path grants a role past the seats cap: it keeps what does not depend on the cap.\<close>

locale uncapped_invariant = account_invariant +
  assumes uncapped: "P e d \<Longrightarrow> find_user d (u_id u) = Some u \<Longrightarrow> u_id u' = u_id u \<Longrightarrow> admin_kept u u' d \<Longrightarrow> P e (write_user e u' d)"
begin

lemma update_uncapped:
  assumes "covers False fn"
  shows "maintains P (user_updateWithApply uid fn)"
proof (rule maintains_update)
  fix w u assume inv: "tables_sat P w" and u: "find_user (w_db w) uid = Some u"
  have "find_user (w_db w) (u_id u) = Some u" using u find_user_Some [OF u] by simp
  with inv have w: "u_id u' = u_id u \<Longrightarrow> admin_kept u u' (w_db w) \<Longrightarrow> P (w_env w) (write_user (w_env w) u' (w_db w))" for u'
    by (auto simp: tables_sat_def intro: uncapped)
  have "post (fn u) (covered False w u) (\<lambda>_ w'. same_tables w w') w" using assms by (simp add: covers_def)
  then show "post (fn u) (\<lambda>(u', _) w'. same_tables w w' \<and> (u_id u' = u_id u \<and> P (w_env w) (write_user (w_env w) u' (w_db w))))
      (\<lambda>_ w'. same_tables w w') w"
    by (rule post_weaken) (auto simp: covered_def intro: w)
qed

lemma requests_kept: "maintains P (serve_user r)"
proof -
  have "maintains P (grantRolesUnguarded uid roles)" for uid roles
    by (auto simp: grantRolesUnguarded_def unchanged_ok_def intro!: maintain_rules update_uncapped covers_assign)
  then have "maintains P (EnsureBreakGlassAccount email name)" for email name
    by (auto simp: EnsureBreakGlassAccount_def ensureBreakGlassAccount_def break_glass_tx_def intro!: maintain_rules account_kept)
  then show ?thesis
    using guarded_requests_kept [of r] by (cases r) (auto simp: forget_def intro!: maintain_rules)
qed

end

end
