(* ===== verification/AccountSafety.thy ===== *)
theory AccountSafety
  imports UserInvariant
begin

text \<open>
  The account invariants themselves, each an interpretation of the contract of
  \<open>UserInvariant\<close> (an active administrator remains, the seats cap holds on the guarded
  paths, identities stay attributable), and what disconnecting a provider leaves.
  \<open>AccessInvariant\<close> extends the invariants to every request.
\<close>

section \<open>Counting over the users table\<close>

definition users_distinct :: "db \<Rightarrow> bool" where
  "users_distinct d \<longleftrightarrow> distinct (map u_id (d_users d))"

lemma written_ids [simp]: "map u_id (d_users (write_user e u d)) = map u_id (d_users d)"
  by (simp add: write_user_def set_user_def)

lemma written_auth [simp]: "d_auth (write_user e u d) = d_auth d"
  by (simp add: write_user_def)

text \<open>With unique identifiers a write changes one row, so it moves a count by that row only.\<close>

lemma count_written:
  assumes "users_distinct d" "find_user d (u_id u) = Some u" "u_id u' = u_id u"
  shows "length (filter q (d_users (write_user e u' d))) + (if q u then 1 else 0)
    = length (filter q (d_users d)) + (if q (set_user (pg_user e u') u) then 1 else 0)"
proof -
  obtain xs ys where d: "d_users d = xs @ u # ys"
    using find_user_Some [OF assms(2)] by (meson split_list)
  with assms(1) have "u_id u \<notin> u_id ` set xs" "u_id u \<notin> u_id ` set ys"
    by (auto simp: users_distinct_def)
  then have "map (\<lambda>x. if u_id x = u_id u' then set_user (pg_user e u') x else x) zs = zs" if "zs \<in> {xs, ys}" for zs
    using that assms(3) by (intro map_idI) (auto simp: image_iff)
  with d assms(3) show ?thesis by (simp add: write_user_def)
qed

lemma written_admin [simp]: "IsActiveAdmin (set_user (pg_user e u') u) = IsActiveAdmin u'"
  by (simp add: IsActiveAdmin_def IsAdmin_def IsBlocked_def set_user_def pg_user_def)

lemma written_seat [simp]: "takes_seat (set_user (pg_user e u') u) = takes_seat u'"
  by (simp add: takes_seat_def IsBlocked_def set_user_def pg_user_def)

lemma identity_insert_users: "identity_insert e t d r = Inr (i, d') \<Longrightarrow> d_users d' = d_users d \<and> a_integrations (d_auth d') = a_integrations (d_auth d)"
  by (auto simp: identity_insert_def Let_def split: if_splits)

section \<open>An administrator remains\<close>

definition admin_inv :: "integration_row list \<Rightarrow> env \<Rightarrow> db \<Rightarrow> bool" where
  "admin_inv reg e d \<longleftrightarrow> a_integrations (d_auth d) = reg \<and> users_distinct d \<and> 1 \<le> active_admins d"

lemma active_admins_written:
  assumes "users_distinct d" "find_user d (u_id u) = Some u" "u_id u' = u_id u" "admin_kept u u' d" "1 \<le> active_admins d"
  shows "1 \<le> active_admins (write_user e u' d)"
  using count_written [OF assms(1-3), of IsActiveAdmin e] assms(4,5)
  by (auto simp: active_admins_def admin_kept_def split: if_splits)

interpretation admins: uncapped_invariant "admin_inv reg" reg for reg
proof unfold_locales
  have keep: "admin_inv reg e (write_user e u' d)"
    if "admin_inv reg e d" "find_user d (u_id u) = Some u" "u_id u' = u_id u" "admin_kept u u' d" for e d u u'
    using that active_admins_written [of d u u' e] by (auto simp: admin_inv_def users_distinct_def)
  show "admin_inv reg e (write_user e u' d)"
    if "admin_inv reg e d" "find_user d (u_id u) = Some u" "u_id u' = u_id u" "admin_kept u u' d" "seat_granted e u u' d" for e d u u'
    using that by (intro keep)
  show "admin_inv reg e (write_user e u' d)"
    if "admin_inv reg e d" "find_user d (u_id u) = Some u" "u_id u' = u_id u" "admin_kept u u' d" for e d u u'
    using that by (rule keep)
qed (auto simp: admin_inv_def users_distinct_def active_admins_def dest: identity_insert_users)

section \<open>The seats cap\<close>

definition seats_inv :: "int \<Rightarrow> integration_row list \<Rightarrow> env \<Rightarrow> db \<Rightarrow> bool" where
  "seats_inv cap reg e d \<longleftrightarrow> a_integrations (d_auth d) = reg \<and> users_distinct d \<and> (\<forall>t. au_seats (e_auth e) t = Some cap)
     \<and> seats_taken d \<le> cap"

lemma default_no_seat: "u_roles u = DefaultRoles \<Longrightarrow> \<not> takes_seat u"
  by (simp add: takes_seat_def seated_iff DefaultRoles_def RoleOccupiesSeat_def)

lemma seats_written:
  assumes "seats_inv cap reg e d" "find_user d (u_id u) = Some u" "u_id u' = u_id u" "seat_granted e u u' d"
  shows "seats_taken (write_user e u' d) \<le> cap"
  using count_written [OF _ assms(2,3), of takes_seat e] assms(1,4)
  by (auto simp: seats_inv_def seats_taken_def seat_granted_def seat_free_def split: if_splits)

interpretation seats: account_invariant "seats_inv cap reg" reg for cap reg
proof unfold_locales
  show "seats_inv cap reg e (write_user e u' d)"
    if "seats_inv cap reg e d" "find_user d (u_id u) = Some u" "u_id u' = u_id u" "seat_granted e u u' d" for e d u u'
    using that seats_written [OF that] by (auto simp: seats_inv_def users_distinct_def)
qed (auto simp: seats_inv_def users_distinct_def seats_taken_def default_no_seat dest: identity_insert_users)

section \<open>Identities\<close>

definition registry_wf :: "integration_row list \<Rightarrow> bool" where
  "registry_wf reg \<longleftrightarrow> distinct (map itg_id reg) \<and> distinct (map (\<lambda>g. (itg_kind g, itg_name g)) reg)"

definition identities_inv :: "integration_row list \<Rightarrow> env \<Rightarrow> db \<Rightarrow> bool" where
  "identities_inv reg e d \<longleftrightarrow> a_integrations (d_auth d) = reg
     \<and> distinct (map (\<lambda>i. (idn_integration i, idn_subject i)) (a_identities (d_auth d)))
     \<and> distinct (map (\<lambda>i. (idn_user i, idn_integration i)) (a_identities (d_auth d)))
     \<and> (\<forall>i \<in> set (a_identities (d_auth d)). idn_user i \<in> u_id ` set (d_users d) \<and> login_provider reg (idn_integration i))"

lemma identity_inserted:
  assumes "identities_inv reg e d" "login_provider reg iid" "identity_insert e t d (new_identity uid iid s m) = Inr (i, d')"
  shows "identities_inv reg e d'"
  using assms by (auto simp: identities_inv_def identity_insert_def new_identity_def Let_def split: if_splits; blast)

lemma written_users: "u_id ` set (d_users (write_user e u d)) = u_id ` set (d_users d)"
  by (metis list.set_map written_ids)

lemma distinct_map_filtered: "distinct (map f xs) \<Longrightarrow> distinct (map f (filter q xs))"
  by (simp add: distinct_map inj_on_def)

interpretation idents: uncapped_invariant "identities_inv reg" reg for reg
proof unfold_locales
  show "identities_inv reg e d'"
    if "identities_inv reg e d" "login_provider reg iid" "identity_insert e t d (new_identity uid iid s m) = Inr (i, d')"
    for e d iid t uid s m i d'
    using that by (rule identity_inserted)
qed (auto simp: identities_inv_def written_users distinct_map_filtered)

section \<open>Samples\<close>

definition sample_user :: "uuid \<Rightarrow> role list \<Rightarrow> user" where
  "sample_user i rs = \<lparr>u_id = i, u_email = [], u_name = [], u_roles = rs, u_created_at = 0, u_blocked_at = None,
     u_timezone = None, u_telegram_tag = None, u_slack_tag = None\<rparr>"

definition sample_registry :: "integration_row list" where
  "sample_registry = [\<lparr>itg_id = 20, itg_kind = CategoryLogin, itg_name = ''google''\<rparr>, \<lparr>itg_id = 21, itg_kind = CategoryLogin, itg_name = ''custom''\<rparr>]"

definition sample_identity :: "uuid \<Rightarrow> uuid \<Rightarrow> identity_row" where
  "sample_identity uid iid = \<lparr>idn_id = uid * 100 + iid, idn_user = uid, idn_integration = iid, idn_subject = ''s'', idn_email = [], idn_created_at = 0\<rparr>"

definition sample_accounts :: db where
  "sample_accounts = empty_db\<lparr>d_users := [sample_user 1 [RoleAdmin], sample_user 2 [RoleEditor]],
     d_auth := empty_auth\<lparr>a_integrations := sample_registry, a_identities := [sample_identity 1 20, sample_identity 1 21]\<rparr>\<rparr>"

lemmas account_samples = sample_accounts_def sample_user_def sample_registry_def sample_identity_def sample_defs CategoryLogin_def

section \<open>Properties\<close>

lemma sample_identities: "identities_inv sample_registry e sample_accounts"
  by (simp add: identities_inv_def login_provider_def account_samples)

lemma unlink_db_only [db_only_rules]: "db_only (on_auth f)" "db_only (unlink_tx uid p keep)"
proof -
  show auth: "db_only (on_auth f)" for f :: "env \<Rightarrow> nat \<Rightarrow> auth_db \<Rightarrow> apperr + ('b \<times> auth_db)"
    unfolding on_auth_def by (rule db_only_rules)
  show "db_only (unlink_tx uid p keep)"
    by (auto simp: unlink_tx_def GetForUpdateByID_def user_or_not_found_def CountProvidersByUserID_def auth_query_def
        DeleteUserIdentityByProviderName_def intro!: db_only_rules auth)
qed

definition named :: "integration_row list \<Rightarrow> string \<Rightarrow> identity_row \<Rightarrow> bool" where
  "named reg p i \<longleftrightarrow> (\<exists>g \<in> set reg. itg_id g = idn_integration i \<and> itg_name g = p)"

lemma unlink_run:
  "post (unlink_tx uid p keep) (\<lambda>_ w'. (keep \<or> 2 \<le> length (filter (\<lambda>i. idn_user i = uid) (a_identities (d_auth (w_db w)))))
     \<and> w_db w' = (w_db w)\<lparr>d_auth := (d_auth (w_db w))\<lparr>a_identities :=
         filter (\<lambda>i. \<not> (idn_user i = uid \<and> named (a_integrations (d_auth (w_db w))) p i)) (a_identities (d_auth (w_db w)))\<rparr>\<rparr>)
     (\<lambda>_ _. True) w"
  by (auto simp: unlink_tx_def GetForUpdateByID_def user_or_not_found_def CountProvidersByUserID_def auth_query_def
      DeleteUserIdentityByProviderName_def named_def on_auth_def post_db_call post_db_query split: option.split)

lemma registry_unique:
  assumes "registry_wf reg" "g \<in> set reg" "h \<in> set reg"
  shows "itg_id g = itg_id h \<Longrightarrow> g = h" "itg_kind g = itg_kind h \<Longrightarrow> itg_name g = itg_name h \<Longrightarrow> g = h"
  using assms by (auto simp: registry_wf_def distinct_map dest: inj_onD)

lemma named_login:
  assumes "registry_wf reg" "login_provider reg (idn_integration i)" "named reg p i"
  obtains g where "g \<in> set reg" "itg_id g = idn_integration i" "itg_kind g = CategoryLogin" "itg_name g = p"
  using assms registry_unique(1) [OF assms(1)] unfolding named_def login_provider_def by metis

lemma two_of_distinct:
  assumes "distinct (map f xs)" "2 \<le> length xs"
  obtains x y where "x \<in> set xs" "y \<in> set xs" "f x \<noteq> f y"
proof -
  from assms(2) obtain x y zs where "xs = x # y # zs" by (metis Suc_le_length_iff numeral_2_eq_2)
  with assms(1) that show ?thesis by auto
qed

text \<open>C37. Disconnecting a provider without another way to sign in: it succeeds only for an account
  that keeps an identity with a different provider, removes exactly the identities of the
  account with the named provider, and touches no other account.\<close>

theorem unlink_keeps_a_way_in:
  assumes "UnlinkIdentity uid p False w = (Inr r, w')" "w_tx w = None" "registry_wf reg" "identities_inv reg (w_env w) (w_db w)"
  shows "(\<exists>i \<in> set (a_identities (d_auth (w_db w'))). idn_user i = uid)
    \<and> a_identities (d_auth (w_db w')) = filter (\<lambda>i. \<not> (idn_user i = uid \<and> named reg p i)) (a_identities (d_auth (w_db w)))"
proof -
  let ?ids = "a_identities (d_auth (w_db w))"
  let ?mine = "filter (\<lambda>i. idn_user i = uid) ?ids"
  have reg: "a_integrations (d_auth (w_db w)) = reg" using assms(4) by (simp add: identities_inv_def)
  from assms(1) [unfolded UnlinkIdentity_def] assms(2) unlink_db_only(2) have run: "2 \<le> length ?mine
      \<and> a_identities (d_auth (w_db w')) = filter (\<lambda>i. \<not> (idn_user i = uid \<and> named reg p i)) ?ids"
  proof (cases rule: WithinTx_cases)
    case (committed a w1 w2)
    with post_InrD [OF unlink_run committed(2)] reg show ?thesis by simp
  qed simp
  have uniq: "distinct (map idn_integration ?mine)"
    using assms(4) by (auto simp: identities_inv_def distinct_map inj_on_def)
  obtain i j where ij: "i \<in> set ?mine" "j \<in> set ?mine" "idn_integration i \<noteq> idn_integration j"
    by (rule two_of_distinct [OF uniq conjunct1 [OF run]])
  have "login_provider reg (idn_integration i)" "login_provider reg (idn_integration j)"
    using ij assms(4) by (auto simp: identities_inv_def)
  then have "\<not> (named reg p i \<and> named reg p j)"
    using ij(3) registry_unique(2) [OF assms(3)] named_login [OF assms(3)] by metis
  then have "\<exists>k \<in> set ?mine. \<not> named reg p k" using ij by blast
  with run show ?thesis by auto
qed

theorem unlink_keeps_a_way_in_witness:
  "fst (UnlinkIdentity 1 ''google'' False (quiet_world sample_accounts)) = Inr ()
   \<and> (\<exists>i \<in> set (a_identities (d_auth (w_db (snd (UnlinkIdentity 1 ''google'' False (quiet_world sample_accounts)))))). idn_user i = 1)"
proof -
  let ?r = "UnlinkIdentity 1 ''google'' False (quiet_world sample_accounts)"
  have ok: "fst ?r = Inr ()" by code_simp
  then have run: "?r = (Inr (), snd ?r)" by (metis prod.collapse)
  have reg: "registry_wf sample_registry" by (simp add: registry_wf_def sample_registry_def)
  have "w_tx (quiet_world sample_accounts) = None"
    "identities_inv sample_registry (w_env (quiet_world sample_accounts)) (w_db (quiet_world sample_accounts))"
    by (simp_all add: quiet_world_def sample_identities)
  from unlink_keeps_a_way_in [OF run this(1) reg this(2)] ok show ?thesis by blast
qed

end
