(* ===== verification/AdminRace.thy ===== *)
theory AdminRace
  imports AccountSafety
begin

text \<open>
  Concurrent changes of accounts. Every change runs in its own transaction at READ COMMITTED:
  it locks its target's row, and, when it would take an active administrator away, the
  advisory lock of \<open>LockAdminMutations\<close>, counts the committed administrators and writes;
  both locks go with the commit or the rollback (\<open>updateWithApply\<close> and
  \<open>ensureNotLastActiveAdmin\<close> in \<open>internal/services/user/service.go\<close>). The transactions are
  numbered and interleave at every statement.
\<close>

section \<open>The interleaving\<close>

datatype race_phase = Waiting | RowLocked user | AdminLocked user | Checked user | Finished

record race =
  rc_committed :: db
  rc_row_lock :: "uuid \<Rightarrow> nat option"
  rc_admin_lock :: "nat option"
  rc_phase :: "nat \<Rightarrow> race_phase"

text \<open>
  The changes, as the closures of the service apply them, and whether the closure calls
  \<open>ensureNotLastActiveAdmin\<close> on an active administrator, which is when it goes on to the lock.
\<close>

datatype account_change = ChRevoke role | ChReplace "role list" | ChBlock time | ChUnblock | ChAssign "role list"

fun applied :: "account_change \<Rightarrow> user \<Rightarrow> user" where
  "applied (ChRevoke r) u = u\<lparr>u_roles := remove1 r (u_roles u)\<rparr>"
| "applied (ChReplace rs) u = u\<lparr>u_roles := sort_roles (uniq (filter Role_Valid rs))\<rparr>"
| "applied (ChBlock t) u = u\<lparr>u_blocked_at := Some t\<rparr>"
| "applied ChUnblock u = u\<lparr>u_blocked_at := None\<rparr>"
| "applied (ChAssign rs) u = u\<lparr>u_roles := u_roles u @ filter (\<lambda>r. r \<notin> set (u_roles u)) rs\<rparr>"

fun guarded :: "account_change \<Rightarrow> user \<Rightarrow> bool" where
  "guarded (ChRevoke r) u = (r = RoleAdmin \<and> IsActiveAdmin u)"
| "guarded (ChReplace rs) u = (IsActiveAdmin u \<and> RoleAdmin \<notin> set (sort_roles (uniq (filter Role_Valid rs))))"
| "guarded (ChBlock t) u = IsActiveAdmin u"
| "guarded ChUnblock u = False"
| "guarded (ChAssign rs) u = False"

lemma drop_guarded: "IsActiveAdmin u \<Longrightarrow> \<not> IsActiveAdmin (applied c u) \<Longrightarrow> guarded c u"
  by (cases c; cases "c = ChRevoke RoleAdmin") (auto simp: IsActiveAdmin_def IsAdmin_def IsBlocked_def)

lemma applied_id [simp]: "u_id (applied c u) = u_id u"
  by (cases c) simp_all

definition release :: "(nat \<Rightarrow> uuid) \<Rightarrow> nat \<Rightarrow> race \<Rightarrow> race" where
  "release tgt i s = s\<lparr>rc_row_lock := (if rc_row_lock s (tgt i) = Some i then (rc_row_lock s)(tgt i := None) else rc_row_lock s),
     rc_admin_lock := (if rc_admin_lock s = Some i then None else rc_admin_lock s), rc_phase := (rc_phase s)(i := Finished)\<rparr>"

text \<open>
  The statements of one transaction.
\<close>

inductive race_move :: "env \<Rightarrow> (nat \<Rightarrow> uuid) \<Rightarrow> (nat \<Rightarrow> account_change) \<Rightarrow> race \<Rightarrow> race \<Rightarrow> bool"
  for e :: env and tgt :: "nat \<Rightarrow> uuid" and chg :: "nat \<Rightarrow> account_change" where
  lock_row: "rc_phase s i = Waiting \<Longrightarrow> rc_row_lock s (tgt i) = None \<Longrightarrow> find_user (rc_committed s) (tgt i) = Some u \<Longrightarrow>
    race_move e tgt chg s (s\<lparr>rc_row_lock := (rc_row_lock s)(tgt i := Some i), rc_phase := (rc_phase s)(i := RowLocked u)\<rparr>)"
| no_row: "rc_phase s i = Waiting \<Longrightarrow> find_user (rc_committed s) (tgt i) = None \<Longrightarrow> race_move e tgt chg s (release tgt i s)"
| no_guard: "rc_phase s i = RowLocked u \<Longrightarrow> \<not> guarded (chg i) u \<Longrightarrow>
    race_move e tgt chg s (s\<lparr>rc_phase := (rc_phase s)(i := Checked u)\<rparr>)"
| admin_lock: "rc_phase s i = RowLocked u \<Longrightarrow> guarded (chg i) u \<Longrightarrow> rc_admin_lock s = None \<Longrightarrow>
    race_move e tgt chg s (s\<lparr>rc_admin_lock := Some i, rc_phase := (rc_phase s)(i := AdminLocked u)\<rparr>)"
| count_more: "rc_phase s i = AdminLocked u \<Longrightarrow> 2 \<le> active_admins (rc_committed s) \<Longrightarrow>
    race_move e tgt chg s (s\<lparr>rc_phase := (rc_phase s)(i := Checked u)\<rparr>)"
| count_last: "rc_phase s i = AdminLocked u \<Longrightarrow> active_admins (rc_committed s) \<le> 1 \<Longrightarrow> race_move e tgt chg s (release tgt i s)"
| commit: "rc_phase s i = Checked u \<Longrightarrow>
    race_move e tgt chg s (release tgt i (s\<lparr>rc_committed := write_user e (applied (chg i) u) (rc_committed s)\<rparr>))"

text \<open>Any statement may also fail, which rolls the transaction back.\<close>

inductive race_step :: "env \<Rightarrow> (nat \<Rightarrow> uuid) \<Rightarrow> (nat \<Rightarrow> account_change) \<Rightarrow> race \<Rightarrow> race \<Rightarrow> bool"
  for e :: env and tgt :: "nat \<Rightarrow> uuid" and chg :: "nat \<Rightarrow> account_change" where
  move: "race_move e tgt chg s s' \<Longrightarrow> race_step e tgt chg s s'"
| abort: "race_step e tgt chg s (release tgt i s)"

definition race_start :: "db \<Rightarrow> race" where
  "race_start d = \<lparr>rc_committed = d, rc_row_lock = (\<lambda>_. None), rc_admin_lock = None, rc_phase = (\<lambda>_. Waiting)\<rparr>"

section \<open>The invariant\<close>

fun holds_row :: "race_phase \<Rightarrow> user option" where
  "holds_row (RowLocked u) = Some u"
| "holds_row (AdminLocked u) = Some u"
| "holds_row (Checked u) = Some u"
| "holds_row _ = None"

fun holds_admin :: "account_change \<Rightarrow> race_phase \<Rightarrow> bool" where
  "holds_admin c (AdminLocked u) = True"
| "holds_admin c (Checked u) = guarded c u"
| "holds_admin c _ = False"

definition race_inv :: "(nat \<Rightarrow> uuid) \<Rightarrow> (nat \<Rightarrow> account_change) \<Rightarrow> race \<Rightarrow> bool" where
  "race_inv tgt chg s \<longleftrightarrow> users_distinct (rc_committed s) \<and> 1 \<le> active_admins (rc_committed s)
     \<and> (\<forall>i u. holds_row (rc_phase s i) = Some u \<longrightarrow> rc_row_lock s (tgt i) = Some i \<and> find_user (rc_committed s) (tgt i) = Some u)
     \<and> (\<forall>i r. rc_row_lock s r = Some i \<longrightarrow> r = tgt i \<and> holds_row (rc_phase s i) \<noteq> None)
     \<and> (\<forall>i. rc_admin_lock s = Some i \<longleftrightarrow> holds_admin (chg i) (rc_phase s i))
     \<and> (\<forall>i u. rc_phase s i = Checked u \<and> guarded (chg i) u \<longrightarrow> 2 \<le> active_admins (rc_committed s))
     \<and> (\<forall>i u. rc_phase s i = AdminLocked u \<longrightarrow> guarded (chg i) u)"

lemma find_user_written:
  assumes "u_id u' \<noteq> uid"
  shows "find_user (write_user e u' d) uid = find_user d uid"
proof -
  have "find (\<lambda>u. u_id u = uid) (map (\<lambda>x. if u_id x = u_id u' then set_user (pg_user e u') x else x) us)
      = find (\<lambda>u. u_id u = uid) us" for us
    using assms by (induction us) (auto simp: set_user_def)
  then show ?thesis by (simp add: find_user_def write_user_def)
qed

lemma active_admins_grow:
  assumes "users_distinct d" "find_user d (u_id u) = Some u" "\<not> guarded c u"
  shows "active_admins d \<le> active_admins (write_user e (applied c u) d)"
  using count_written [OF assms(1,2) applied_id, of IsActiveAdmin e c] drop_guarded [of u c] assms(3)
  by (auto simp: active_admins_def split: if_splits)

lemma active_admins_drop_one:
  assumes "users_distinct d" "find_user d (u_id u) = Some u"
  shows "active_admins d \<le> Suc (active_admins (write_user e (applied c u) d))"
  using count_written [OF assms applied_id, of IsActiveAdmin e c] by (auto simp: active_admins_def split: if_splits)

lemma users_distinct_written [simp]: "users_distinct (write_user e u d) = users_distinct d"
  by (simp add: users_distinct_def)

lemma raceD:
  assumes "race_inv tgt chg s"
  shows "users_distinct (rc_committed s)" "1 \<le> active_admins (rc_committed s)"
    "holds_row (rc_phase s i) = Some u \<Longrightarrow> rc_row_lock s (tgt i) = Some i"
    "holds_row (rc_phase s i) = Some u \<Longrightarrow> find_user (rc_committed s) (tgt i) = Some u"
    "rc_row_lock s r = Some i \<Longrightarrow> r = tgt i" "rc_row_lock s r = Some i \<Longrightarrow> holds_row (rc_phase s i) \<noteq> None"
    "rc_admin_lock s = Some i \<longleftrightarrow> holds_admin (chg i) (rc_phase s i)"
    "rc_phase s i = Checked u \<Longrightarrow> guarded (chg i) u \<Longrightarrow> 2 \<le> active_admins (rc_committed s)"
    "rc_phase s i = AdminLocked u \<Longrightarrow> guarded (chg i) u"
  using assms unfolding race_inv_def by blast+

lemma released:
  assumes "race_inv tgt chg s"
  shows "rc_phase (release tgt i s) j = (if j = i then Finished else rc_phase s j)"
    "rc_row_lock (release tgt i s) r = (if rc_row_lock s r = Some i then None else rc_row_lock s r)"
    "rc_admin_lock (release tgt i s) = (if rc_admin_lock s = Some i then None else rc_admin_lock s)"
    "rc_committed (release tgt i s) = rc_committed s"
proof -
  have "r \<noteq> tgt i \<Longrightarrow> rc_row_lock s r \<noteq> Some i" using raceD(5) [OF assms] by blast
  then show "rc_row_lock (release tgt i s) r = (if rc_row_lock s r = Some i then None else rc_row_lock s r)"
    by (cases "r = tgt i") (simp_all add: release_def)
qed (simp_all add: release_def)

lemma release_inv:
  assumes "race_inv tgt chg s"
  shows "race_inv tgt chg (release tgt i s)"
  unfolding race_inv_def released [OF assms]
proof (intro conjI allI impI)
  fix j
  show "((if rc_admin_lock s = Some i then None else rc_admin_lock s) = Some j)
      = holds_admin (chg j) (if j = i then Finished else rc_phase s j)"
    using raceD(7) [OF assms, of j] by auto
qed (use raceD(1-6,8,9) [OF assms] in \<open>auto split: if_splits\<close>)

lemma rephase_inv:
  assumes "race_inv tgt chg s" "holds_row ph = holds_row (rc_phase s i)" "holds_admin (chg i) ph = holds_admin (chg i) (rc_phase s i)"
    "\<And>u. ph = Checked u \<Longrightarrow> guarded (chg i) u \<Longrightarrow> 2 \<le> active_admins (rc_committed s)" "\<And>u. ph \<noteq> AdminLocked u"
  shows "race_inv tgt chg (s\<lparr>rc_phase := (rc_phase s)(i := ph)\<rparr>)"
  unfolding race_inv_def using raceD [OF assms(1)] assms(2-5) by (auto split: if_splits)

lemma lock_row_inv:
  assumes "race_inv tgt chg s" "rc_phase s i = Waiting" "rc_row_lock s (tgt i) = None" "find_user (rc_committed s) (tgt i) = Some u"
  shows "race_inv tgt chg (s\<lparr>rc_row_lock := (rc_row_lock s)(tgt i := Some i), rc_phase := (rc_phase s)(i := RowLocked u)\<rparr>)"
proof -
  have "tgt j = tgt i \<Longrightarrow> holds_row (rc_phase s j) = None" for j
    using raceD(3) [OF assms(1), of j] assms(3) by (cases "holds_row (rc_phase s j)") auto
  then show ?thesis
    unfolding race_inv_def using raceD [OF assms(1)] assms(2-4) by (auto split: if_splits)
qed

lemma admin_lock_inv:
  assumes "race_inv tgt chg s" "rc_phase s i = RowLocked u" "guarded (chg i) u" "rc_admin_lock s = None"
  shows "race_inv tgt chg (s\<lparr>rc_admin_lock := Some i, rc_phase := (rc_phase s)(i := AdminLocked u)\<rparr>)"
proof -
  have free: "\<not> holds_admin (chg j) (rc_phase s j)" for j
    using raceD(7) [OF assms(1), of j] assms(4) by simp
  then have "\<not> (rc_phase s j = Checked v \<and> guarded (chg j) v)" for j v
    by (metis holds_admin.simps(2))
  with free show ?thesis
    unfolding race_inv_def using raceD(1-6,9) [OF assms(1)] assms(2-4) by (auto split: if_splits)
qed

lemma commit_inv:
  assumes "race_inv tgt chg s" "rc_phase s i = Checked u"
  shows "race_inv tgt chg (release tgt i (s\<lparr>rc_committed := write_user e (applied (chg i) u) (rc_committed s)\<rparr>))"
proof -
  let ?d = "rc_committed s" and ?d' = "write_user e (applied (chg i) u) (rc_committed s)" and ?s = "release tgt i s"
  have u: "find_user ?d (tgt i) = Some u" "rc_row_lock s (tgt i) = Some i"
    using raceD(3,4) [OF assms(1), of i u] assms(2) by auto
  then have uid: "u_id u = tgt i" using find_user_Some by blast
  have found: "find_user ?d (u_id u) = Some u" using u(1) uid by simp
  note grow = active_admins_grow [OF raceD(1) [OF assms(1)] found, of "chg i" e]
    and one = active_admins_drop_one [OF raceD(1) [OF assms(1)] found, of e "chg i"]
  have left: "1 \<le> active_admins ?d'"
    using grow one raceD(2) [OF assms(1)] raceD(8) [OF assms(1) assms(2)] by fastforce
  have others: "find_user ?d' (tgt j) = find_user ?d (tgt j)" if "holds_row (rc_phase ?s j) = Some v" for j v
  proof -
    have "j \<noteq> i" "holds_row (rc_phase s j) = Some v" using that by (auto simp: released [OF assms(1)] split: if_splits)
    with u(2) raceD(3) [OF assms(1), of j v] have "tgt j \<noteq> tgt i" by auto
    with uid show ?thesis by (intro find_user_written) simp
  qed
  have kept: "2 \<le> active_admins ?d'" if "rc_phase ?s j = Checked v" "guarded (chg j) v" for j v
  proof -
    have j: "j \<noteq> i" "rc_phase s j = Checked v" using that by (auto simp: released [OF assms(1)] split: if_splits)
    then have "\<not> guarded (chg i) u"
      using raceD(7) [OF assms(1), of i] raceD(7) [OF assms(1), of j] assms(2) that(2) by auto
    with grow raceD(8) [OF assms(1) j(2) that(2)] show ?thesis by simp
  qed
  have "release tgt i (s\<lparr>rc_committed := ?d'\<rparr>) = ?s\<lparr>rc_committed := ?d'\<rparr>" by (simp add: release_def)
  with raceD [OF release_inv [OF assms(1), of i]] left others kept raceD(1) [OF assms(1)] show ?thesis
    unfolding race_inv_def by (auto simp: released(4) [OF assms(1)])
qed

lemma move_inv: "race_move e tgt chg s s' \<Longrightarrow> race_inv tgt chg s \<Longrightarrow> race_inv tgt chg s'"
proof (induction rule: race_move.induct)
  case (no_guard s i u)
  then show ?case by (intro rephase_inv) auto
next
  case (count_more s i u)
  then have "guarded (chg i) u" using raceD(9) by blast
  with count_more show ?case by (intro rephase_inv) auto
qed (auto intro: release_inv lock_row_inv admin_lock_inv commit_inv)

section \<open>Properties\<close>

lemma step_inv: "race_step e tgt chg s s' \<Longrightarrow> race_inv tgt chg s \<Longrightarrow> race_inv tgt chg s'"
  by (induction rule: race_step.induct) (auto intro: move_inv release_inv)

lemma race_reachable:
  assumes "users_distinct d" "\<exists>u \<in> set (d_users d). IsActiveAdmin u" "(race_step e tgt chg)\<^sup>*\<^sup>* (race_start d) s"
  shows "race_inv tgt chg s"
  using assms(3)
proof (induction rule: rtranclp_induct)
  case base
  have "filter IsActiveAdmin (d_users d) \<noteq> []" using assms(2) by (auto simp: filter_empty_conv)
  with assms(1) show ?case by (simp add: race_inv_def race_start_def active_admins_def Suc_le_eq)
qed (blast intro: step_inv)

text \<open>C7. Concurrent account changes: whatever the interleaving of the transactions at their
  statements, and whichever of them roll back, an active administrator is committed at every moment.\<close>

theorem concurrent_changes_keep_admin:
  assumes "users_distinct d" "\<exists>u \<in> set (d_users d). IsActiveAdmin u" "(race_step e tgt chg)\<^sup>*\<^sup>* (race_start d) s"
  shows "\<exists>u \<in> set (d_users (rc_committed s)). IsActiveAdmin u"
proof -
  have "filter IsActiveAdmin (d_users (rc_committed s)) \<noteq> []"
    using raceD(2) [OF race_reachable [OF assms]] by (auto simp: active_admins_def)
  then show ?thesis by (auto simp: filter_empty_conv)
qed

definition two_admins :: db where
  "two_admins = empty_db\<lparr>d_users := [sample_user 1 [RoleAdmin], sample_user 2 [RoleAdmin]]\<rparr>"

definition block_both :: "nat \<Rightarrow> account_change" where
  "block_both i = ChBlock 5"

definition both_ids :: "nat \<Rightarrow> uuid" where
  "both_ids i = of_nat i + 1"

lemmas race_samples = two_admins_def sample_user_def empty_db_def race_start_def block_both_def both_ids_def
  find_user_def users_distinct_def active_admins_def IsActiveAdmin_def IsAdmin_def IsBlocked_def

lemma sample_race:
  "(race_step quiet_env both_ids block_both)\<^sup>*\<^sup>* (race_start two_admins)
     ((race_start two_admins)\<lparr>rc_row_lock := (\<lambda>_. None)(1 := Some 0), rc_phase := (\<lambda>_. Waiting)(0 := RowLocked (sample_user 1 [RoleAdmin]))\<rparr>)"
proof -
  have "race_move quiet_env both_ids block_both (race_start two_admins)
    ((race_start two_admins)\<lparr>rc_row_lock := (rc_row_lock (race_start two_admins))(both_ids 0 := Some 0),
      rc_phase := (rc_phase (race_start two_admins))(0 := RowLocked (sample_user 1 [RoleAdmin]))\<rparr>)"
    by (rule race_move.lock_row) (simp_all add: race_samples)
  then have "race_step quiet_env both_ids block_both (race_start two_admins)
     ((race_start two_admins)\<lparr>rc_row_lock := (\<lambda>_. None)(1 := Some 0), rc_phase := (\<lambda>_. Waiting)(0 := RowLocked (sample_user 1 [RoleAdmin]))\<rparr>)"
    by (intro race_step.move) (simp add: race_start_def both_ids_def)
  then show ?thesis by (rule r_into_rtranclp)
qed

lemma two_admins_start: "users_distinct two_admins" "\<exists>u \<in> set (d_users two_admins). IsActiveAdmin u"
  by (simp_all add: race_samples)

theorem concurrent_changes_keep_admin_witness:
  "\<exists>u \<in> set (d_users (rc_committed ((race_start two_admins)\<lparr>rc_row_lock := (\<lambda>_. None)(1 := Some 0),
     rc_phase := (\<lambda>_. Waiting)(0 := RowLocked (sample_user 1 [RoleAdmin]))\<rparr>))). IsActiveAdmin u"
  by (rule concurrent_changes_keep_admin [OF two_admins_start sample_race])



end
