(* ===== verification/AuthSessions.thy ===== *)
theory AuthSessions
  imports Identities
begin

text \<open>
  Sessions: \<open>internal/services/auth\<close> (issuing a token pair, refreshing, logging out,
  introspecting) over the token service, the account service and the revocation marks. A
  session is a refresh-token family: a chain of rows of which one is live, carried from
  rotation to rotation with the start of the session.
\<close>

section \<open>Lifetimes\<close>

definition breakGlassAccessTokenTTL :: duration where "breakGlassAccessTokenTTL = 5 * minute"
definition breakGlassSessionLifetime :: duration where "breakGlassSessionLifetime = 24 * 60 * minute"

record session_ttls =
  tt_access :: duration
  tt_max_lifetime :: duration

definition sessionTTLs :: "auth_cfg \<Rightarrow> user \<Rightarrow> session_ttls" where
  "sessionTTLs cfg u = (if \<not> IsBreakGlass u then \<lparr>tt_access = cf_access_ttl cfg, tt_max_lifetime = cf_max_lifetime cfg\<rparr>
     else \<lparr>tt_access = min (cf_access_ttl cfg) breakGlassAccessTokenTTL,
           tt_max_lifetime = min (cf_max_lifetime cfg) breakGlassSessionLifetime\<rparr>)"

text \<open>\<open>Truncate(time.Second)\<close> rounds down to whole seconds since the zero time, which is itself whole seconds from the epoch.\<close>

definition truncate_second :: "time \<Rightarrow> time" where
  "truncate_second t = t - t mod second"

definition sessionExpiresAt :: "time \<Rightarrow> duration \<Rightarrow> time" where
  "sessionExpiresAt startedAt maxLifetime = truncate_second (startedAt + maxLifetime)"

text \<open>
  \<open>int(d.Seconds())\<close>: towards zero. The float64 in between is exact to the nanosecond below
  \<open>2 ^ 23\<close> seconds, far above an access token's lifetime.
\<close>

definition whole_seconds :: "duration \<Rightarrow> int" where
  "whole_seconds d = (if d \<ge> 0 then d div second else - ((- d) div second))"

definition sessionTTLsFor :: "uuid \<Rightarrow> session_ttls op" where
  "sessionTTLsFor uid = obind (user_GetByID uid) (\<lambda>u. read_cfg (\<lambda>cfg. sessionTTLs cfg u))"

section \<open>Issuing\<close>

definition new_refresh_row :: "string \<Rightarrow> uuid \<Rightarrow> uuid \<Rightarrow> time \<Rightarrow> string \<Rightarrow> time \<Rightarrow> refresh_row" where
  "new_refresh_row h uid family expires ip started = \<lparr>rt_hash = h, rt_user = uid, rt_family = family, rt_expires_at = expires,
     rt_grace = None, rt_revoked = False, rt_replaced_by = None, rt_client_ip = ip, rt_started_at = started,
     rt_created_at = zero_time, rt_updated_at = None\<rparr>"

definition SaveRefreshToken :: "refresh_row \<Rightarrow> unit op" where
  "SaveRefreshToken r = token_Save r"

definition RotateRefreshToken :: "string \<Rightarrow> string \<Rightarrow> time \<Rightarrow> unit op" where
  "RotateRefreshToken h succ grace = token_Rotate h succ grace"

definition IssueTokenPair :: "user \<Rightarrow> string \<Rightarrow> token_pair op" where
  "IssueTokenPair u clientIP = obind (read_cfg (\<lambda>cfg. (cfg, sessionTTLs cfg u))) (\<lambda>(cfg, ttls).
     obind new_uuid (\<lambda>family.
     obind (IssueAccessToken (tt_access ttls) u family) (\<lambda>accessToken.
     obind GenerateRefreshToken (\<lambda>(raw, hashed).
     obind UTCNow (\<lambda>now.
     osequel (SaveRefreshToken (new_refresh_row hashed (u_id u) family (now + cf_refresh_ttl cfg) clientIP now))
       (ret \<lparr>tp_access = accessToken, tp_refresh = raw, tp_expires_in = whole_seconds (tt_access ttls), tp_session = family,
          tp_session_expires_at = sessionExpiresAt now (tt_max_lifetime ttls)\<rparr>))))))"

definition issueAccessTokenByUserID :: "uuid \<Rightarrow> uuid \<Rightarrow> duration \<Rightarrow> string op" where
  "issueAccessTokenByUserID uid family ttl = obind (user_GetByID uid) (\<lambda>u. IssueAccessToken ttl u family)"

section \<open>Refreshing\<close>

definition auth_publishAudit :: "audit_action \<Rightarrow> unit op" where
  "auth_publishAudit a = user_publishAudit a"

definition publishSessionRevoked :: "refresh_row \<Rightarrow> string \<Rightarrow> string \<Rightarrow> unit op" where
  "publishSessionRevoked rt clientIP userAgent = obind (ocatch (user_GetByID (rt_user rt))
       (\<lambda>_. ret \<lparr>u_id = rt_user rt, u_email = [], u_name = [], u_roles = [], u_created_at = zero_time, u_blocked_at = None,
          u_timezone = None, u_telegram_tag = None, u_slack_tag = None\<rparr>))
     (\<lambda>owner. auth_publishAudit (AuditSessionRevoked owner clientIP userAgent (uuid_string (rt_family rt))))"

definition refreshWithinGrace :: "refresh_row \<Rightarrow> token_pair op" where
  "refreshWithinGrace rt = obind (HasLiveRefreshToken (rt_family rt)) (\<lambda>live_one. if \<not> live_one then raise ErrLogoutAlready else
     obind (sessionTTLsFor (rt_user rt)) (\<lambda>ttls.
     obind (issueAccessTokenByUserID (rt_user rt) (rt_family rt) (tt_access ttls)) (\<lambda>accessToken.
       ret \<lparr>tp_access = accessToken, tp_refresh = [], tp_expires_in = whole_seconds (tt_access ttls), tp_session = nil_uuid,
         tp_session_expires_at = sessionExpiresAt (rt_started_at rt) (tt_max_lifetime ttls)\<rparr>)))"

definition reuseRevoked :: "time \<Rightarrow> refresh_row \<Rightarrow> string \<Rightarrow> string \<Rightarrow> token_pair op" where
  "reuseRevoked now rt clientIP userAgent =
     (if now < (case rt_grace rt of None \<Rightarrow> zero_time | Some g \<Rightarrow> g) then refreshWithinGrace rt
      else osequel (best_effort (RevokeRefreshTokenByFamily (rt_user rt) (rt_family rt)))
        (osequel (publishSessionRevoked rt clientIP userAgent) (raise ErrTokenReuse)))"

definition rotate_tx :: "auth_cfg \<Rightarrow> time \<Rightarrow> refresh_row \<Rightarrow> string \<Rightarrow> string \<Rightarrow> unit op" where
  "rotate_tx cfg now old newHash clientIP = osequel (LockUserSessions (rt_user old))
     (osequel (RotateRefreshToken (rt_hash old) newHash (now + cf_grace_period cfg))
       (SaveRefreshToken (new_refresh_row newHash (rt_user old) (rt_family old) (now + cf_refresh_ttl cfg) clientIP (rt_started_at old))))"

definition rotateRefreshToken :: "refresh_row \<Rightarrow> time \<Rightarrow> string \<Rightarrow> token_pair op" where
  "rotateRefreshToken old now clientIP = obind (sessionTTLsFor (rt_user old)) (\<lambda>ttls. obind (read_cfg id) (\<lambda>cfg.
     if time_sub now (rt_created_at old) > cf_inactive_lifetime cfg then raise ErrTokenExpired
     else if time_sub now (rt_started_at old) > tt_max_lifetime ttls then raise ErrTokenExpired
     else obind (issueAccessTokenByUserID (rt_user old) (rt_family old) (tt_access ttls)) (\<lambda>accessToken.
       obind GenerateRefreshToken (\<lambda>(newRaw, newHash).
       osequel (ocatch (WithinTx (rotate_tx cfg now old newHash clientIP))
           (\<lambda>e. if e = ErrRefreshTokenAlreadyRotated then raise ErrLockBusy else raise e))
         (ret \<lparr>tp_access = accessToken, tp_refresh = newRaw, tp_expires_in = whole_seconds (tt_access ttls), tp_session = nil_uuid,
            tp_session_expires_at = sessionExpiresAt (rt_started_at old) (tt_max_lifetime ttls)\<rparr>)))))"

text \<open>The distributed lock: whether it was free is the environment's answer; its release only logs.\<close>

definition locker_Acquire :: "bool op" where
  "locker_Acquire w = (Inr (au_lock_free (e_auth (w_env w)) (w_tick w)), tick w)"

definition Refresh :: "string \<Rightarrow> string \<Rightarrow> string \<Rightarrow> token_pair op" where
  "Refresh oldTokenRaw clientIP userAgent = obind UTCNow (\<lambda>now. obind locker_Acquire (\<lambda>free. if \<not> free then raise ErrLockBusy else
     obind (read_world (\<lambda>w. sha256_hex (w_env w) oldTokenRaw)) (\<lambda>tokenHash.
     obind (ocatch (GetRefreshTokenByHash tokenHash) (\<lambda>_. raise ErrInvalidRefreshToken)) (\<lambda>rt.
       if rt_revoked rt \<and> rt_replaced_by rt = None then raise ErrLogoutAlready
       else if rt_revoked rt then reuseRevoked now rt clientIP userAgent
       else rotateRefreshToken rt now clientIP))))"

section \<open>Logging out\<close>

definition parse_or :: "string \<Rightarrow> apperr \<Rightarrow> uuid op" where
  "parse_or s err = obind (read_world (\<lambda>w. au_uuid_parse (e_auth (w_env w)) s)) (\<lambda>p. case p of None \<Rightarrow> raise err | Some i \<Rightarrow> ret i)"

definition revokeAccessTokenSession :: "access_claims \<Rightarrow> uuid \<Rightarrow> unit op" where
  "revokeAccessTokenSession claims ended = (if cl_session claims = [] then ret () else
     obind (parse_or (cl_session claims) ErrInvalidAccessToken) (\<lambda>sid. if sid = ended then ret () else
     obind (parse_or (cl_subject claims) ErrInvalidAccessToken) (\<lambda>uid. RevokeRefreshTokenByFamily uid sid)))"

definition auditSessionID :: "access_claims \<Rightarrow> string" where
  "auditSessionID claims = (if cl_session claims \<noteq> [] then cl_session claims else cl_jti claims)"

text \<open>The identifier is required: the empty string, or one the validation library calls empty, is refused.\<close>

definition validateAccessClaims :: "ozzo \<Rightarrow> access_claims \<Rightarrow> bool" where
  "validateAccessClaims rule claims = oz_required_string rule (cl_jti claims)"

definition auth_logout :: "string \<Rightarrow> (access_claims \<Rightarrow> unit op) \<Rightarrow> unit op" where
  "auth_logout accessTokenRaw revokeFunc = obind (ocatch (VerifyAccessToken accessTokenRaw) (\<lambda>_. raise ErrInvalidAccessToken)) (\<lambda>claims.
     obind (read_world (\<lambda>w. rules (w_env w))) (\<lambda>rule. if \<not> validateAccessClaims rule claims then raise ErrInvalidAccessToken else
     osequel (revokeFunc claims)
     (obind (read_cfg cf_access_ttl) (\<lambda>ttl. osequel (best_effort (blacklist_Add (cl_jti claims) ttl))
       (obind (parse_or (cl_subject claims) Panic) (\<lambda>uid.
         auth_publishAudit (AuditLogoutSuccess (uuid_string uid) (cl_email claims) (auditSessionID claims))))))))"

definition Logout :: "string \<Rightarrow> string \<Rightarrow> unit op" where
  "Logout accessToken refreshToken = auth_logout accessToken (\<lambda>claims.
     obind (if refreshToken \<noteq> [] then RevokeFamilyByRefreshToken refreshToken claims else ret nil_uuid)
       (\<lambda>ended. revokeAccessTokenSession claims ended))"

text \<open>The parse failure of \<open>LogoutAll\<close> is the library's error, not one of the application's.\<close>

definition LogoutAll :: "string \<Rightarrow> unit op" where
  "LogoutAll accessToken = auth_logout accessToken (\<lambda>claims.
     obind (parse_or (cl_subject claims) (PgOther 0)) RevokeRefreshTokenByUserID)"

section \<open>Introspection\<close>

record introspect_report =
  ir_active :: bool
  ir_jti :: string
  ir_subject :: string
  ir_email :: string
  ir_roles :: "role list"
  ir_exp :: int

definition inactive_report :: "string \<Rightarrow> introspect_report" where
  "inactive_report jti = \<lparr>ir_active = False, ir_jti = jti, ir_subject = [], ir_email = [], ir_roles = [], ir_exp = 0\<rparr>"

definition isRevoked :: "access_claims \<Rightarrow> bool op" where
  "isRevoked claims = IsRevoked (cl_jti claims) (cl_session claims)"

definition activeSubject :: "string \<Rightarrow> user option op" where
  "activeSubject subject = obind (read_world (\<lambda>w. au_uuid_parse (e_auth (w_env w)) subject)) (\<lambda>parsed. case parsed of
       None \<Rightarrow> ret None
     | Some uid \<Rightarrow> obind (optional ErrUserNotFound (user_GetByID uid)) (\<lambda>found. case found of None \<Rightarrow> ret None
         | Some u \<Rightarrow> ret (if IsBlocked u then None else Some u)))"

definition Introspect :: "string \<Rightarrow> introspect_report op" where
  "Introspect token = obind (ocatch (obind (VerifyAccessToken token) (\<lambda>c. ret (Some c))) (\<lambda>_. ret None)) (\<lambda>verified.
     case verified of None \<Rightarrow> ret (inactive_report [])
     | Some claims \<Rightarrow> if cl_jti claims = [] then ret (inactive_report []) else
         obind (isRevoked claims) (\<lambda>revoked. if revoked then ret (inactive_report (cl_jti claims)) else
         obind (activeSubject (cl_subject claims)) (\<lambda>subject. case subject of
             None \<Rightarrow> ret (inactive_report (cl_jti claims))
           | Some u \<Rightarrow> ret \<lparr>ir_active = True, ir_jti = cl_jti claims, ir_subject = cl_subject claims, ir_email = cl_email claims,
               ir_roles = u_roles u, ir_exp = unix_seconds (cl_expires_at claims)\<rparr>)))"

definition EnsureActiveToken :: "string \<Rightarrow> role list op" where
  "EnsureActiveToken token = obind (Introspect token) (\<lambda>report.
     if \<not> ir_active report then raise ErrInvalidAccessToken else ret (ir_roles report))"

definition EnsureNotRevoked :: "string \<Rightarrow> unit op" where
  "EnsureNotRevoked token = obind (VerifyAccessToken token) (\<lambda>claims. if cl_jti claims = [] then raise ErrInvalidAccessToken else
     obind (isRevoked claims) (\<lambda>revoked. if revoked then raise ErrInvalidAccessToken else ret ()))"

end
