(* ===== verification/SessionInvariant.thy ===== *)
theory SessionInvariant
  imports AuthSessions AccountSafety
begin

text \<open>
  The refresh-token table over any sequence of session requests: token hashes stay unique,
  a family keeps one owner and one start, at most one row of a family is live, and a
  session that has ended stays ended.
\<close>

section \<open>Requests\<close>

datatype session_request =
    ReqSession user string
  | ReqRefresh string string string
  | ReqLogout string string
  | ReqLogoutAll string
  | ReqRevokeUser uuid
  | ReqRevokeOthers uuid uuid
  | ReqPrune duration int

fun serve_session :: "session_request \<Rightarrow> unit op" where
  "serve_session (ReqSession u ip) = forget (IssueTokenPair u ip)"
| "serve_session (ReqRefresh raw ip ua) = forget (Refresh raw ip ua)"
| "serve_session (ReqLogout acc ref) = Logout acc ref"
| "serve_session (ReqLogoutAll acc) = LogoutAll acc"
| "serve_session (ReqRevokeUser uid) = RevokeRefreshTokenByUserID uid"
| "serve_session (ReqRevokeOthers uid keep) = RevokeRefreshTokenByUserIDExceptFamily uid keep"
| "serve_session (ReqPrune retention limit) = PruneRefreshTokens retention limit"

text \<open>
  One request. A sign-in draws the family of its session from \<open>xuuid.New\<close>, which does not
  repeat a family in use or one of a given set of past families.
\<close>

definition families :: "db \<Rightarrow> uuid set" where
  "families d = rt_family ` set (a_refresh (d_auth d))"

inductive session_step :: "uuid set \<Rightarrow> world \<Rightarrow> world \<Rightarrow> bool" for F :: "uuid set" where
  "(\<And>u ip. req = ReqSession u ip \<Longrightarrow> gen (w_env w) (w_tick w) 0 \<notin> families (w_db w) \<union> F) \<Longrightarrow>
   serve_session req w = (r, w') \<Longrightarrow> session_step F w w'"

section \<open>The invariant\<close>

definition one_session :: "refresh_row list \<Rightarrow> bool" where
  "one_session rows \<longleftrightarrow> distinct (map rt_hash rows)
     \<and> (\<forall>r \<in> set rows. \<forall>s \<in> set rows. rt_family r = rt_family s \<longrightarrow> rt_user r = rt_user s \<and> rt_started_at r = rt_started_at s)
     \<and> (\<forall>r \<in> set rows. \<forall>s \<in> set rows. rt_family r = rt_family s \<longrightarrow> live r \<longrightarrow> live s \<longrightarrow> r = s)"

definition sessions_inv :: "env \<Rightarrow> db \<Rightarrow> bool" where
  "sessions_inv e d \<longleftrightarrow> (\<forall>t. pg_time e (pg_time e t) = pg_time e t)
     \<and> (\<forall>r \<in> set (a_refresh (d_auth d)). pg_time e (rt_started_at r) = rt_started_at r) \<and> one_session (a_refresh (d_auth d))"

text \<open>A family without a live row.\<close>

definition ended :: "uuid \<Rightarrow> env \<Rightarrow> db \<Rightarrow> bool" where
  "ended f e d \<longleftrightarrow> (\<forall>r \<in> set (a_refresh (d_auth d)). rt_family r = f \<longrightarrow> \<not> live r)"

text \<open>A rewriting of rows that leaves a row alone or ends it, keeping what identifies it.\<close>

definition ends_rows :: "(refresh_row \<Rightarrow> refresh_row) \<Rightarrow> bool" where
  "ends_rows f \<longleftrightarrow> (\<forall>r. rt_hash (f r) = rt_hash r \<and> rt_user (f r) = rt_user r \<and> rt_family (f r) = rt_family r
     \<and> rt_started_at (f r) = rt_started_at r \<and> (f r = r \<or> \<not> live (f r)))"

definition set_rows :: "db \<Rightarrow> refresh_row list \<Rightarrow> db" where
  "set_rows d rows = d\<lparr>d_auth := (d_auth d)\<lparr>a_refresh := rows\<rparr>\<rparr>"

abbreviation token_rows :: "db \<Rightarrow> refresh_row list" where
  "token_rows d \<equiv> a_refresh (d_auth d)"

lemma set_rows_simps [simp]: "token_rows (set_rows d rows) = rows" "d_users (set_rows d rows) = d_users d"
  "set_rows (set_rows d rows) rows' = set_rows d rows'"
  by (simp_all add: set_rows_def)

lemma ends_rowsD:
  assumes "ends_rows f"
  shows "rt_hash (f r) = rt_hash r" "rt_user (f r) = rt_user r" "rt_family (f r) = rt_family r"
    "rt_started_at (f r) = rt_started_at r" "f r = r \<or> \<not> live (f r)"
  using assms unfolding ends_rows_def by blast+

lemma one_session_map:
  assumes "one_session rows" "ends_rows f"
  shows "one_session (map f rows)"
proof -
  note id = ends_rowsD(1-4) [OF assms(2)]
  have hashes: "map rt_hash (map f rows) = map rt_hash rows" by (simp add: id)
  have same: "f r = f s" if "r \<in> set rows" "s \<in> set rows" "rt_family r = rt_family s" "live (f r)" "live (f s)" for r s
  proof -
    have "f r = r" "f s = s" using ends_rowsD(5) [OF assms(2)] that(4,5) by blast+
    then have "live r" "live s" using that(4,5) by simp_all
    with that(1-3) assms(1) have "r = s" unfolding one_session_def by blast
    then show ?thesis by simp
  qed
  have owner: "\<forall>r \<in> set rows. \<forall>s \<in> set rows. rt_family r = rt_family s \<longrightarrow> rt_user r = rt_user s \<and> rt_started_at r = rt_started_at s"
    and "distinct (map rt_hash rows)"
    using assms(1) unfolding one_session_def by blast+
  moreover have "\<forall>r \<in> set rows. \<forall>s \<in> set rows. rt_family r = rt_family s \<longrightarrow> live (f r) \<longrightarrow> live (f s) \<longrightarrow> f r = f s"
    by (intro ballI impI) (rule same)
  ultimately show ?thesis unfolding one_session_def hashes by (simp only: set_map ball_simps id simp_thms)
qed

lemma one_session_filter: "one_session rows \<Longrightarrow> one_session (filter q rows)"
  by (auto simp: one_session_def distinct_map inj_on_def)

lemma revoked_ends: "ends_rows (\<lambda>r. if q r then revoked_row e t r else r)"
  and rotated_ends: "ends_rows (\<lambda>r. if rt_hash r = h \<and> live r then rotated e t succ g r else r)"
  by (simp_all add: ends_rows_def revoked_row_def rotated_def live_def)

subsection \<open>A transaction entered from known tables\<close>

lemma WithinTx_sat:
  assumes "tables_sat P w" "\<And>w1. w_db w1 = w_db w \<Longrightarrow> w_env w1 = w_env w \<Longrightarrow> tables_sat P w1 \<Longrightarrow>
    post fn (\<lambda>_. tables_sat P) (\<lambda>_. tables_sat P) w1"
  shows "post (WithinTx fn) (\<lambda>_. tables_sat P) (\<lambda>_. tables_sat P) w"
proof -
  define fn' where "fn' w1 = (if w_db w1 = w_db w \<and> w_env w1 = w_env w then fn w1 else (Inl Panic, w1))" for w1
  have "maintains P fn'"
    using assms(2) by (auto simp: maintains_def keeps_post fn'_def post_def)
  then have "maintains P (WithinTx fn')" by (rule maintain_rules)
  then have "post (WithinTx fn') (\<lambda>_. tables_sat P) (\<lambda>_. tables_sat P) w"
    using assms(1) by (simp add: maintains_def keeps_post)
  moreover have "WithinTx fn' w = WithinTx fn w"
    by (simp add: WithinTx_def fn'_def tx_begin_def run_query split: option.split)
  ultimately show ?thesis by (simp add: post_def)
qed

lemma sat_off_bind:
  assumes "off_tables m" "tables_sat P w"
    "\<And>a w1. same_tables w w1 \<Longrightarrow> tables_sat P w1 \<Longrightarrow> post (f a) (\<lambda>_. tables_sat P) (\<lambda>_. tables_sat P) w1"
  shows "post (obind m f) (\<lambda>_. tables_sat P) (\<lambda>_. tables_sat P) w"
proof -
  have "post m (\<lambda>_. same_tables w) (\<lambda>_. same_tables w) w" using assms(1) by (simp add: off_tables_post)
  then show ?thesis
    using assms(2,3) by (auto elim!: post_weaken simp: same_tables_sat)
qed

lemma sat_maintained: "maintains P m \<Longrightarrow> tables_sat P w \<Longrightarrow> post m (\<lambda>_. tables_sat P) (\<lambda>_. tables_sat P) w"
  by (simp add: maintains_def keeps_post)

lemma off_tables_sessions:
  "off_tables (GetByTokenHash h)" "off_tables (HasLiveToken f)" "off_tables (IssueAccessToken ttl u sid)"
  "off_tables (sessionTTLsFor uid)" "off_tables (issueAccessTokenByUserID uid f ttl)" "off_tables locker_Acquire"
  "off_tables (read_cfg g)"
proof -
  show cfg: "off_tables (read_cfg g)" for g :: "auth_cfg \<Rightarrow> 'x" by (simp add: read_cfg_def off_tables_ops)
  show issue: "off_tables (IssueAccessToken ttl u sid)" for ttl u sid
    by (auto simp: IssueAccessToken_def intro!: off_tables_ops off_tables_base split: sum.split)
  show "off_tables (GetByTokenHash h)" "off_tables (HasLiveToken f)"
    by (auto simp: GetByTokenHash_def HasLiveToken_def intro!: off_tables_ops off_tables_base)
  show "off_tables (sessionTTLsFor uid)" "off_tables (issueAccessTokenByUserID uid f ttl)"
    by (auto simp: sessionTTLsFor_def issueAccessTokenByUserID_def intro!: off_tables_ops off_tables_users cfg issue)
  show "off_tables locker_Acquire" by (simp add: off_tables_def locker_Acquire_def)
qed

lemmas maintains_sessions [maintain_rules] = off_tables_sessions [THEN maintains_off]

section \<open>The contract of a session invariant\<close>

definition fresh_hash :: "db \<Rightarrow> string \<Rightarrow> bool" where
  "fresh_hash d h \<longleftrightarrow> h \<notin> rt_hash ` set (token_rows d)"

definition matches :: "refresh_row \<Rightarrow> db \<Rightarrow> bool" where
  "matches old d \<longleftrightarrow> (\<forall>r \<in> set (token_rows d). rt_hash r = rt_hash old \<longrightarrow>
     rt_user r = rt_user old \<and> rt_family r = rt_family old \<and> rt_started_at r = rt_started_at old)"

lemma Save_sat:
  assumes "tables_sat P w" "\<And>t. fresh_hash (w_db w) (rt_hash row) \<Longrightarrow>
    P (w_env w) (set_rows (w_db w) (token_rows (w_db w) @ [stored_token (w_env w) t row]))"
  shows "post (SaveRefreshToken row) (\<lambda>_. tables_sat P) (\<lambda>_. tables_sat P) w"
proof -
  have "find_token (d_auth (w_db w)) h = None \<longleftrightarrow> fresh_hash (w_db w) h" for h
    by (auto simp: find_token_def fresh_hash_def find_None_iff)
  with assms show ?thesis
    by (auto simp: SaveRefreshToken_def token_Save_def post_db_call Let_def tables_sat_def set_rows_def stored_token_def split: option.split)
qed

locale session_invariant =
  fixes P :: "env \<Rightarrow> db \<Rightarrow> bool" and F :: "uuid set"
  assumes ending: "P e d \<Longrightarrow> ends_rows f \<Longrightarrow> P e (set_rows d (map f (token_rows d)))"
    and pruning: "P e d \<Longrightarrow> P e (set_rows d (filter q (token_rows d)))"
    and starting: "P e d \<Longrightarrow> family \<notin> families d \<union> F \<Longrightarrow> fresh_hash d h \<Longrightarrow>
      P e (set_rows d (token_rows d @ [stored_token e t (new_refresh_row h uid family ex ip st)]))"
    and succeeding: "P e d \<Longrightarrow> old \<in> set (token_rows d) \<Longrightarrow> live old \<Longrightarrow> fresh_hash d nh \<Longrightarrow>
      P e (set_rows d (map (\<lambda>r. if rt_hash r = rt_hash old \<and> live r then rotated e t nh g r else r) (token_rows d)
        @ [stored_token e t' (new_refresh_row nh (rt_user old) (rt_family old) ex ip (rt_started_at old))]))"
begin

lemma revoke_kept: "maintains P (token_revoke q)"
  unfolding token_revoke_def
  by (rule maintains_auth) (use ending [OF _ revoked_ends] in \<open>auto simp: set_rows_def\<close>)

lemma revocations_kept:
  "maintains P (RevokeRefreshTokenByFamily uid f)" "maintains P (RevokeRefreshTokenByUserID uid)"
  "maintains P (RevokeRefreshTokenByUserIDExceptFamily uid f)" "maintains P (RevokeFamilyByRefreshToken raw cl)"
  by (auto simp: RevokeRefreshTokenByFamily_def RevokeRefreshTokenByUserID_def RevokeRefreshTokenByUserIDExceptFamily_def
      RevokeFamilyByRefreshToken_def withUserSessionsLocked_def LockUserSessions_def RevokeFamily_def RevokeByUserID_def
      RevokeByUserIDExceptFamily_def revokeSessionAccessTokens_def read_cfg_def AddSessions_def GetByTokenHash_def
      intro!: maintain_rules revoke_kept)

lemma prune_kept: "maintains P (PruneRefreshTokens retention limit)"
proof -
  have "maintains P (PruneExpiredBefore cutoff l)" for cutoff l
    unfolding PruneExpiredBefore_def
    by (rule maintains_auth) (use pruning in \<open>auto simp: set_rows_def Let_def split: if_splits\<close>)
  then have "maintains P (prune_batches n cutoff l)" for n cutoff l
    by (induction n) (auto intro!: maintain_rules)
  then show ?thesis by (auto simp: PruneRefreshTokens_def Let_def intro!: maintain_rules)
qed

lemma logout_kept: "maintains P (Logout acc ref)" "maintains P (LogoutAll acc)"
  by (auto simp: Logout_def LogoutAll_def auth_logout_def parse_or_def revokeAccessTokenSession_def read_cfg_def blacklist_Add_def
      auth_publishAudit_def intro!: maintain_rules revocations_kept)

lemma Rotate_sat:
  assumes "tables_sat P w" "old \<in> set (token_rows (w_db w))" "live old"
    and "\<And>w1. tables_sat P w1 \<Longrightarrow> (\<And>nh' t. fresh_hash (w_db w1) nh \<Longrightarrow> P (w_env w1) (set_rows (w_db w1) (token_rows (w_db w1)
          @ [stored_token (w_env w1) t (new_refresh_row nh (rt_user old) (rt_family old) ex ip (rt_started_at old))])))
      \<Longrightarrow> post k (\<lambda>_. tables_sat P) (\<lambda>_. tables_sat P) w1"
  shows "post (osequel (RotateRefreshToken (rt_hash old) nh g) k) (\<lambda>_. tables_sat P) (\<lambda>_. tables_sat P) w"
proof (cases "fault (w_env w) (w_tick w)")
  case (Some e)
  with assms(1) show ?thesis
    by (simp add: RotateRefreshToken_def token_Rotate_def on_auth_def post_db_call tables_sat_def)
next
  case None
  let ?f = "\<lambda>r. if rt_hash r = rt_hash old \<and> live r then rotated (w_env w) (w_tick w) nh g r else r"
  let ?w1 = "(tick w)\<lparr>w_db := set_rows (w_db w) (map ?f (token_rows (w_db w)))\<rparr>"
  have inv: "P (w_env w) (w_db w)" using assms(1) by (simp add: tables_sat_def)
  have sat: "tables_sat P ?w1"
    using assms(1) ending [OF inv rotated_ends] by (simp add: tables_sat_def)
  have same_hashes: "rt_hash ` set (map ?f rows) = rt_hash ` set rows" for rows
    by (induction rows) (auto simp: rotated_def)
  have hashes: "fresh_hash (w_db ?w1) nh = fresh_hash (w_db w) nh"
    using same_hashes [of "token_rows (w_db w)"] by (simp add: fresh_hash_def del: set_map)
  have "post k (\<lambda>_. tables_sat P) (\<lambda>_. tables_sat P) ?w1"
    by (rule assms(4) [OF sat]) (use succeeding [OF inv assms(2,3)] hashes in \<open>simp\<close>)
  with None sat show ?thesis
    by (simp add: RotateRefreshToken_def token_Rotate_def on_auth_def post_db_call Let_def set_rows_def)
qed

lemma rotate_tx_kept:
  assumes "tables_sat P w" "old \<in> set (token_rows (w_db w))" "live old"
  shows "post (rotate_tx cfg now old nh ip) (\<lambda>_. tables_sat P) (\<lambda>_. tables_sat P) w"
proof -
  show ?thesis
    unfolding rotate_tx_def osequel_def [of "LockUserSessions uid" for uid]
  proof (rule sat_off_bind [OF _ assms(1)])
    fix w1 assume w1: "same_tables w w1" "tables_sat P w1"
    show "post (osequel (RotateRefreshToken (rt_hash old) nh (now + cf_grace_period cfg))
        (SaveRefreshToken (new_refresh_row nh (rt_user old) (rt_family old) (now + cf_refresh_ttl cfg) ip (rt_started_at old))))
        (\<lambda>_. tables_sat P) (\<lambda>_. tables_sat P) w1"
      by (rule Rotate_sat [OF w1(2) _ assms(3)], use w1(1) assms(2) in \<open>simp add: same_tables_def\<close>)
        (rule Save_sat, simp_all add: new_refresh_row_def)
  qed (simp add: LockUserSessions_def off_tables_base)
qed

lemma rotate_kept:
  assumes "tables_sat P w" "old \<in> set (token_rows (w_db w))" "live old"
  shows "post (rotateRefreshToken old now ip) (\<lambda>_. tables_sat P) (\<lambda>_. tables_sat P) w"
proof -
  have tx: "post (WithinTx (rotate_tx cfg now old nh ip)) (\<lambda>_. tables_sat P) (\<lambda>_. tables_sat P) w1"
    if "same_tables w w1" "tables_sat P w1" for w1 cfg nh
    by (rule WithinTx_sat [OF that(2)]) (use that(1) assms(2,3) in \<open>auto simp: same_tables_def intro: rotate_tx_kept\<close>)
  have switch: "post (osequel (ocatch (WithinTx (rotate_tx cfg now old nh ip)) (\<lambda>e. if e = ErrRefreshTokenAlreadyRotated then raise ErrLockBusy else raise e)) (ret x))
      (\<lambda>_. tables_sat P) (\<lambda>_. tables_sat P) w1" if "same_tables w w1" "tables_sat P w1" for w1 cfg nh and x :: token_pair
    by (simp, rule post_weaken [OF tx [OF that]]) auto
  show ?thesis
    unfolding rotateRefreshToken_def
  proof (rule sat_off_bind [OF off_tables_sessions(4) assms(1)], rule sat_off_bind [OF off_tables_sessions(7)], assumption, goal_cases)
    case (1 ttls w1 cfg w2)
    have rest: "post (obind GenerateRefreshToken (\<lambda>(newRaw, newHash). osequel (ocatch (WithinTx (rotate_tx cfg now old newHash ip))
        (\<lambda>e. if e = ErrRefreshTokenAlreadyRotated then raise ErrLockBusy else raise e)) (ret (x newRaw))))
        (\<lambda>_. tables_sat P) (\<lambda>_. tables_sat P) w3" if "same_tables w2 w3" "tables_sat P w3" for w3 and x :: "string \<Rightarrow> token_pair"
    proof (rule sat_off_bind [OF off_tables_base(3) that(2)])
      fix p w4 assume "same_tables w3 w4" "tables_sat P w4"
      then show "post (case p of (newRaw, newHash) \<Rightarrow> osequel (ocatch (WithinTx (rotate_tx cfg now old newHash ip))
          (\<lambda>e. if e = ErrRefreshTokenAlreadyRotated then raise ErrLockBusy else raise e)) (ret (x newRaw))) (\<lambda>_. tables_sat P) (\<lambda>_. tables_sat P) w4"
        using 1(1,3) that(1) switch [of w4] by (simp add: same_tables_def del: post_osequel split: prod.split)
    qed
    show ?case
      using 1(4) sat_off_bind [OF off_tables_sessions(5) 1(4) rest] by auto
  qed
qed

lemma refresh_kept: "maintains P (Refresh raw ip ua)"
proof -
  have grace: "maintains P (refreshWithinGrace rt)" for rt
    by (auto simp: refreshWithinGrace_def HasLiveRefreshToken_def intro!: maintain_rules)
  have reuse: "maintains P (reuseRevoked now rt ip ua)" for now rt
    by (auto simp: reuseRevoked_def publishSessionRevoked_def auth_publishAudit_def intro!: maintain_rules grace revocations_kept)
  have found: "post (ocatch (GetRefreshTokenByHash h) (\<lambda>_. raise ErrInvalidRefreshToken))
      (\<lambda>rt w1. same_tables w w1 \<and> rt \<in> set (token_rows (w_db w1))) (\<lambda>_. same_tables w) w" for h w
    by (auto simp: GetRefreshTokenByHash_def GetByTokenHash_def post_auth_query find_token_def same_tables_def
        dest: find_member split: option.split)
  have go: "post (if rt_revoked rt \<and> rt_replaced_by rt = None then raise ErrLogoutAlready
      else if rt_revoked rt then reuseRevoked now rt ip ua else rotateRefreshToken rt now ip) (\<lambda>_. tables_sat P) (\<lambda>_. tables_sat P) w1"
    if "tables_sat P w1" "rt \<in> set (token_rows (w_db w1))" for rt now w1
    using that rotate_kept [OF that, of now ip] sat_maintained [OF reuse, of w1 now rt] by (auto simp: live_def)
  have read: "post (obind (ocatch (GetRefreshTokenByHash h) (\<lambda>_. raise ErrInvalidRefreshToken)) (\<lambda>rt.
      if rt_revoked rt \<and> rt_replaced_by rt = None then raise ErrLogoutAlready
      else if rt_revoked rt then reuseRevoked now rt ip ua else rotateRefreshToken rt now ip)) (\<lambda>_. tables_sat P) (\<lambda>_. tables_sat P) w"
    if "tables_sat P w" for h now w
    unfolding post_obind
    by (rule post_weaken [OF found], rule go) (use that in \<open>auto simp: same_tables_sat\<close>)
  then have body: "maintains P (obind (ocatch (GetRefreshTokenByHash h) (\<lambda>_. raise ErrInvalidRefreshToken)) (\<lambda>rt.
      if rt_revoked rt \<and> rt_replaced_by rt = None then raise ErrLogoutAlready
      else if rt_revoked rt then reuseRevoked now rt ip ua else rotateRefreshToken rt now ip))" for h now
    unfolding maintains_def keeps_post by blast
  show ?thesis unfolding Refresh_def
    by (rule maintains_ops(4) [OF maintains_base(1)], rule maintains_ops(4) [OF maintains_sessions(6)],
        rule maintains_ops(8) [OF maintains_ops(2)], rule maintains_ops(4) [OF maintains_ops(3)], rule body)
qed

lemma issue_kept:
  assumes "tables_sat P w" "gen (w_env w) (w_tick w) 0 \<notin> families (w_db w) \<union> F"
  shows "post (IssueTokenPair u ip) (\<lambda>_. tables_sat P) (\<lambda>_. tables_sat P) w"
proof -
  let ?f = "gen (w_env w) (w_tick w) 0"
  have save: "post (osequel (SaveRefreshToken (new_refresh_row h (u_id u) ?f ex ip now)) (ret x)) (\<lambda>_. tables_sat P) (\<lambda>_. tables_sat P) w1"
    if "same_tables w w1" "tables_sat P w1" for w1 h ex now and x :: token_pair
  proof -
    have "post (SaveRefreshToken (new_refresh_row h (u_id u) ?f ex ip now)) (\<lambda>_. tables_sat P) (\<lambda>_. tables_sat P) w1"
      by (rule Save_sat [OF that(2)], rule starting)
        (use that assms(2) in \<open>simp_all add: tables_sat_def same_tables_def new_refresh_row_def\<close>)
    then show ?thesis by simp
  qed
  have new: "post new_uuid Q R w = Q ?f (tick w)" for Q R by (simp add: post_def new_uuid_def)
  have tick: "tables_sat P (tick w)" using assms(1) by (simp add: tables_sat_def)
  show ?thesis
    unfolding IssueTokenPair_def read_cfg_def post_obind [of "read_world g" for g] post_read prod.case post_obind [of new_uuid] new
  proof (rule sat_off_bind [OF off_tables_sessions(3) tick], rule sat_off_bind [OF off_tables_base(3)], assumption, goal_cases)
    case (1 tok w1 p w2)
    obtain raw h where p: "p = (raw, h)" by (cases p)
    show ?case unfolding p prod.case
      by (rule sat_off_bind [OF off_tables_base(1) 1(4)], rule save) (use 1 in \<open>auto simp: same_tables_def\<close>)
  qed
qed

lemma step_kept: "session_step F w w' \<Longrightarrow> tables_sat P w \<Longrightarrow> tables_sat P w'"
proof (induction rule: session_step.induct)
  case (1 req w r w')
  show ?case
  proof (cases "\<exists>u ip. req = ReqSession u ip")
    case True
    then obtain u ip where req: "req = ReqSession u ip" by blast
    have "post (serve_session req) (\<lambda>_. tables_sat P) (\<lambda>_. tables_sat P) w"
      using issue_kept [OF 1(3) 1(1) [OF req], of u ip] by (simp add: req forget_def)
    with 1(2) show ?thesis by (auto simp: post_def split: sum.splits)
  next
    case False
    then have "maintains P (serve_session req)"
      by (cases req) (auto simp: forget_def intro!: maintain_rules refresh_kept logout_kept revocations_kept prune_kept)
    from maintainsD [OF this 1(2,3)] show ?thesis .
  qed
qed

lemma run_kept: "(session_step F)\<^sup>*\<^sup>* w w' \<Longrightarrow> tables_sat P w \<Longrightarrow> tables_sat P w'"
  by (induction rule: rtranclp_induct) (auto intro: step_kept)

end

section \<open>The invariants\<close>

lemma one_sessionD:
  assumes "one_session rows" "r \<in> set rows" "s \<in> set rows" "rt_family r = rt_family s"
  shows "rt_user r = rt_user s" "rt_started_at r = rt_started_at s" "live r \<Longrightarrow> live s \<Longrightarrow> r = s"
  using assms unfolding one_session_def by blast+

lemma one_session_append:
  assumes "one_session rows" "rt_hash row \<notin> rt_hash ` set rows"
    and fam: "\<And>r. r \<in> set rows \<Longrightarrow> rt_family r = rt_family row \<Longrightarrow> rt_user r = rt_user row \<and> rt_started_at r = rt_started_at row \<and> \<not> live r"
  shows "one_session (rows @ [row])"
proof -
  have pair: "rt_user r = rt_user s \<and> rt_started_at r = rt_started_at s \<and> (live r \<longrightarrow> live s \<longrightarrow> r = s)"
    if "r \<in> insert row (set rows)" "s \<in> insert row (set rows)" "rt_family r = rt_family s" for r s
  proof (cases "r = row \<or> s = row")
    case True
    then show ?thesis using that fam [of r] fam [of s] by (metis insert_iff)
  next
    case False
    then show ?thesis using that one_sessionD [OF assms(1), of r s] by blast
  qed
  have "distinct (map rt_hash (rows @ [row]))" using assms(1,2) by (simp add: one_session_def)
  moreover have "set (rows @ [row]) = insert row (set rows)" by simp
  ultimately show ?thesis unfolding one_session_def using pair by metis
qed

lemma rotated_family:
  assumes "one_session rows" "old \<in> set rows" "live old" "r \<in> set (map (\<lambda>r. if rt_hash r = rt_hash old \<and> live r then rotated e t nh g r else r) rows)"
    "rt_family r = rt_family old"
  shows "rt_user r = rt_user old \<and> rt_started_at r = rt_started_at old \<and> \<not> live r"
proof -
  obtain r0 where r0: "r0 \<in> set rows" "r = (if rt_hash r0 = rt_hash old \<and> live r0 then rotated e t nh g r0 else r0)"
    using assms(4) by auto
  then have same: "rt_family r0 = rt_family old" "rt_user r = rt_user r0" "rt_started_at r = rt_started_at r0"
    using assms(5) by (auto simp: rotated_def split: if_splits)
  have "\<not> live r"
  proof (cases "live r0")
    case True
    then have "r0 = old" by (rule one_sessionD(3) [OF assms(1) r0(1) assms(2) same(1) _ assms(3)])
    with r0(2) assms(3) show ?thesis by (simp add: rotated_def live_def)
  next
    case False
    with r0(2) show ?thesis by simp
  qed
  moreover have "rt_user r0 = rt_user old" "rt_started_at r0 = rt_started_at old"
    using one_sessionD(1,2) [OF assms(1) r0(1) assms(2) same(1)] .
  ultimately show ?thesis using same by simp
qed

interpretation chain: session_invariant sessions_inv F for F
proof unfold_locales
  fix e d old nh t g t' ex ip
  assume inv: "sessions_inv e d" and old: "old \<in> set (token_rows d)" "live old" and fresh: "fresh_hash d nh"
  let ?rows = "map (\<lambda>r. if rt_hash r = rt_hash old \<and> live r then rotated e t nh g r else r) (token_rows d)"
  let ?new = "stored_token e t' (new_refresh_row nh (rt_user old) (rt_family old) ex ip (rt_started_at old))"
  have one: "one_session (token_rows d)" using inv by (simp add: sessions_inv_def)
  have started: "pg_time e (rt_started_at old) = rt_started_at old" using inv old(1) by (simp add: sessions_inv_def)
  have "rt_hash ` set (map (\<lambda>r. if rt_hash r = rt_hash old \<and> live r then rotated e t nh g r else r) rows) = rt_hash ` set rows" for rows
    by (induction rows) (auto simp: rotated_def)
  then have "one_session (?rows @ [?new])"
    using fresh rotated_family [OF one old, of _ e t nh g] started
    by (intro one_session_append one_session_map [OF one rotated_ends])
      (auto simp: fresh_hash_def stored_token_def new_refresh_row_def simp del: set_map)
  then show "sessions_inv e (set_rows d (?rows @ [?new]))"
    using inv started by (auto simp: sessions_inv_def stored_token_def new_refresh_row_def rotated_def)
next
  fix e d family F h t uid ex ip st
  assume inv: "sessions_inv e d" and fam: "family \<notin> families d \<union> F" and fresh: "fresh_hash d h"
  let ?new = "stored_token e t (new_refresh_row h uid family ex ip st)"
  have "one_session (token_rows d @ [?new])"
    by (rule one_session_append) (use inv fam fresh in \<open>auto simp: sessions_inv_def fresh_hash_def families_def stored_token_def new_refresh_row_def\<close>)
  then show "sessions_inv e (set_rows d (token_rows d @ [?new]))"
    using inv by (auto simp: sessions_inv_def stored_token_def new_refresh_row_def)
qed (auto simp: sessions_inv_def one_session_map one_session_filter ends_rowsD)

interpretation past: session_invariant "ended f" "insert f G" for f G
proof unfold_locales
  show "ended f e (set_rows d (map h (token_rows d)))" if "ended f e d" "ends_rows h" for e d h
    using that ends_rowsD(3,5) [OF that(2)] unfolding ended_def by (auto; metis)
  show "ended f e (set_rows d (map (\<lambda>r. if rt_hash r = rt_hash old \<and> live r then rotated e t nh g r else r) (token_rows d)
      @ [stored_token e t' (new_refresh_row nh (rt_user old) (rt_family old) ex ip (rt_started_at old))]))"
    if "ended f e d" "old \<in> set (token_rows d)" "live old" for e d old t nh g t' ex ip
  proof -
    have "rt_family old \<noteq> f" using that unfolding ended_def by blast
    with that(1) show ?thesis
      by (auto simp: ended_def stored_token_def new_refresh_row_def rotated_def live_def)
  qed
qed (auto simp: ended_def stored_token_def new_refresh_row_def)

section \<open>Properties\<close>


definition sample_token :: "string \<Rightarrow> uuid \<Rightarrow> uuid \<Rightarrow> refresh_row" where
  "sample_token h uid family = (new_refresh_row h uid family 1000 [] 5)\<lparr>rt_created_at := 5\<rparr>"

definition sample_sessions :: db where
  "sample_sessions = sample_accounts\<lparr>d_auth := (d_auth sample_accounts)\<lparr>a_refresh :=
     [(sample_token ''a'' 1 30)\<lparr>rt_revoked := True, rt_replaced_by := Some ''b'', rt_grace := Some 7\<rparr>, sample_token ''b'' 1 30,
      sample_token ''c'' 2 31]\<rparr>\<rparr>"

lemmas session_samples = sample_sessions_def sample_token_def new_refresh_row_def account_samples

lemma sample_chain: "sessions_inv quiet_env sample_sessions"
  by (simp add: sessions_inv_def one_session_def session_samples live_def)

lemma sample_logout: "session_step F (quiet_world sample_sessions) (snd (serve_session (ReqRevokeUser 1) (quiet_world sample_sessions)))"
  by (rule session_step.intros [of "ReqRevokeUser 1" _ _ "fst (serve_session (ReqRevokeUser 1) (quiet_world sample_sessions))"]) simp_all


end
