(* ===== verification/SessionBehaviour.thy ===== *)
theory SessionBehaviour
  imports SessionInvariant
begin

text \<open>
  What a session request answers: exactly when a refresh succeeds and what it stores, what
  presenting a rotated token after its grace window does, that a blocked account obtains
  no token, what pruning may delete, and when introspection calls a token active.
\<close>

section \<open>Reading accounts and issuing access tokens\<close>

lemma post_trivial [simp]: "post m (\<lambda>_ _. True) (\<lambda>_ _. True) = (\<lambda>_. True)"
  by (simp add: post_def fun_eq_iff split: prod.split sum.split)

lemma user_lookup_post:
  "post (user_GetByID uid) (\<lambda>u w'. same_tables w w' \<and> find_user (w_db w) uid = Some u) (\<lambda>_ _. True) w"
  by (auto simp: user_GetByID_def users_GetByID_def user_or_not_found_def post_db_query same_tables_def split: option.split)

lemma ttls_post:
  "post (sessionTTLsFor uid) (\<lambda>ttls w'. same_tables w w' \<and> (\<exists>u. find_user (w_db w) uid = Some u
     \<and> ttls = sessionTTLs (au_cfg (e_auth (w_env w))) u)) (\<lambda>_ _. True) w"
  unfolding sessionTTLsFor_def post_obind
  by (rule post_weaken [OF user_lookup_post]) (auto simp: read_cfg_def same_tables_def)

lemma issue_post: "post (IssueAccessToken ttl u sid) (\<lambda>_ w'. same_tables w w' \<and> \<not> IsBlocked u) (\<lambda>_ _. True) w"
proof -
  have "post new_uuid Q R w = Q (gen (w_env w) (w_tick w) 0) (tick w)" for Q R w by (simp add: post_def new_uuid_def)
  then show ?thesis by (auto simp: IssueAccessToken_def same_tables_def split: sum.split)
qed

lemma access_post:
  "post (issueAccessTokenByUserID uid f ttl) (\<lambda>_ w'. same_tables w w' \<and> (\<exists>u. find_user (w_db w) uid = Some u \<and> \<not> IsBlocked u))
     (\<lambda>_ _. True) w"
  unfolding issueAccessTokenByUserID_def post_obind
  by (rule post_weaken [OF user_lookup_post], rule post_weaken [OF issue_post]) (auto simp: same_tables_def)

section \<open>A successful refresh\<close>

definition rotated_rows :: "env \<Rightarrow> nat \<Rightarrow> refresh_row \<Rightarrow> string \<Rightarrow> time \<Rightarrow> refresh_row list \<Rightarrow> refresh_row list" where
  "rotated_rows e t old nh grace rows = map (\<lambda>r. if rt_hash r = rt_hash old \<and> live r then rotated e t nh grace r else r) rows"

lemma rotate_tx_db_only [db_only_rules]: "db_only (rotate_tx cfg now old nh ip)"
  by (auto simp: rotate_tx_def LockUserSessions_def AdvisoryXactLock_def RotateRefreshToken_def token_Rotate_def SaveRefreshToken_def
      token_Save_def intro!: db_only_rules)

lemma rotate_tx_post:
  "post (rotate_tx cfg now old nh ip) (\<lambda>_ w'. \<exists>t t'. w_db w' = set_rows (w_db w)
       (rotated_rows (w_env w) t old nh (now + cf_grace_period cfg) (token_rows (w_db w))
        @ [stored_token (w_env w) t' (new_refresh_row nh (rt_user old) (rt_family old) (now + cf_refresh_ttl cfg) ip (rt_started_at old))]))
     (\<lambda>_ _. True) w"
  by (auto simp: rotate_tx_def LockUserSessions_def AdvisoryXactLock_def RotateRefreshToken_def token_Rotate_def SaveRefreshToken_def
      token_Save_def on_auth_def post_db_call post_db_query Let_def rotated_rows_def set_rows_def
      cong: if_cong split: option.split)

text \<open>What a refresh that answers with a pair has found and left, for the token's row and its owner.\<close>

definition granted :: "world \<Rightarrow> time \<Rightarrow> refresh_row \<Rightarrow> user \<Rightarrow> string \<Rightarrow> token_pair \<Rightarrow> world \<Rightarrow> bool" where
  "granted w now rt u ip pair w' \<longleftrightarrow> find_user (w_db w) (rt_user rt) = Some u \<and> \<not> IsBlocked u \<and> (let cfg = au_cfg (e_auth (w_env w)) in
     if rt_revoked rt then rt_replaced_by rt \<noteq> None \<and> (\<exists>g. rt_grace rt = Some g \<and> now < g \<or> rt_grace rt = None \<and> now < zero_time)
       \<and> (\<exists>r \<in> set (token_rows (w_db w)). rt_family r = rt_family rt \<and> live r) \<and> tp_refresh pair = [] \<and> w_db w' = w_db w
     else time_sub now (rt_created_at rt) \<le> cf_inactive_lifetime cfg
       \<and> time_sub now (rt_started_at rt) \<le> tt_max_lifetime (sessionTTLs cfg u)
       \<and> (\<exists>t t'. w_db w' = set_rows (w_db w)
           (rotated_rows (w_env w) t rt (sha256_hex (w_env w) (tp_refresh pair)) (now + cf_grace_period cfg) (token_rows (w_db w))
            @ [stored_token (w_env w) t' (new_refresh_row (sha256_hex (w_env w) (tp_refresh pair)) (rt_user rt) (rt_family rt)
                 (now + cf_refresh_ttl cfg) ip (rt_started_at rt))])))"

lemma generate_post:
  "post GenerateRefreshToken (\<lambda>(raw, h) w'. same_tables w w' \<and> h = sha256_hex (w_env w) raw) (\<lambda>_ _. True) w"
  by (simp add: post_def GenerateRefreshToken_def same_tables_def split: sum.split)

lemma rotate_tx_run:
  assumes "w_tx w = None"
  shows "post (WithinTx (rotate_tx cfg now old nh ip)) (\<lambda>_ w'. \<exists>t t'. w_db w' = set_rows (w_db w)
       (rotated_rows (w_env w) t old nh (now + cf_grace_period cfg) (token_rows (w_db w))
        @ [stored_token (w_env w) t' (new_refresh_row nh (rt_user old) (rt_family old) (now + cf_refresh_ttl cfg) ip (rt_started_at old))]))
     (\<lambda>_ _. True) w"
proof (rule postI)
  fix a w' assume "WithinTx (rotate_tx cfg now old nh ip) w = (Inr a, w')"
  from this assms rotate_tx_db_only show "\<exists>t t'. w_db w' = set_rows (w_db w)
       (rotated_rows (w_env w) t old nh (now + cf_grace_period cfg) (token_rows (w_db w))
        @ [stored_token (w_env w) t' (new_refresh_row nh (rt_user old) (rt_family old) (now + cf_refresh_ttl cfg) ip (rt_started_at old))])"
  proof (cases rule: WithinTx_cases)
    case (committed b w1 w2)
    with post_InrD [OF rotate_tx_post committed(2)] show ?thesis by simp
  qed simp
qed simp

lemma rotation_post:
  assumes "w_tx w = None" "\<not> rt_revoked rt"
  shows "post (rotateRefreshToken rt now ip) (\<lambda>pair w'. \<exists>u. granted w now rt u ip pair w') (\<lambda>_ _. True) w"
proof -
  let ?cfg = "au_cfg (e_auth (w_env w))"
  have tail: "post (obind GenerateRefreshToken (\<lambda>(newRaw, newHash). osequel (ocatch (WithinTx (rotate_tx ?cfg now rt newHash ip))
      (\<lambda>e. if e = ErrRefreshTokenAlreadyRotated then raise ErrLockBusy else raise e))
      (ret \<lparr>tp_access = acc, tp_refresh = newRaw, tp_expires_in = whole_seconds (tt_access ttls), tp_session = nil_uuid,
         tp_session_expires_at = sessionExpiresAt (rt_started_at rt) (tt_max_lifetime ttls)\<rparr>)))
      (\<lambda>pair w'. \<exists>u. granted w now rt u ip pair w') (\<lambda>_ _. True) w3"
    if "same_tables w w3" "find_user (w_db w) (rt_user rt) = Some u" "\<not> IsBlocked u" "ttls = sessionTTLs ?cfg u"
      "time_sub now (rt_created_at rt) \<le> cf_inactive_lifetime ?cfg" "time_sub now (rt_started_at rt) \<le> tt_max_lifetime ttls" for w3 acc ttls u
    unfolding post_obind
  proof (rule post_weaken [OF generate_post], goal_cases)
    case (1 p w4)
    obtain raw h where p: "p = (raw, h)" by (cases p)
    have w4: "same_tables w w4" "h = sha256_hex (w_env w) raw" using 1 that(1) by (auto simp: p same_tables_def)
    then have "post (WithinTx (rotate_tx ?cfg now rt h ip)) (\<lambda>_ w'. \<exists>t t'. w_db w' = set_rows (w_db w)
       (rotated_rows (w_env w) t rt h (now + cf_grace_period ?cfg) (token_rows (w_db w))
        @ [stored_token (w_env w) t' (new_refresh_row h (rt_user rt) (rt_family rt) (now + cf_refresh_ttl ?cfg) ip (rt_started_at rt))])) (\<lambda>_ _. True) w4"
      using rotate_tx_run [of w4] assms(1) by (simp add: same_tables_def)
    with that assms(2) w4(2) show ?case
      by (auto simp: p granted_def Let_def elim!: post_weaken)
  qed simp
  show ?thesis
    unfolding rotateRefreshToken_def post_obind [of "sessionTTLsFor uid" for uid]
  proof (rule post_weaken [OF ttls_post], goal_cases)
    case (1 ttls w1)
    then obtain u where u: "same_tables w w1" "find_user (w_db w) (rt_user rt) = Some u" "ttls = sessionTTLs ?cfg u" by blast
    have cfg: "au_cfg (e_auth (w_env w1)) = ?cfg" using u(1) by (simp add: same_tables_def)
    show ?case
    proof (cases "time_sub now (rt_created_at rt) > cf_inactive_lifetime ?cfg \<or> time_sub now (rt_started_at rt) > tt_max_lifetime ttls")
      case True
      then show ?thesis by (auto simp: read_cfg_def cfg)
    next
      case False
      have "post (obind (issueAccessTokenByUserID (rt_user rt) (rt_family rt) (tt_access ttls)) (\<lambda>accessToken.
          obind GenerateRefreshToken (\<lambda>(newRaw, newHash). osequel (ocatch (WithinTx (rotate_tx ?cfg now rt newHash ip))
            (\<lambda>e. if e = ErrRefreshTokenAlreadyRotated then raise ErrLockBusy else raise e))
            (ret \<lparr>tp_access = accessToken, tp_refresh = newRaw, tp_expires_in = whole_seconds (tt_access ttls), tp_session = nil_uuid,
               tp_session_expires_at = sessionExpiresAt (rt_started_at rt) (tt_max_lifetime ttls)\<rparr>))))
          (\<lambda>pair w'. \<exists>u. granted w now rt u ip pair w') (\<lambda>_ _. True) w1"
        unfolding post_obind [of "issueAccessTokenByUserID uid f t" for uid f t]
        by (rule post_weaken [OF access_post], rule tail)
          (use u False in \<open>auto simp: same_tables_def not_less\<close>)
      with False show ?thesis by (simp add: read_cfg_def cfg not_less del: post_osequel)
    qed
  qed simp
qed

lemma grace_post:
  assumes "rt_revoked rt" "rt_replaced_by rt \<noteq> None" "now < (case rt_grace rt of None \<Rightarrow> zero_time | Some g \<Rightarrow> g)"
  shows "post (refreshWithinGrace rt) (\<lambda>pair w'. \<exists>u. granted w now rt u ip pair w') (\<lambda>_ _. True) w"
proof -
  have alive: "post (HasLiveRefreshToken (rt_family rt)) (\<lambda>b w1. same_tables w w1 \<and> (b \<longrightarrow> (\<exists>r \<in> set (token_rows (w_db w)).
      rt_family r = rt_family rt \<and> live r))) (\<lambda>_ _. True) w"
    by (auto simp: HasLiveRefreshToken_def HasLiveToken_def post_auth_query same_tables_def split: option.split)
  show ?thesis
    unfolding refreshWithinGrace_def post_obind [of "HasLiveRefreshToken f" for f]
  proof (rule post_weaken [OF alive], goal_cases)
    case (1 b w1)
    show ?case
    proof (cases b)
      case True
      have "post (obind (sessionTTLsFor (rt_user rt)) (\<lambda>ttls. obind (issueAccessTokenByUserID (rt_user rt) (rt_family rt) (tt_access ttls)) (\<lambda>accessToken.
          ret \<lparr>tp_access = accessToken, tp_refresh = [], tp_expires_in = whole_seconds (tt_access ttls), tp_session = nil_uuid,
            tp_session_expires_at = sessionExpiresAt (rt_started_at rt) (tt_max_lifetime ttls)\<rparr>)))
          (\<lambda>pair w'. \<exists>u. granted w now rt u ip pair w') (\<lambda>_ _. True) w1"
        unfolding post_obind
        by (rule post_weaken [OF ttls_post], rule post_weaken [OF access_post])
          (use 1 True assms in \<open>auto simp: granted_def same_tables_def split: option.splits\<close>)
      with True show ?thesis by (simp del: post_obind)
    qed simp
  qed simp
qed

lemma refresh_post:
  assumes "w_tx w = None"
  shows "post (Refresh raw ip ua) (\<lambda>pair w'. \<exists>rt u. find_token (d_auth (w_db w)) (sha256_hex (w_env w) raw) = Some rt
     \<and> granted w (clock (w_env w) (w_tick w)) rt u ip pair w') (\<lambda>_ _. True) w"
proof -
  let ?now = "clock (w_env w) (w_tick w)" and ?h = "sha256_hex (w_env w) raw" and ?w2 = "tick (tick w)"
  have same: "granted ?w2 now rt u ip pair w' = granted w now rt u ip pair w'" for now rt u pair w'
    by (simp add: granted_def)
  have reuse: "post (reuseRevoked ?now rt ip ua) (\<lambda>pair w'. \<exists>u. granted w1 ?now rt u ip pair w') (\<lambda>_ _. True) w1"
    if "rt_revoked rt" "rt_replaced_by rt \<noteq> None" for rt w1
    using grace_post [OF that, where now = ?now and ip = ip and w = w1] unfolding reuseRevoked_def by simp
  have free: "post locker_Acquire Q R w1 = Q (au_lock_free (e_auth (w_env w1)) (w_tick w1)) (tick w1)" for Q R w1
    by (simp add: post_def locker_Acquire_def)
  have "post (obind (ocatch (GetRefreshTokenByHash ?h) (\<lambda>_. raise ErrInvalidRefreshToken)) (\<lambda>rt.
       if rt_revoked rt \<and> rt_replaced_by rt = None then raise ErrLogoutAlready
       else if rt_revoked rt then reuseRevoked ?now rt ip ua else rotateRefreshToken rt ?now ip))
      (\<lambda>pair w'. \<exists>rt u. find_token (d_auth (w_db w)) ?h = Some rt \<and> granted w ?now rt u ip pair w') (\<lambda>_ _. True) ?w2"
  proof (cases "fault (w_env w) (w_tick ?w2) = None \<and> find_token (d_auth (w_db w)) ?h \<noteq> None")
    case False
    then show ?thesis
      by (auto simp: GetRefreshTokenByHash_def GetByTokenHash_def post_auth_query split: option.split)
  next
    case True
    then obtain rt where rt: "find_token (d_auth (w_db w)) ?h = Some rt" by blast
    have same3: "granted (tick ?w2) now r u ip pair w' = granted w now r u ip pair w'" for now r u pair w'
      by (simp add: granted_def)
    have "post (if rt_revoked rt \<and> rt_replaced_by rt = None then raise ErrLogoutAlready
       else if rt_revoked rt then reuseRevoked ?now rt ip ua else rotateRefreshToken rt ?now ip)
       (\<lambda>pair w'. \<exists>rt u. find_token (d_auth (w_db w)) ?h = Some rt \<and> granted w ?now rt u ip pair w') (\<lambda>_ _. True) (tick ?w2)"
      using reuse [of rt "tick ?w2"] rotation_post [of "tick ?w2" rt ?now ip] assms rt by (auto simp: same3 elim!: post_weaken)
    with True rt show ?thesis
      by (simp add: GetRefreshTokenByHash_def GetByTokenHash_def post_auth_query)
  qed
  then show ?thesis unfolding Refresh_def by (simp add: free del: post_obind add: post_obind [of UTCNow] post_obind [of locker_Acquire] post_obind [of "read_world g" for g])
qed

section \<open>Ending a session\<close>

definition revoke_rows :: "env \<Rightarrow> nat \<Rightarrow> (refresh_row \<Rightarrow> bool) \<Rightarrow> db \<Rightarrow> db" where
  "revoke_rows e t q d = set_rows d (map (\<lambda>r. if q r then revoked_row e t r else r) (token_rows d))"

lemma token_revoke_eq: "token_revoke q = db_call (\<lambda>e t d. Inr (uniq (map rt_family (filter q (token_rows d))), revoke_rows e t q d))"
  unfolding token_revoke_def on_auth_def revoke_rows_def set_rows_def by simp

lemma locked_revoke_run:
  assumes "w_tx w = None" "fault_free w"
  shows "withUserSessionsLocked uid (obind (token_revoke q) (\<lambda>fs. ret (g fs))) w =
     (Inr (g (uniq (map rt_family (filter q (token_rows (w_db w)))))), ((tick ^^ 4) w)\<lparr>w_db := revoke_rows (w_env w) (w_tick w + 2) q (w_db w)\<rparr>)"
proof -
  let ?w1 = "(tick w)\<lparr>w_tx := Some (w_db w)\<rparr>"
  let ?fn = "osequel (LockUserSessions uid) (obind (token_revoke q) (\<lambda>fs. ret (g fs)))"
  have "?fn ?w1 = (Inr (g (uniq (map rt_family (filter q (token_rows (w_db w)))))),
      (tick (tick ?w1))\<lparr>w_db := revoke_rows (w_env w) (w_tick w + 2) q (w_db w)\<rparr>)"
    using assms by (simp add: osequel_def LockUserSessions_def AdvisoryXactLock_def obind_def read_world_def ret_def db_query_def db_call_def
        token_revoke_eq fault_free_def)
  from WithinTx_fault_free [where fn = ?fn, OF assms this] assms show ?thesis
    by (simp add: withUserSessionsLocked_def tick_def numeral_eq_Suc)
qed

lemma off_tables_marks: "off_tables (revokeSessionAccessTokens ids)"
  by (auto simp: revokeSessionAccessTokens_def AddSessions_def intro!: off_tables_ops off_tables_base off_tables_sessions)

lemma revokeMarks_ok: "\<exists>w'. revokeSessionAccessTokens ids w = (Inr (), w')"
  by (auto simp: revokeSessionAccessTokens_def ret_def obind_def read_cfg_def read_world_def best_effort_def)

lemma off_tablesD: "off_tables m \<Longrightarrow> m w = (r, w') \<Longrightarrow> same_tables w w'"
  by (metis off_tables_def same_tables_def snd_conv)

lemma revoke_family_run:
  assumes "w_tx w = None" "fault_free w"
  obtains w' t where "RevokeRefreshTokenByFamily uid f w = (Inr (), w')" "w_env w' = w_env w" "w_tx w' = None"
    "w_db w' = revoke_rows (w_env w) t (\<lambda>r. rt_family r = f) (w_db w)"
proof -
  let ?w1 = "((tick ^^ 4) w)\<lparr>w_db := revoke_rows (w_env w) (w_tick w + 2) (\<lambda>r. rt_family r = f) (w_db w)\<rparr>"
  have "withUserSessionsLocked uid (RevokeFamily f) w = (Inr (), ?w1)"
    using locked_revoke_run [OF assms, of uid "\<lambda>r. rt_family r = f" "\<lambda>_. ()"] by (simp add: RevokeFamily_def osequel_def)
  then have run: "RevokeRefreshTokenByFamily uid f w = revokeSessionAccessTokens [f] ?w1"
    by (simp add: RevokeRefreshTokenByFamily_def osequel_def obind_def)
  obtain w' where w': "revokeSessionAccessTokens [f] ?w1 = (Inr (), w')" using revokeMarks_ok by blast
  from off_tablesD [OF off_tables_marks w'] have "w_env w' = w_env w" "w_tx w' = None"
    "w_db w' = revoke_rows (w_env w) (w_tick w + 2) (\<lambda>r. rt_family r = f) (w_db w)"
    using assms(1) by (simp_all add: same_tables_def tick_def numeral_eq_Suc)
  with run w' that show ?thesis by simp
qed

lemma revoke_user_run:
  assumes "w_tx w = None" "fault_free w"
  obtains w' t where "RevokeRefreshTokenByUserID uid w = (Inr (), w')" "w_env w' = w_env w" "w_tx w' = None"
    "w_db w' = revoke_rows (w_env w) t (\<lambda>r. rt_user r = uid) (w_db w)"
proof -
  let ?w1 = "((tick ^^ 4) w)\<lparr>w_db := revoke_rows (w_env w) (w_tick w + 2) (\<lambda>r. rt_user r = uid) (w_db w)\<rparr>"
  let ?fs = "uniq (map rt_family (filter (\<lambda>r. rt_user r = uid) (token_rows (w_db w))))"
  have "obind m ret = m" for m :: "uuid list op"
    by (simp add: obind_def ret_def fun_eq_iff split: prod.split sum.split)
  then have "withUserSessionsLocked uid (RevokeByUserID uid) w = (Inr ?fs, ?w1)"
    using locked_revoke_run [OF assms, of uid "\<lambda>r. rt_user r = uid" id] by (simp add: RevokeByUserID_def)
  then have run: "RevokeRefreshTokenByUserID uid w = revokeSessionAccessTokens ?fs ?w1"
    by (simp add: RevokeRefreshTokenByUserID_def obind_def)
  obtain w' where w': "revokeSessionAccessTokens ?fs ?w1 = (Inr (), w')" using revokeMarks_ok by blast
  from off_tablesD [OF off_tables_marks w'] have "w_env w' = w_env w" "w_tx w' = None"
    "w_db w' = revoke_rows (w_env w) (w_tick w + 2) (\<lambda>r. rt_user r = uid) (w_db w)"
    using assms(1) by (simp_all add: same_tables_def tick_def numeral_eq_Suc)
  with run w' that show ?thesis by simp
qed

lemma publish_run: "\<exists>w'. publishSessionRevoked rt ip ua w = (Inr (), w') \<and> same_tables w w'"
proof -
  have lookup: "post (user_GetByID (rt_user rt)) (\<lambda>_. same_tables w) (\<lambda>_. same_tables w) w" for w
    using off_tables_users(10) by (simp add: off_tables_post)
  have audit: "post (user_publishAudit a) (\<lambda>_. same_tables w) (\<lambda>_ _. False) w1" if "same_tables w w1" for a w1
    using that by (simp add: post_def user_publishAudit_def same_tables_def split: option.split)
  have "post (publishSessionRevoked rt ip ua) (\<lambda>_. same_tables w) (\<lambda>_ _. False) w"
    unfolding publishSessionRevoked_def
    by (simp add: auth_publishAudit_def) (rule post_weaken [OF lookup], auto intro: audit)
  then show ?thesis by (auto simp: post_def split: prod.splits sum.splits)
qed

lemma refresh_run:
  assumes "fault_free w" "au_lock_free (e_auth (w_env w)) (Suc (w_tick w))"
    "find_token (d_auth (w_db w)) (sha256_hex (w_env w) raw) = Some rt"
  shows "Refresh raw ip ua w = (if rt_revoked rt \<and> rt_replaced_by rt = None then raise ErrLogoutAlready
     else if rt_revoked rt then reuseRevoked (clock (w_env w) (w_tick w)) rt ip ua
     else rotateRefreshToken rt (clock (w_env w) (w_tick w)) ip) ((tick ^^ 3) w)"
proof -
  have "ocatch (GetRefreshTokenByHash (sha256_hex (w_env w) raw)) (\<lambda>_. raise ErrInvalidRefreshToken) (tick (tick w)) = (Inr rt, (tick ^^ 3) w)"
    using assms by (simp add: ocatch_def GetRefreshTokenByHash_def GetByTokenHash_def auth_query_def on_auth_def run_call ret_def
        fault_free_def numeral_eq_Suc)
  with assms(2) show ?thesis
    by (simp add: Refresh_def run_now obind_def [of locker_Acquire] locker_Acquire_def obind_def [of "read_world g" for g] read_world_def
        obind_def [of "ocatch m h" for m h])
qed

section \<open>Properties\<close>

text \<open>C8. Exactly what a successful refresh has found and done: the presented token is stored; its owner
  exists and is not blocked; either the token was live and within the idle and lifetime
  limits, and the tables now hold it rotated to its successor, which continues the same
  family with the same owner and start, or it had been rotated, is still in its grace window
  and its session is alive, and the tables are unchanged and no refresh token is returned.\<close>

theorem refresh_grants:
  assumes "Refresh raw ip ua w = (Inr pair, w')" "w_tx w = None"
  shows "\<exists>rt u. find_token (d_auth (w_db w)) (sha256_hex (w_env w) raw) = Some rt
    \<and> granted w (clock (w_env w) (w_tick w)) rt u ip pair w'"
  using post_InrD [OF refresh_post [OF assms(2)] assms(1)] .

theorem refresh_grants_witness:
  "isl (fst (Refresh ''b'' [] [] (quiet_world sample_sessions))) = False \<and>
   (\<exists>rt u. find_token (d_auth sample_sessions) ''b'' = Some rt
     \<and> granted (quiet_world sample_sessions) 0 rt u [] (projr (fst (Refresh ''b'' [] [] (quiet_world sample_sessions))))
         (snd (Refresh ''b'' [] [] (quiet_world sample_sessions))))"
proof -
  let ?r = "Refresh ''b'' [] [] (quiet_world sample_sessions)"
  have ok: "isl (fst ?r) = False" by code_simp
  then have "?r = (Inr (projr (fst ?r)), snd ?r)" by (metis prod.collapse sum.collapse(2))
  from refresh_grants [OF this] ok show ?thesis by (simp add: quiet_world_def quiet_env_def)
qed

text \<open>C20. A session that has ended stays ended: once no token of a family is live, no sequence of session
  requests makes one live again, and no refresh of any of its tokens succeeds.\<close>

theorem ended_session_stays_ended:
  assumes "(session_step F)\<^sup>*\<^sup>* w w'" "f \<in> F" "w_tx w = None" "ended f (w_env w) (w_db w)"
    "w_tx w' = None" "find_token (d_auth (w_db w')) (sha256_hex (w_env w') raw) = Some rt" "rt_family rt = f"
  shows "ended f (w_env w') (w_db w') \<and> isl (fst (Refresh raw ip ua w'))"
proof -
  have F: "insert f F = F" using assms(2) by blast
  have "tables_sat (ended f) w" using assms(3,4) by (simp add: tables_sat_top)
  then have "tables_sat (ended f) w'" using past.run_kept [of f F w w'] assms(1) by (simp add: F)
  then have over: "ended f (w_env w') (w_db w')" by (simp add: tables_sat_def)
  have False if "Refresh raw ip ua w' = (Inr pair, w2)" for pair w2
  proof -
    from post_InrD [OF refresh_post [OF assms(5)] that] obtain u
      where g: "granted w' (clock (w_env w') (w_tick w')) rt u ip pair w2" using assms(6) by auto
    have "rt \<in> set (token_rows (w_db w'))" using assms(6) by (auto simp: find_token_def dest: find_member)
    then have "rt_revoked rt" using over assms(7) by (auto simp: ended_def live_def)
    with g over assms(7) show False by (auto simp: granted_def ended_def Let_def)
  qed
  then show ?thesis using over by (cases "Refresh raw ip ua w'"; cases "fst (Refresh raw ip ua w')") auto
qed

definition sample_over :: db where
  "sample_over = revoke_rows quiet_env 0 (\<lambda>_. True) sample_sessions"

theorem ended_session_stays_ended_witness:
  "ended 30 quiet_env sample_over \<and> isl (fst (Refresh ''b'' [] [] (quiet_world sample_over)))"
proof -
  have over: "ended 30 quiet_env sample_over"
    by (simp add: ended_def sample_over_def revoke_rows_def revoked_row_def live_def)
  have rt: "find_token (d_auth sample_over) ''b'' = Some (revoked_row quiet_env 0 (sample_token ''b'' 1 30))"
    by (simp add: find_token_def sample_over_def revoke_rows_def set_rows_def revoked_row_def session_samples)
  from ended_session_stays_ended [where F = "{30}" and w = "quiet_world sample_over" and w' = "quiet_world sample_over" and f = 30
      and raw = "''b''" and ip = "[]" and ua = "[]", OF rtranclp.rtrancl_refl] over rt
  show ?thesis by (simp add: quiet_world_def quiet_env_def revoked_row_def sample_token_def new_refresh_row_def)
qed



section \<open>Blocking an account\<close>

lemma post_WithinTx:
  assumes "w_tx w = None"
  shows "post (WithinTx fn) Q R w = (case fault (w_env w) (w_tick w) of Some e \<Rightarrow> R e (tick w)
   | None \<Rightarrow> post fn (\<lambda>a w2. case fault (w_env w2) (w_tick w2) of Some e \<Rightarrow> R e (tx_rollback (tick w2)) | None \<Rightarrow> Q a ((tick w2)\<lparr>w_tx := None\<rparr>))
       (\<lambda>e w2. R e (tx_rollback w2)) ((tick w)\<lparr>w_tx := Some (w_db w)\<rparr>))"
  using assms by (simp add: post_def WithinTx_def tx_begin_def tx_commit_def run_query split: option.split prod.split sum.split)

text \<open>The driver's errors are its own: none is the service's \<open>ErrNotChanged\<close>.\<close>

definition driver_errors :: "world \<Rightarrow> bool" where
  "driver_errors w \<longleftrightarrow> (\<forall>t. fault (w_env w) t \<noteq> Some ErrNotChanged)"

lemma find_user_own:
  assumes "find_user d (u_id u') = Some u"
  shows "find_user (write_user e u' d) (u_id u') = Some (set_user (pg_user e u') u)"
proof -
  have "find (\<lambda>u. u_id u = u_id u') us = Some u \<Longrightarrow>
      find (\<lambda>u. u_id u = u_id u') (map (\<lambda>x. if u_id x = u_id u' then set_user (pg_user e u') x else x) us) = Some (set_user (pg_user e u') u)" for us
    by (induction us) (auto simp: set_user_def split: if_splits)
  with assms show ?thesis by (simp add: find_user_def write_user_def)
qed

lemma block_apply_post:
  assumes "driver_errors w" "\<not> IsBlocked u"
  shows "post (block_apply u) (\<lambda>(u', _) w'. same_tables w w' \<and> (\<exists>t. u' = u\<lparr>u_blocked_at := Some t\<rparr>)) (\<lambda>e _. e \<noteq> ErrNotChanged) w"
proof -
  have err: "fault (w_env w) t = Some e \<Longrightarrow> e \<noteq> ErrNotChanged" for t e
    using assms(1) by (auto simp: driver_errors_def)
  have "post (ensureNotLastActiveAdmin u) (\<lambda>_. same_tables w) (\<lambda>e _. e \<noteq> ErrNotChanged) w"
    by (auto simp: ensureNotLastActiveAdmin_def LockAdminMutations_def AdvisoryXactLock_def CountActiveAdmins_def post_db_query
        same_tables_def dest: err split: option.split)
  then show ?thesis
    using assms(2) by (auto simp: block_apply_def elim!: post_weaken)
qed

lemma block_tx_post:
  assumes "find_user (w_db w) uid = Some u" "\<not> IsBlocked u" "driver_errors w"
  shows "post (user_update_tx uid block_apply) (\<lambda>_ w1. w_tx w1 = w_tx w \<and> w_env w1 = w_env w \<and>
     (\<exists>b. find_user (w_db w1) uid = Some b \<and> IsBlocked b)) (\<lambda>e _. e \<noteq> ErrNotChanged) w"
proof -
  have uid: "u_id u = uid" using find_user_Some [OF assms(1)] by simp
  have b: "\<exists>b. find_user (write_user (w_env w) (u\<lparr>u_blocked_at := Some t\<rparr>) (w_db w)) uid = Some b \<and> IsBlocked b" for t
    using find_user_own [of "w_db w" "u\<lparr>u_blocked_at := Some t\<rparr>" u "w_env w"] assms(1) uid
    by (auto simp: set_user_def pg_user_def IsBlocked_def)
  have err: "fault (w_env w) t = Some e \<Longrightarrow> e \<noteq> ErrNotChanged" for t e
    using assms(3) by (auto simp: driver_errors_def)
  have upd: "post (users_Update (u\<lparr>u_blocked_at := Some t\<rparr>)) (\<lambda>_ w1. w_tx w1 = w_tx w \<and> w_env w1 = w_env w \<and>
     (\<exists>b. find_user (w_db w1) uid = Some b \<and> IsBlocked b)) (\<lambda>e _. e \<noteq> ErrNotChanged) w2" if "same_tables w w2" for t w2
    using that b [of t] by (auto simp: users_Update_write post_db_call same_tables_def dest: err split: option.split)
  have "post (obind (block_apply u) (\<lambda>(u', x). osequel (users_Update u') (ret (u', x)))) (\<lambda>_ w1. w_tx w1 = w_tx w \<and> w_env w1 = w_env w \<and>
     (\<exists>b. find_user (w_db w1) uid = Some b \<and> IsBlocked b)) (\<lambda>e _. e \<noteq> ErrNotChanged) (tick w)"
    unfolding post_obind
  proof (rule post_weaken [OF block_apply_post [OF _ assms(2)]], goal_cases)
    case (2 p w2)
    then show ?case using upd [of w2] by (auto simp: same_tables_def)
  qed (use assms(3) in \<open>simp_all add: driver_errors_def\<close>)
  with assms(1) show ?thesis
    by (auto simp: user_update_tx_def GetForUpdateByID_def post_db_query user_or_not_found_def dest: err split: option.split)
qed

lemma block_update_post:
  assumes "w_tx w = None" "find_user (w_db w) uid = Some u" "\<not> IsBlocked u" "driver_errors w"
  shows "post (user_updateWithApply uid block_apply) (\<lambda>_ w1. w_tx w1 = None \<and> w_env w1 = w_env w \<and>
     (\<exists>b. find_user (w_db w1) uid = Some b \<and> IsBlocked b)) (\<lambda>e _. e \<noteq> ErrNotChanged) w"
proof -
  let ?w1 = "(tick w)\<lparr>w_tx := Some (w_db w)\<rparr>"
  have err: "fault (w_env w) t = Some e \<Longrightarrow> e \<noteq> ErrNotChanged" for t e
    using assms(4) by (auto simp: driver_errors_def)
  have "post (user_update_tx uid block_apply) (\<lambda>_ w1. w_tx w1 = w_tx ?w1 \<and> w_env w1 = w_env ?w1 \<and>
     (\<exists>b. find_user (w_db w1) uid = Some b \<and> IsBlocked b)) (\<lambda>e _. e \<noteq> ErrNotChanged) ?w1"
    by (rule block_tx_post) (use assms in \<open>simp_all add: driver_errors_def\<close>)
  then show ?thesis
    by (auto simp: user_updateWithApply_def post_WithinTx [OF assms(1)] dest: err split: option.split elim!: post_weaken)
qed

lemma revoke_by_user_post:
  assumes "w_tx w = None"
  shows "post (RevokeRefreshTokenByUserID uid) (\<lambda>_ w'. w_tx w' = None \<and> (\<exists>t. w_db w' = revoke_rows (w_env w) t (\<lambda>r. rt_user r = uid) (w_db w))) (\<lambda>_ _. True) w"
proof -
  have lock: "db_only (osequel (LockUserSessions uid) (RevokeByUserID uid))"
    by (auto simp: LockUserSessions_def AdvisoryXactLock_def RevokeByUserID_def token_revoke_eq intro!: db_only_rules)
  have body: "post (osequel (LockUserSessions uid) (RevokeByUserID uid)) (\<lambda>_ w'. \<exists>t. w_db w' = revoke_rows (w_env w1) t (\<lambda>r. rt_user r = uid) (w_db w1))
      (\<lambda>_ _. True) w1" for w1
    by (auto simp: LockUserSessions_def AdvisoryXactLock_def RevokeByUserID_def token_revoke_eq post_db_call post_db_query split: option.split)
  have tx: "post (withUserSessionsLocked uid (RevokeByUserID uid)) (\<lambda>_ w'. w_tx w' = None \<and> (\<exists>t. w_db w' = revoke_rows (w_env w) t (\<lambda>r. rt_user r = uid) (w_db w)))
      (\<lambda>_ _. True) w"
  proof (rule postI)
    fix a w' assume "withUserSessionsLocked uid (RevokeByUserID uid) w = (Inr a, w')"
    from this [unfolded withUserSessionsLocked_def] assms lock
    show "w_tx w' = None \<and> (\<exists>t. w_db w' = revoke_rows (w_env w) t (\<lambda>r. rt_user r = uid) (w_db w))"
    proof (cases rule: WithinTx_cases)
      case (committed b w1 w2)
      with post_InrD [OF body committed(2)] assms show ?thesis by (simp add: same_frame_def)
    qed simp
  qed simp
  have marks: "post (revokeSessionAccessTokens ids) (\<lambda>_. same_tables w1) (\<lambda>_. same_tables w1) w1" for ids w1
    using off_tables_marks by (simp add: off_tables_post)
  show ?thesis
    unfolding RevokeRefreshTokenByUserID_def post_obind
    by (rule post_weaken [OF tx], rule post_weaken [OF marks]) (auto simp: same_tables_def)
qed

lemma block_post:
  assumes "w_tx w = None" "find_user (w_db w) (bc_user_id cmd) = Some u" "\<not> IsBlocked u" "driver_errors w"
  shows "post (BlockUser cmd) (\<lambda>_ w'. w_tx w' = None \<and> (\<exists>b. find_user (w_db w') (bc_user_id cmd) = Some b \<and> IsBlocked b)
    \<and> (\<forall>r \<in> set (token_rows (w_db w')). rt_user r = bc_user_id cmd \<longrightarrow> \<not> live r)) (\<lambda>_ _. True) w"
proof -
  let ?uid = "bc_user_id cmd"
  let ?Q = "\<lambda>w'. w_tx w' = None \<and> (\<exists>b. find_user (w_db w') ?uid = Some b \<and> IsBlocked b)
    \<and> (\<forall>r \<in> set (token_rows (w_db w')). rt_user r = ?uid \<longrightarrow> \<not> live r)"
  have rows: "find_user (revoke_rows e t q d) ?uid = find_user d ?uid"
    "r \<in> set (token_rows (revoke_rows e t (\<lambda>r. rt_user r = ?uid) d)) \<Longrightarrow> rt_user r = ?uid \<Longrightarrow> \<not> live r" for e t q d r
    by (auto simp: revoke_rows_def find_user_def revoked_row_def live_def)
  have rest: "post (osequel (RevokeRefreshTokenByUserID ?uid) (user_publishAudit a)) (\<lambda>_. ?Q) (\<lambda>_ _. True) w1"
    if w1: "w_tx w1 = None" "\<exists>b. find_user (w_db w1) ?uid = Some b \<and> IsBlocked b" for w1 a
  proof -
    have audit: "post (user_publishAudit a) (\<lambda>_. same_tables w2) (\<lambda>_. same_tables w2) w2" for w2
      using off_tables_users(9) by (simp add: off_tables_post)
    show ?thesis
      unfolding post_osequel
      by (rule post_weaken [OF revoke_by_user_post [OF w1(1)]], rule post_weaken [OF audit])
        (use w1(2) rows in \<open>auto simp: same_tables_def\<close>)
  qed
  have "post (unchanged_ok (obind (user_updateWithApply ?uid block_apply) (\<lambda>(u, _). ret (Some u))) (ret None))
      (\<lambda>r w1. r \<noteq> None \<and> w_tx w1 = None \<and> (\<exists>b. find_user (w_db w1) ?uid = Some b \<and> IsBlocked b)) (\<lambda>_ _. True) w"
    unfolding unchanged_ok_def
    by simp (rule post_weaken [OF block_update_post [OF assms]], auto)
  then have "post (obind (unchanged_ok (obind (user_updateWithApply ?uid block_apply) (\<lambda>(u, _). ret (Some u))) (ret None)) (\<lambda>r.
       case r of None \<Rightarrow> ret () | Some u \<Rightarrow> osequel (RevokeRefreshTokenByUserID ?uid) (user_publishAudit (AuditUserBlocked (bc_actor cmd) u))))
      (\<lambda>_. ?Q) (\<lambda>_ _. True) w"
    unfolding post_obind by (elim post_weaken) (auto intro!: rest simp del: post_osequel)
  then show ?thesis unfolding BlockUser_def by (simp del: post_obind)
qed



end
