(* ===== verification/TokenChecks.thy ===== *)
theory TokenChecks
  imports SessionBehaviour
begin

text \<open>
  The background prune of expired refresh tokens and the gates that decide whether an
  access token is active.
\<close>

section \<open>Pruning\<close>

definition expired :: "time \<Rightarrow> refresh_row \<Rightarrow> bool" where
  "expired cutoff r \<longleftrightarrow> rt_expires_at r < cutoff"

definition batch_rows :: "time \<Rightarrow> int \<Rightarrow> refresh_row list \<Rightarrow> refresh_row list" where
  "batch_rows cutoff limit rows = take (nat limit)
     (sort_func (\<lambda>a b. ord_cmp (rt_expires_at a) (rt_expires_at b)) (filter (expired cutoff) rows))"

lemma prune_batch_rows: "prune_batch cutoff limit rows = map rt_hash (batch_rows cutoff limit rows)"
proof -
  have "expired cutoff = (\<lambda>r. rt_expires_at r < cutoff)" by (simp add: expired_def fun_eq_iff)
  then show ?thesis by (simp add: prune_batch_def batch_rows_def)
qed

lemma batch_rows_props:
  shows "set (batch_rows cutoff limit rows) \<subseteq> set (filter (expired cutoff) rows)"
    and "length (batch_rows cutoff limit rows) = min (nat limit) (length (filter (expired cutoff) rows))"
    and "distinct rows \<Longrightarrow> distinct (batch_rows cutoff limit rows)"
proof -
  show "set (batch_rows cutoff limit rows) \<subseteq> set (filter (expired cutoff) rows)"
    unfolding batch_rows_def using set_take_subset by fastforce
  show "length (batch_rows cutoff limit rows) = min (nat limit) (length (filter (expired cutoff) rows))"
    by (simp add: batch_rows_def)
  have "distinct (sort_func cmp xs) = distinct xs" for cmp and xs :: "refresh_row list"
    by (metis mset_sort_func mset_eq_imp_distinct_iff)
  then show "distinct rows \<Longrightarrow> distinct (batch_rows cutoff limit rows)"
    by (simp add: batch_rows_def)
qed

definition kept_rows :: "time \<Rightarrow> int \<Rightarrow> refresh_row list \<Rightarrow> refresh_row list" where
  "kept_rows cutoff limit rows = filter (\<lambda>r. rt_hash r \<notin> set (prune_batch cutoff limit rows)) rows"

lemma selected_iff:
  assumes "distinct (map rt_hash rows)" "r \<in> set rows"
  shows "rt_hash r \<in> set (prune_batch cutoff limit rows) \<longleftrightarrow> r \<in> set (batch_rows cutoff limit rows)"
proof -
  have "s \<in> set rows" if "s \<in> set (batch_rows cutoff limit rows)" for s
    using batch_rows_props(1) [of cutoff limit rows] that by auto
  then have "r = s" if "s \<in> set (batch_rows cutoff limit rows)" "rt_hash r = rt_hash s" for s
    using assms that unfolding distinct_map inj_on_def by blast
  then show ?thesis by (auto simp: prune_batch_rows)
qed

lemma kept_rows_eq:
  assumes "distinct (map rt_hash rows)"
  shows "kept_rows cutoff limit rows = filter (\<lambda>r. r \<notin> set (batch_rows cutoff limit rows)) rows"
  unfolding kept_rows_def by (rule filter_cong) (simp_all add: selected_iff [OF assms])

lemma batch_count:
  assumes "distinct (map rt_hash rows)"
  shows "length (filter (\<lambda>r. rt_hash r \<in> set (prune_batch cutoff limit rows)) rows) = min (nat limit) (length (filter (expired cutoff) rows))"
proof -
  let ?b = "batch_rows cutoff limit rows"
  have d: "distinct rows" using assms by (simp add: distinct_map)
  have sel: "filter (\<lambda>r. rt_hash r \<in> set (prune_batch cutoff limit rows)) rows = filter (\<lambda>r. r \<in> set ?b) rows"
    by (rule filter_cong) (simp_all add: selected_iff [OF assms])
  have "length (filter (\<lambda>r. r \<in> set ?b) rows) = card (set (filter (\<lambda>r. r \<in> set ?b) rows))"
    using d by (intro distinct_card [symmetric]) simp
  also have "set (filter (\<lambda>r. r \<in> set ?b) rows) = set ?b" using batch_rows_props(1) [of cutoff limit rows] by auto
  also have "card (set ?b) = length ?b" using batch_rows_props(3) [OF d] by (rule distinct_card)
  finally show ?thesis unfolding sel by (simp add: batch_rows_props(2))
qed

lemma kept_expired:
  assumes "distinct (map rt_hash rows)"
  shows "length (filter (expired cutoff) (kept_rows cutoff limit rows)) + min (nat limit) (length (filter (expired cutoff) rows))
      = length (filter (expired cutoff) rows)"
    "length rows = length (kept_rows cutoff limit rows) + min (nat limit) (length (filter (expired cutoff) rows))"
proof -
  let ?sel = "\<lambda>r. rt_hash r \<in> set (prune_batch cutoff limit rows)"
  have split: "length xs = length (filter (\<lambda>r. \<not> q r) xs) + length (filter q xs)" for q and xs :: "refresh_row list"
    by (induction xs) auto
  have "expired cutoff r" if "r \<in> set rows" "?sel r" for r
    using selected_iff [OF assms that(1), of cutoff limit] batch_rows_props(1) [of cutoff limit rows] that(2) by auto
  then have eq: "filter ?sel (filter (expired cutoff) rows) = filter ?sel rows"
    unfolding filter_filter by (intro filter_cong) blast+
  have swap: "filter (expired cutoff) (kept_rows cutoff limit rows) = filter (\<lambda>r. \<not> ?sel r) (filter (expired cutoff) rows)"
    unfolding kept_rows_def filter_filter by (intro filter_cong) blast+
  note count = split [of "filter (expired cutoff) rows" ?sel, unfolded eq batch_count [OF assms]]
  show "length (filter (expired cutoff) (kept_rows cutoff limit rows)) + min (nat limit) (length (filter (expired cutoff) rows))
      = length (filter (expired cutoff) rows)"
    unfolding swap by (rule count [symmetric])
  show "length rows = length (kept_rows cutoff limit rows) + min (nat limit) (length (filter (expired cutoff) rows))"
    using split [of rows ?sel] batch_count [OF assms, of cutoff limit] by (simp add: kept_rows_def)
qed

text \<open>One statement, and the batches of one run.\<close>

definition pruned :: "time \<Rightarrow> nat \<Rightarrow> refresh_row list \<Rightarrow> refresh_row list \<Rightarrow> bool" where
  "pruned cutoff n rows rows' \<longleftrightarrow> (\<exists>q. rows' = filter q rows \<and> (\<forall>r \<in> set rows. \<not> q r \<longrightarrow> expired cutoff r))
     \<and> length rows \<le> length rows' + n"

lemma PruneExpiredBefore_run:
  assumes "0 < limit" "distinct (map rt_hash (token_rows (w_db w)))"
  shows "PruneExpiredBefore cutoff limit w = (case fault (w_env w) (w_tick w) of Some e \<Rightarrow> (Inl e, tick w)
    | None \<Rightarrow> (Inr (min limit (int (length (filter (expired (pg_time (w_env w) cutoff)) (token_rows (w_db w)))))),
        (tick w)\<lparr>w_db := set_rows (w_db w) (kept_rows (pg_time (w_env w) cutoff) limit (token_rows (w_db w)))\<rparr>))"
  using assms batch_count [OF assms(2), of "pg_time (w_env w) cutoff" limit]
  by (simp add: PruneExpiredBefore_def on_auth_def db_call_def Let_def kept_rows_def set_rows_def of_nat_min split: option.split)

lemma pruned_refl: "pruned c n rows rows"
  unfolding pruned_def by (auto intro!: exI [of _ "\<lambda>_. True"])

lemma pruned_trans: "pruned c n a b \<Longrightarrow> pruned c m b d \<Longrightarrow> pruned c (n + m) a d"
proof -
  assume "pruned c n a b" "pruned c m b d"
  then obtain p q where "b = filter p a" "\<forall>r \<in> set a. \<not> p r \<longrightarrow> expired c r" "d = filter q b" "\<forall>r \<in> set b. \<not> q r \<longrightarrow> expired c r"
      "length a \<le> length b + n" "length b \<le> length d + m"
    unfolding pruned_def by blast
  then show ?thesis unfolding pruned_def by (auto intro!: exI [of _ "\<lambda>r. p r \<and> q r"])
qed

lemma pruned_batch:
  assumes "distinct (map rt_hash rows)" "0 < limit"
  shows "pruned c (nat limit) rows (kept_rows c limit rows)"
proof -
  have "\<forall>r \<in> set rows. \<not> r \<notin> set (batch_rows c limit rows) \<longrightarrow> expired c r"
    using batch_rows_props(1) [of c limit rows] by auto
  with kept_expired(2) [OF assms(1), of c limit] show ?thesis
    unfolding pruned_def kept_rows_eq [OF assms(1)] by auto
qed

lemma prune_batches_run:
  assumes "0 < limit" "distinct (map rt_hash (token_rows (w_db w)))" "prune_batches n cutoff limit w = (r, w')"
  shows "pruned (pg_time (w_env w) cutoff) (n * nat limit) (token_rows (w_db w)) (token_rows (w_db w'))
    \<and> (fault_free w \<and> length (filter (expired (pg_time (w_env w) cutoff)) (token_rows (w_db w))) \<le> n * nat limit \<longrightarrow>
        r = Inr () \<and> filter (expired (pg_time (w_env w) cutoff)) (token_rows (w_db w')) = [])"
  using assms
proof (induction n arbitrary: w)
  case 0
  then show ?case by (auto simp: ret_def pruned_refl)
next
  case (Suc n)
  let ?c = "pg_time (w_env w) cutoff" and ?rows = "token_rows (w_db w)"
  let ?e = "length (filter (expired ?c) ?rows)"
  let ?w1 = "(tick w)\<lparr>w_db := set_rows (w_db w) (kept_rows ?c limit ?rows)\<rparr>"
  note batch = pruned_batch [OF Suc.prems(2,1), of ?c] and left = kept_expired(1) [OF Suc.prems(2), of ?c limit]
  have dist: "distinct (map rt_hash (token_rows (w_db ?w1)))"
    using Suc.prems(2) by (simp add: kept_rows_def distinct_map inj_on_def)
  show ?case
  proof (cases "fault (w_env w) (w_tick w)")
    case (Some e)
    then have "w' = tick w"
      using Suc.prems by (simp add: obind_def PruneExpiredBefore_run)
    with Some show ?thesis by (auto simp: pruned_refl fault_free_def)
  next
    case None
    then have run: "prune_batches (Suc n) cutoff limit w = (if min limit (int ?e) < limit then ret () else prune_batches n cutoff limit) ?w1"
      by (simp add: obind_def PruneExpiredBefore_run [OF Suc.prems(1,2)])
    show ?thesis
    proof (cases "int ?e < limit")
      case True
      with run Suc.prems(3) have w': "w' = ?w1" "r = Inr ()" by (simp_all add: ret_def)
      have "filter (expired ?c) (kept_rows ?c limit ?rows) = []" using left True by simp
      moreover have "pruned ?c (Suc n * nat limit) ?rows (kept_rows ?c limit ?rows)"
        using batch unfolding pruned_def by auto
      ultimately show ?thesis using w' by simp
    next
      case False
      then have "prune_batches n cutoff limit ?w1 = (r, w')" using run Suc.prems(3) by simp
      from Suc.IH [OF Suc.prems(1) dist this] have IH: "pruned ?c (n * nat limit) (kept_rows ?c limit ?rows) (token_rows (w_db w'))"
        "fault_free ?w1 \<Longrightarrow> length (filter (expired ?c) (kept_rows ?c limit ?rows)) \<le> n * nat limit \<Longrightarrow>
           r = Inr () \<and> filter (expired ?c) (token_rows (w_db w')) = []" by auto
      have "fault_free ?w1" if "fault_free w" using that by (simp add: fault_free_def)
      moreover have "length (filter (expired ?c) (kept_rows ?c limit ?rows)) \<le> n * nat limit" if "?e \<le> Suc n * nat limit"
        using left that False by simp
      moreover have "nat limit + n * nat limit = Suc n * nat limit" by simp
      ultimately show ?thesis using IH pruned_trans [OF batch IH(1)] by metis
    qed
  qed
qed

section \<open>Introspection\<close>

text \<open>The marks in force against a token: its own, or that of its session.\<close>

definition marked :: "world \<Rightarrow> nat \<Rightarrow> access_claims \<Rightarrow> bool" where
  "marked w t claims \<longleftrightarrow> (\<exists>(k, until) \<in> set (w_valkey w). clock (w_env w) t < until
     \<and> (k = blacklist_key (cl_jti claims) \<or> cl_session claims \<noteq> [] \<and> k = session_key (cl_session claims)))"

lemma isRevoked_run:
  assumes "fault_free w"
  shows "isRevoked claims w = (Inr (marked w (w_tick w) claims), tick w)"
proof -
  have "(\<exists>(k, until) \<in> set xs. k \<in> set (b # (if c then [d] else [])) \<and> P until) = (\<exists>(k, until) \<in> set xs. P until \<and> (k = b \<or> c \<and> k = d))"
    for xs :: "(string \<times> time) list" and b c d P
    by auto
  then show ?thesis
    using assms by (simp add: isRevoked_def IsRevoked_def valkey_exists_def fault_free_def marked_def)
qed

definition active_user :: "db \<Rightarrow> uuid option \<Rightarrow> user option" where
  "active_user d parsed = (case parsed of None \<Rightarrow> None
     | Some uid \<Rightarrow> (case find_user d uid of None \<Rightarrow> None | Some u \<Rightarrow> if IsBlocked u then None else Some u))"

lemma activeSubject_run:
  assumes "fault_free w"
  shows "\<exists>w'. activeSubject s w = (Inr (active_user (w_db w) (au_uuid_parse (e_auth (w_env w)) s)), w')"
  using assms
  by (auto simp: activeSubject_def active_user_def obind_def read_world_def ret_def optional_def ocatch_def user_GetByID_def users_GetByID_def raise_def
      user_or_not_found_def db_query_def db_call_def fault_free_def split: option.split)

lemma introspect_run:
  assumes "fault_free w"
  shows "\<exists>rep w'. Introspect token w = (Inr rep, w')
    \<and> (ir_active rep \<longleftrightarrow> (\<exists>claims uid u. au_verify (e_auth (w_env w)) (w_tick w) token = Inr claims \<and> cl_jti claims \<noteq> []
        \<and> \<not> marked w (Suc (w_tick w)) claims \<and> au_uuid_parse (e_auth (w_env w)) (cl_subject claims) = Some uid
        \<and> find_user (w_db w) uid = Some u \<and> \<not> IsBlocked u \<and> ir_roles rep = u_roles u))"
proof (cases "au_verify (e_auth (w_env w)) (w_tick w) token")
  case (Inl e)
  then show ?thesis
    by (simp add: Introspect_def obind_def ocatch_def VerifyAccessToken_def ret_def inactive_report_def)
next
  case (Inr claims)
  let ?u = "active_user (w_db w) (au_uuid_parse (e_auth (w_env w)) (cl_subject claims))"
  have ff: "fault_free (tick w)" "fault_free (tick (tick w))" using assms by (simp_all add: fault_free_def)
  obtain w' where sub: "activeSubject (cl_subject claims) (tick (tick w)) = (Inr ?u, w')"
    using activeSubject_run [OF ff(2), of "cl_subject claims"] by auto
  have mark: "marked (tick w) (Suc (w_tick w)) claims = marked w (Suc (w_tick w)) claims" by (simp add: marked_def)
  have run: "Introspect token w = (if cl_jti claims = [] then (Inr (inactive_report []), tick w)
     else if marked w (Suc (w_tick w)) claims then (Inr (inactive_report (cl_jti claims)), tick (tick w))
     else (case ?u of None \<Rightarrow> (Inr (inactive_report (cl_jti claims)), w')
       | Some u \<Rightarrow> (Inr \<lparr>ir_active = True, ir_jti = cl_jti claims, ir_subject = cl_subject claims, ir_email = cl_email claims,
           ir_roles = u_roles u, ir_exp = unix_seconds (cl_expires_at claims)\<rparr>, w')))"
    using Inr isRevoked_run [OF ff(1), of claims] sub mark
    by (simp add: Introspect_def obind_def ocatch_def VerifyAccessToken_def ret_def split: option.split)
  show ?thesis unfolding run using Inr
    by (auto simp: inactive_report_def active_user_def split: option.splits if_splits)
qed

section \<open>Properties\<close>

text \<open>The prune: whatever fails, a run removes only tokens whose expiry is before the retention cutoff, keeps
  every other row in place, and removes at most its batches times the batch limit. When no
  statement fails and the backlog fits that bound, it succeeds and leaves no expired token.\<close>

theorem prune_bounded:
  assumes "PruneRefreshTokens retention batchLimit w = (r, w')" "distinct (map rt_hash (token_rows (w_db w)))"
    "limit = (if batchLimit \<le> 0 then defaultPruneBatchLimit else batchLimit)"
    "cutoff = pg_time (w_env w) (clock (w_env w) (w_tick w) + i64 (- (if retention \<le> 0 then defaultPruneRetention else retention)))"
  shows "(\<exists>q. token_rows (w_db w') = filter q (token_rows (w_db w)) \<and> (\<forall>x \<in> set (token_rows (w_db w)). \<not> q x \<longrightarrow> rt_expires_at x < cutoff))
    \<and> length (token_rows (w_db w)) \<le> length (token_rows (w_db w')) + maxPruneBatches * nat limit
    \<and> (fault_free w \<and> length (filter (\<lambda>x. rt_expires_at x < cutoff) (token_rows (w_db w))) \<le> maxPruneBatches * nat limit \<longrightarrow>
        r = Inr () \<and> filter (\<lambda>x. rt_expires_at x < cutoff) (token_rows (w_db w')) = [])"
proof -
  let ?cut = "clock (w_env w) (w_tick w) + i64 (- (if retention \<le> 0 then defaultPruneRetention else retention))"
  have exp: "expired c = (\<lambda>x. rt_expires_at x < c)" for c by (simp add: expired_def fun_eq_iff)
  have pos: "0 < limit" using assms(3) by (simp add: defaultPruneBatchLimit_def)
  have "prune_batches maxPruneBatches ?cut limit (tick w) = (r, w')"
    using assms(1) unfolding PruneRefreshTokens_def assms(3) by (simp add: run_now Let_def)
  from prune_batches_run [OF pos _ this] assms(2,4) show ?thesis
    by (simp add: pruned_def exp fault_free_def)
qed

theorem prune_bounded_witness:
  "length (token_rows sample_sessions) \<le> length (token_rows (w_db (snd (PruneRefreshTokens 1 2 (quiet_world sample_sessions))))) + maxPruneBatches * nat 2"
proof -
  have "distinct (map rt_hash (token_rows (w_db (quiet_world sample_sessions))))" by (simp add: session_samples)
  from prune_bounded [OF surjective_pairing this refl refl, of 1 2] show ?thesis by (simp add: quiet_world_def)
qed

text \<open>Introspection answers exactly: when no store fails it always returns a report, the token is active
  precisely when it verifies, has an identifier, neither it nor its session is marked
  revoked, and its subject is an existing account that is not blocked, and the roles reported
  are the stored ones, not the token's.\<close>

theorem introspect_exact:
  assumes "fault_free w"
  shows "\<exists>rep w'. Introspect token w = (Inr rep, w')
    \<and> (ir_active rep \<longleftrightarrow> (\<exists>claims uid u. au_verify (e_auth (w_env w)) (w_tick w) token = Inr claims \<and> cl_jti claims \<noteq> []
        \<and> \<not> marked w (Suc (w_tick w)) claims \<and> au_uuid_parse (e_auth (w_env w)) (cl_subject claims) = Some uid
        \<and> find_user (w_db w) uid = Some u \<and> \<not> IsBlocked u \<and> ir_roles rep = u_roles u))"
  using introspect_run [OF assms] .

theorem introspect_exact_witness:
  "\<exists>rep w'. Introspect ''t'' (quiet_world sample_sessions) = (Inr rep, w')
    \<and> (ir_active rep \<longleftrightarrow> (\<exists>claims uid u. au_verify (e_auth (w_env (quiet_world sample_sessions))) (w_tick (quiet_world sample_sessions)) ''t'' = Inr claims
        \<and> cl_jti claims \<noteq> [] \<and> \<not> marked (quiet_world sample_sessions) (Suc (w_tick (quiet_world sample_sessions))) claims
        \<and> au_uuid_parse (e_auth (w_env (quiet_world sample_sessions))) (cl_subject claims) = Some uid
        \<and> find_user (w_db (quiet_world sample_sessions)) uid = Some u \<and> \<not> IsBlocked u \<and> ir_roles rep = u_roles u))"
  by (rule introspect_exact) (simp add: fault_free_def quiet_world_def quiet_env_def)

section \<open>Logging out\<close>

text \<open>Operations move time forward and leave the environment alone.\<close>

definition advances :: "'a op \<Rightarrow> bool" where
  "advances m \<longleftrightarrow> (\<forall>w. w_env (snd (m w)) = w_env w \<and> w_tick w \<le> w_tick (snd (m w)))"

lemma advances_keeps: "advances m \<longleftrightarrow> (\<forall>E n. keeps (\<lambda>w. w_env w = E \<and> n \<le> w_tick w) m)"
  unfolding advances_def keeps_def by (metis order_trans order_refl)

lemma advances_ops:
  "advances (ret a)" "advances (raise e)" "advances (read_world f)"
  "advances m \<Longrightarrow> (\<And>x. advances (g x)) \<Longrightarrow> advances (obind m g)"
  "advances m \<Longrightarrow> advances n \<Longrightarrow> advances (osequel m n)"
  "advances m \<Longrightarrow> advances (best_effort m)"
  "advances m \<Longrightarrow> (\<And>er. advances (h er)) \<Longrightarrow> advances (ocatch m h)"
  "advances m \<Longrightarrow> advances k \<Longrightarrow> advances (if b then m else k)"
  "advances m \<Longrightarrow> (\<And>x. advances (k' x)) \<Longrightarrow> advances (case xo of None \<Rightarrow> m | Some x \<Rightarrow> k' x)"
  for m k :: "'b op"
  unfolding advances_keeps by (auto intro!: keep_rules)

lemma advances_base:
  "advances UTCNow" "advances (db_call f)" "advances (valkey_set ks ttl)" "advances (VerifyAccessToken s)"
  by (auto simp: advances_def UTCNow_def db_call_def valkey_set_def VerifyAccessToken_def split: option.split sum.split)

lemma advances_WithinTx:
  assumes "advances fn"
  shows "advances (WithinTx fn)"
proof -
  have body: "w_env w' = w_env w \<and> w_tick w \<le> w_tick w'" if "fn w = (r, w')" for w r w'
    using assms that unfolding advances_def by (metis snd_conv)
  have roll: "w_env (tx_rollback w) = w_env w" "w_tick (tx_rollback w) = w_tick w" for w
    by (simp_all add: tx_rollback_def split: option.split)
  have nested: "w_env (snd (fn w)) = w_env w \<and> w_tick w \<le> w_tick (snd (fn w))" for w
    using assms unfolding advances_def by blast
  show ?thesis
    unfolding advances_def
    by (auto simp: WithinTx_def tx_begin_def tx_commit_def run_query roll nested split: option.split prod.split sum.split dest!: body)
qed

lemma advances_revocations:
  "advances (RevokeRefreshTokenByFamily uid f)" "advances (RevokeRefreshTokenByUserID uid)" "advances (RevokeFamilyByRefreshToken raw cl)"
  by (auto simp: RevokeRefreshTokenByFamily_def RevokeRefreshTokenByUserID_def RevokeFamilyByRefreshToken_def withUserSessionsLocked_def
      LockUserSessions_def AdvisoryXactLock_def RevokeFamily_def RevokeByUserID_def token_revoke_eq revokeSessionAccessTokens_def read_cfg_def
      AddSessions_def GetByTokenHash_def auth_query_def on_auth_def db_query_def intro!: advances_ops advances_base advances_WithinTx)

lemma advances_revokeFunc:
  "advances (obind (if ref \<noteq> [] then RevokeFamilyByRefreshToken ref claims else ret nil_uuid) (\<lambda>ended. revokeAccessTokenSession claims ended))"
  by (auto simp: revokeAccessTokenSession_def parse_or_def intro!: advances_ops advances_base advances_revocations)

lemma logout_marks:
  assumes "auth_logout acc f w = (Inr r, w')" "fault_free w" "au_verify (e_auth (w_env w)) (w_tick w) acc = Inr claims"
    "0 < cf_access_ttl (au_cfg (e_auth (w_env w)))" "advances (f claims)"
  shows "\<exists>t. w_tick w \<le> t \<and> t < w_tick w' \<and> (blacklist_key (cl_jti claims), clock (w_env w) t + cf_access_ttl (au_cfg (e_auth (w_env w)))) \<in> set (w_valkey w')"
proof -
  let ?ttl = "cf_access_ttl (au_cfg (e_auth (w_env w)))"
  let ?Q = "\<lambda>w'. \<exists>t. w_tick w \<le> t \<and> t < w_tick w' \<and> (blacklist_key (cl_jti claims), clock (w_env w) t + ?ttl) \<in> set (w_valkey w')"
  have verify: "ocatch (VerifyAccessToken acc) (\<lambda>_. raise ErrInvalidAccessToken) w = (Inr claims, tick w)"
    using assms(3) by (simp add: ocatch_def VerifyAccessToken_def)
  have tail: "post (osequel (best_effort (blacklist_Add (cl_jti claims) ?ttl)) (obind (parse_or (cl_subject claims) Panic) (\<lambda>uid.
      auth_publishAudit (AuditLogoutSuccess (uuid_string uid) (cl_email claims) (auditSessionID claims))))) (\<lambda>_. ?Q) (\<lambda>_ _. True) w1"
    if w1: "w_env w1 = w_env w" "w_tick w \<le> w_tick w1" for w1
  proof -
    have "fault (w_env w1) t = None" for t using assms(2) w1(1) by (simp add: fault_free_def)
    with w1 assms(4) show ?thesis
      by (auto simp: blacklist_Add_def valkey_set_def parse_or_def auth_publishAudit_def user_publishAudit_def post_def osequel_def obind_def
          best_effort_def read_world_def raise_def ret_def intro!: exI [of _ "w_tick w1"] split: option.split)
  qed
  have go: "post (osequel (f claims) (obind (read_cfg cf_access_ttl) (\<lambda>ttl. osequel (best_effort (blacklist_Add (cl_jti claims) ttl))
      (obind (parse_or (cl_subject claims) Panic) (\<lambda>uid. auth_publishAudit (AuditLogoutSuccess (uuid_string uid) (cl_email claims) (auditSessionID claims)))))))
      (\<lambda>_. ?Q) (\<lambda>_ _. True) (tick w)"
    unfolding post_osequel [of "f claims"]
  proof (rule postI)
    fix a w1 assume "f claims (tick w) = (Inr a, w1)"
    then have w1: "w_env w1 = w_env w" "w_tick w \<le> w_tick w1"
      using assms(5) unfolding advances_def by (metis snd_conv tick_simps(1), metis Suc_leD snd_conv tick_simps(7))
    show "post (obind (read_cfg cf_access_ttl) (\<lambda>ttl. osequel (best_effort (blacklist_Add (cl_jti claims) ttl))
      (obind (parse_or (cl_subject claims) Panic) (\<lambda>uid. auth_publishAudit (AuditLogoutSuccess (uuid_string uid) (cl_email claims) (auditSessionID claims))))))
      (\<lambda>_. ?Q) (\<lambda>_ _. True) w1"
      using tail [OF w1] w1(1) unfolding read_cfg_def post_obind [of "read_world g" for g] post_read by simp
  qed simp
  have "post (auth_logout acc f) (\<lambda>_. ?Q) (\<lambda>_ _. True) w"
    unfolding auth_logout_def post_obind [of "ocatch m h" for m h] post_def [of "ocatch m h" for m h] verify prod.case sum.case
    using go unfolding post_obind [of "read_world g" for g] post_read by (cases "validateAccessClaims (rules (w_env w)) claims") simp_all
  from post_InrD [OF this assms(1)] show ?thesis .
qed

lemma marked_refused:
  assumes "fault_free w" "au_verify (e_auth (w_env w)) (w_tick w) acc = Inr claims" "marked w (Suc (w_tick w)) claims"
  shows "isl (fst (EnsureNotRevoked acc w)) \<and> isl (fst (EnsureActiveToken acc w))"
proof -
  have ff: "fault_free (tick w)" using assms(1) by (simp add: fault_free_def)
  have mark: "marked (tick w) (w_tick (tick w)) claims" using assms(3) by (simp add: marked_def)
  obtain rep w' where rep: "Introspect acc w = (Inr rep, w')" "\<not> ir_active rep"
    using introspect_run [OF assms(1), of acc] assms(2,3) by auto
  have "isl (fst (EnsureActiveToken acc w))"
    using rep by (simp add: EnsureActiveToken_def obind_def raise_def)
  moreover have "isl (fst (EnsureNotRevoked acc w))"
    using assms(2) isRevoked_run [OF ff, of claims] mark
    by (simp add: EnsureNotRevoked_def obind_def VerifyAccessToken_def raise_def)
  ultimately show ?thesis by simp
qed

text \<open>C39. A logout retires the access token it was made with: from the moment of its mark and for the lifetime of
  an access token, as long as the marks are kept and no store fails, both token gates refuse
  the token.\<close>

theorem logout_retires_token:
  assumes "Logout acc ref w = (Inr r, w')" "fault_free w" "au_verify (e_auth (w_env w)) (w_tick w) acc = Inr claims"
    "0 < cf_access_ttl (au_cfg (e_auth (w_env w)))"
  shows "\<exists>t. w_tick w \<le> t \<and> t < w_tick w' \<and> (\<forall>w2. w_env w2 = w_env w \<and> set (w_valkey w') \<subseteq> set (w_valkey w2)
      \<and> au_verify (e_auth (w_env w)) (w_tick w2) acc = Inr claims
      \<and> clock (w_env w) (Suc (w_tick w2)) < clock (w_env w) t + cf_access_ttl (au_cfg (e_auth (w_env w)))
      \<longrightarrow> isl (fst (EnsureNotRevoked acc w2)) \<and> isl (fst (EnsureActiveToken acc w2)))"
proof -
  obtain t where t: "w_tick w \<le> t" "t < w_tick w'"
    "(blacklist_key (cl_jti claims), clock (w_env w) t + cf_access_ttl (au_cfg (e_auth (w_env w)))) \<in> set (w_valkey w')"
    using logout_marks [OF assms(1) [unfolded Logout_def] assms(2-4) advances_revokeFunc] by blast
  have "isl (fst (EnsureNotRevoked acc w2)) \<and> isl (fst (EnsureActiveToken acc w2))"
    if w2: "w_env w2 = w_env w" "set (w_valkey w') \<subseteq> set (w_valkey w2)" "au_verify (e_auth (w_env w)) (w_tick w2) acc = Inr claims"
      "clock (w_env w) (Suc (w_tick w2)) < clock (w_env w) t + cf_access_ttl (au_cfg (e_auth (w_env w)))" for w2
  proof (rule marked_refused)
    show "fault_free w2" using assms(2) w2(1) by (simp add: fault_free_def)
    show "au_verify (e_auth (w_env w2)) (w_tick w2) acc = Inr claims" using w2(1,3) by simp
    show "marked w2 (Suc (w_tick w2)) claims" unfolding marked_def using t(3) w2 by fastforce
  qed
  with t(1,2) show ?thesis by blast
qed

definition signed_world :: "db \<Rightarrow> world" where
  "signed_world d = (quiet_world d)\<lparr>w_env := quiet_env\<lparr>e_auth := quiet_auth\<lparr>au_uuid_parse := (\<lambda>_. Some 1)\<rparr>\<rparr>\<rparr>"

theorem logout_retires_token_witness:
  "fst (Logout ''t'' [] (signed_world sample_sessions)) = Inr ()
   \<and> (\<exists>t. t < w_tick (snd (Logout ''t'' [] (signed_world sample_sessions))))"
proof -
  let ?r = "Logout ''t'' [] (signed_world sample_sessions)"
  have ok: "fst ?r = Inr ()" by code_simp
  then have run: "?r = (Inr (), snd ?r)" by (metis prod.collapse)
  have "fault_free (signed_world sample_sessions)"
    "au_verify (e_auth (w_env (signed_world sample_sessions))) (w_tick (signed_world sample_sessions)) ''t'' = Inr sample_claims"
    "0 < cf_access_ttl (au_cfg (e_auth (w_env (signed_world sample_sessions))))"
    by (simp_all add: signed_world_def quiet_world_def quiet_env_def quiet_auth_def fault_free_def minute_def second_def)
  from logout_retires_token [OF run this] ok show ?thesis by blast
qed

end
