(* ===== verification/Retry.thy ===== *)
theory Retry
  imports MaintStore
begin

text \<open>
  The retry of serialization failures (\<open>TxManager.WithinSerializableTx\<close> in
  \<open>internal/utils/dbtx/tx_manager.go\<close>): how often the body runs, from which tables, and what
  is left when it gives up.
\<close>

section \<open>Attempts\<close>

text \<open>The worlds in which a body was attempted: every attempt but the last failed to serialize and the caller was still waiting.\<close>

inductive attempts :: "'a op \<Rightarrow> world list \<Rightarrow> bool" for fn :: "'a op" where
  first: "attempts fn [w]"
| again: "attempts fn (v # vs) \<Longrightarrow> WithinTx fn w = (Inl PgSerializationFailure, w1) \<Longrightarrow> \<not> ctx_done (w_env w1) (w_tick w1) \<Longrightarrow>
    v = tick w1 \<Longrightarrow> attempts fn (w # v # vs)"

text \<open>How the last attempt ends the operation.\<close>

definition concludes :: "'a op \<Rightarrow> world \<Rightarrow> apperr + 'a \<Rightarrow> world \<Rightarrow> bool" where
  "concludes fn v r w' \<longleftrightarrow> WithinTx fn v = (r, w')
     \<or> (\<exists>w1. WithinTx fn v = (Inl PgSerializationFailure, w1) \<and> ctx_done (w_env w1) (w_tick w1) \<and> r = Inl ErrContextDone \<and> w' = tick w1)"

lemma attempts_nonempty: "attempts fn vs \<Longrightarrow> vs \<noteq> []"
  by (cases rule: attempts.cases) auto

lemma attempts_run:
  assumes "serializable_attempts (Suc n) fn w = (r, w')"
  shows "\<exists>vs. attempts fn vs \<and> hd vs = w \<and> length vs \<le> Suc n \<and> concludes fn (last vs) r w'
    \<and> (r = Inl PgSerializationFailure \<longrightarrow> length vs = Suc n)"
  using assms
proof (induction n arbitrary: w)
  case 0
  obtain r1 w1 where run: "WithinTx fn w = (r1, w1)" by fastforce
  with 0 have "r = r1" "w' = w1" by (auto split: sum.splits if_splits)
  with run show ?case by (intro exI [of _ "[w]"]) (simp add: attempts.first concludes_def)
next
  case (Suc n)
  obtain r1 w1 where run: "WithinTx fn w = (r1, w1)" by fastforce
  show ?case
  proof (cases "r1 = Inl PgSerializationFailure \<and> \<not> ctx_done (w_env w1) (w_tick w1)")
    case False
    with run Suc.prems have "concludes fn w r w' \<and> r \<noteq> Inl PgSerializationFailure"
      by (auto simp: concludes_def split: sum.splits if_splits)
    then show ?thesis by (intro exI [of _ "[w]"]) (simp add: attempts.first)
  next
    case True
    with run Suc.prems have "serializable_attempts (Suc n) fn (tick w1) = (r, w')" by simp
    from Suc.IH [OF this] obtain vs where vs: "attempts fn vs" "hd vs = tick w1" "length vs \<le> Suc n" "concludes fn (last vs) r w'"
      "r = Inl PgSerializationFailure \<longrightarrow> length vs = Suc n" by blast
    then obtain us where "vs = tick w1 # us" using attempts_nonempty by (cases vs) auto
    with vs run True have "attempts fn (w # vs)" by (auto intro: attempts.again)
    with vs attempts_nonempty [OF vs(1)] show ?thesis by (intro exI [of _ "w # vs"]) simp
  qed
qed

lemma attempts_tables:
  assumes "attempts fn vs" "db_only fn" "w_tx (hd vs) = None" "v \<in> set vs"
  shows "w_db v = w_db (hd vs) \<and> w_tx v = None"
  using assms
proof (induction rule: attempts.induct)
  case (again v' vs w w1)
  from again.hyps(2) have "w_db w1 = w_db w" "w_tx w1 = None"
    using again.prems by (auto elim!: WithinTx_cases simp: same_frame_def)
  with again show ?case by auto
qed auto

text \<open>C40. The serializable retry terminates and is transparent: outside a transaction the body is attempted between one
  and \<open>serializableMaxAttempts\<close> times, each time from the tables the operation found and only after
  a serialization failure; a serialization failure is reported only when every attempt was used,
  and whenever an error is reported the tables are the ones it found.\<close>

theorem serializable_retry_bounded:
  assumes "WithinSerializableTx fn w = (r, w')" "w_tx w = None" "db_only fn"
  shows "\<exists>vs. attempts fn vs \<and> hd vs = w \<and> 1 \<le> length vs \<and> length vs \<le> serializableMaxAttempts
    \<and> list_all (\<lambda>v. w_db v = w_db w) vs \<and> concludes fn (last vs) r w'
    \<and> (r = Inl PgSerializationFailure \<longrightarrow> length vs = serializableMaxAttempts)
    \<and> (isl r \<longrightarrow> w_db w' = w_db w)"
proof -
  have run: "serializable_attempts (Suc 9) fn w = (r, w')"
    using assms(1,2) by (simp add: WithinSerializableTx_def serializableMaxAttempts_def numeral_eq_Suc)
  from attempts_run [OF run] obtain vs where vs: "attempts fn vs" "hd vs = w" "length vs \<le> Suc 9" "concludes fn (last vs) r w'"
    "r = Inl PgSerializationFailure \<longrightarrow> length vs = Suc 9" by blast
  have "list_all (\<lambda>v. w_db v = w_db w) vs"
    using attempts_tables [OF vs(1) assms(3)] assms(2) vs(2) by (auto simp: list_all_iff)
  moreover have "isl r \<longrightarrow> w_db w' = w_db w"
    using serializable_cases [OF run assms(2,3)] by (metis sum.disc(2))
  moreover have "1 \<le> length vs" using attempts_nonempty [OF vs(1)] by (cases vs) auto
  ultimately show ?thesis using vs by (auto simp: serializableMaxAttempts_def)
qed

theorem serializable_retry_bounded_witness:
  "\<exists>vs. attempts (db_query d_maints) vs \<and> hd vs = quiet_world empty_db \<and> length vs \<le> serializableMaxAttempts"
proof -
  have "w_tx (quiet_world empty_db) = None" by (simp add: quiet_world_def)
  from serializable_retry_bounded [OF surjective_pairing this db_only_query] show ?thesis by blast
qed

end
