(* ===== verification/Invitations.thy ===== *)
theory Invitations
  imports Identities
begin

text \<open>
  Invitations: \<open>internal/entity/invitation.go\<close>, the table \<open>internal/storages/userinvitations\<close>,
  the service \<open>internal/services/invitation\<close> (issue, resend, revoke, preview, list, the
  rotation and the pruning of old rows) and the claimer
  \<open>internal/services/invitation/claimer\<close>, which spends an invitation on an account. A
  pending invitation with a paid role reserves a seat from the moment it is sent.
\<close>

section \<open>The entity\<close>

definition EffectiveStatus :: "invitation_row \<Rightarrow> time \<Rightarrow> invitation_status" where
  "EffectiveStatus i now = (if inv_status i = InvitationPending \<and> inv_expires_at i < now then InvitationExpired else inv_status i)"

datatype preview_status = PreviewValid | PreviewInvalid | PreviewExpired | PreviewAccepted | PreviewRevoked

definition PreviewStatus :: "invitation_row \<Rightarrow> time \<Rightarrow> preview_status" where
  "PreviewStatus i now = (case EffectiveStatus i now of InvitationPending \<Rightarrow> PreviewValid | InvitationExpired \<Rightarrow> PreviewExpired
     | InvitationAccepted \<Rightarrow> PreviewAccepted | InvitationRevoked \<Rightarrow> PreviewRevoked)"

record create_invitation_cmd =
  ci_actor :: "user option"
  ci_email :: string
  ci_roles :: "role list"

record invitation_cmd =
  ic_actor :: "user option"
  ic_id :: uuid

record resolved_invitation =
  ri_id :: uuid
  ri_roles :: "role list"

section \<open>The table\<close>

definition same_email :: "env \<Rightarrow> string \<Rightarrow> string \<Rightarrow> bool" where
  "same_email e a b = (au_pg_lower (e_auth e) a = au_pg_lower (e_auth e) b)"

text \<open>
  The insert: identifier and \<open>created_at\<close> by their defaults; the unique indexes on the
  token hash and, among pending rows, on the lower-cased address; the inviter's foreign key.
\<close>

definition invitation_insert :: "env \<Rightarrow> nat \<Rightarrow> db \<Rightarrow> invitation_row \<Rightarrow> apperr + (invitation_row \<times> db)" where
  "invitation_insert e t d i = (let x = d_auth d;
       row = i\<lparr>inv_id := gen e t 0, inv_expires_at := pg_time e (inv_expires_at i), inv_sent_at := pg_time e (inv_sent_at i),
         inv_created_at := pg_time e (clock e t)\<rparr> in
     if \<exists>r \<in> set (a_invitations x). inv_id r = inv_id row \<or> inv_token_hash r = inv_token_hash row
         \<or> inv_status r = InvitationPending \<and> inv_status row = InvitationPending \<and> same_email e (inv_email r) (inv_email row)
     then Inl PgUniqueViolation
     else if inv_invited_by row \<notin> u_id ` set (d_users d) then Inl PgForeignKeyViolation
     else Inr (row, d\<lparr>d_auth := x\<lparr>a_invitations := a_invitations x @ [row]\<rparr>\<rparr>))"

definition invitations_Create :: "invitation_row \<Rightarrow> invitation_row op" where
  "invitations_Create i = ocatch (db_call (\<lambda>e t d. invitation_insert e t d i))
     (\<lambda>err. if err = PgUniqueViolation then raise ErrActivePendingExists else raise err)"

definition invitations_get :: "(env \<Rightarrow> invitation_row \<Rightarrow> bool) \<Rightarrow> invitation_row op" where
  "invitations_get p = obind (auth_query (\<lambda>e _ x. find (p e) (a_invitations x)))
     (\<lambda>r. case r of None \<Rightarrow> raise ErrInvitationNotFound | Some i \<Rightarrow> ret i)"

definition invitations_GetByID :: "uuid \<Rightarrow> invitation_row op" where
  "invitations_GetByID i = invitations_get (\<lambda>_ r. inv_id r = i)"

definition invitations_GetForUpdateByID :: "uuid \<Rightarrow> invitation_row op" where
  "invitations_GetForUpdateByID i = invitations_get (\<lambda>_ r. inv_id r = i)"

definition invitations_GetByTokenHash :: "string \<Rightarrow> invitation_row op" where
  "invitations_GetByTokenHash h = invitations_get (\<lambda>_ r. inv_token_hash r = h)"

definition GetActivePendingByEmail :: "string \<Rightarrow> invitation_row op" where
  "GetActivePendingByEmail email = invitations_get (\<lambda>e r. same_email e (inv_email r) email \<and> inv_status r = InvitationPending)"

text \<open>An update of the rows a predicate selects; it answers how many there were.\<close>

definition update_invitations :: "(env \<Rightarrow> invitation_row \<Rightarrow> bool) \<Rightarrow> (env \<Rightarrow> invitation_row \<Rightarrow> invitation_row) \<Rightarrow> int op" where
  "update_invitations p f = on_auth (\<lambda>e _ x. Inr (int (length (filter (p e) (a_invitations x))),
     x\<lparr>a_invitations := map (\<lambda>r. if p e r then f e r else r) (a_invitations x)\<rparr>))"

definition SetRevoked :: "uuid \<Rightarrow> time \<Rightarrow> unit op" where
  "SetRevoked i revokedAt = osequel (update_invitations (\<lambda>_ r. inv_id r = i)
     (\<lambda>e r. r\<lparr>inv_status := InvitationRevoked, inv_revoked_at := Some (pg_time e revokedAt)\<rparr>)) (ret ())"

text \<open>The unique index on the token hash is checked by the update; no row is the driver's "no rows" error.\<close>

definition resend_row :: "env \<Rightarrow> string \<Rightarrow> time \<Rightarrow> time \<Rightarrow> invitation_row \<Rightarrow> invitation_row" where
  "resend_row e tokenHash expiresAt sentAt r =
     r\<lparr>inv_token_hash := tokenHash, inv_expires_at := pg_time e expiresAt, inv_sent_at := pg_time e sentAt\<rparr>"

definition invitations_Resend :: "uuid \<Rightarrow> string \<Rightarrow> time \<Rightarrow> time \<Rightarrow> invitation_row op" where
  "invitations_Resend i tokenHash expiresAt sentAt = on_auth (\<lambda>e _ x.
     case find (\<lambda>r. inv_id r = i) (a_invitations x) of None \<Rightarrow> Inl (PgOther 0)
     | Some r \<Rightarrow> if \<exists>q \<in> set (a_invitations x). inv_id q \<noteq> i \<and> inv_token_hash q = tokenHash then Inl PgUniqueViolation
         else Inr (resend_row e tokenHash expiresAt sentAt r, x\<lparr>a_invitations :=
           map (\<lambda>r. if inv_id r = i then resend_row e tokenHash expiresAt sentAt r else r) (a_invitations x)\<rparr>))"

definition claimable :: "uuid \<Rightarrow> time \<Rightarrow> env \<Rightarrow> invitation_row \<Rightarrow> bool" where
  "claimable i now e r \<longleftrightarrow> inv_id r = i \<and> inv_status r = InvitationPending \<and> inv_expires_at r > pg_time e now"

definition MarkAccepted :: "uuid \<Rightarrow> bool op" where
  "MarkAccepted i = obind UTCNow (\<lambda>now. obind (update_invitations (claimable i now)
     (\<lambda>e r. r\<lparr>inv_status := InvitationAccepted, inv_accepted_at := Some (pg_time e now)\<rparr>)) (\<lambda>n. ret (n > 0)))"

text \<open>The identifiers one batch selects: the oldest rows of a predicate, up to the limit.\<close>

definition oldest :: "(invitation_row \<Rightarrow> time) \<Rightarrow> (invitation_row \<Rightarrow> bool) \<Rightarrow> int \<Rightarrow> invitation_row list \<Rightarrow> uuid list" where
  "oldest key p limit rows = map inv_id (take (nat limit) (sort_func (\<lambda>a b. ord_cmp (key a) (key b)) (filter p rows)))"

definition ExpireOlderThan :: "time \<Rightarrow> int \<Rightarrow> int op" where
  "ExpireOlderThan now limit = on_auth (\<lambda>e _ x. if limit < 0 then Inl (PgOther 2201) else
     let ids = oldest inv_expires_at (\<lambda>r. inv_status r = InvitationPending \<and> inv_expires_at r < pg_time e now) limit (a_invitations x) in
     Inr (int (length (filter (\<lambda>r. inv_id r \<in> set ids) (a_invitations x))),
       x\<lparr>a_invitations := map (\<lambda>r. if inv_id r \<in> set ids then r\<lparr>inv_status := InvitationExpired\<rparr> else r) (a_invitations x)\<rparr>))"

definition PruneTerminalOlderThan :: "time \<Rightarrow> int \<Rightarrow> int op" where
  "PruneTerminalOlderThan cutoff limit = on_auth (\<lambda>e _ x. if limit < 0 then Inl (PgOther 2201) else
     let ids = oldest inv_created_at (\<lambda>r. inv_status r \<noteq> InvitationPending \<and> inv_created_at r < pg_time e cutoff) limit (a_invitations x) in
     Inr (int (length (filter (\<lambda>r. inv_id r \<in> set ids) (a_invitations x))),
       x\<lparr>a_invitations := filter (\<lambda>r. inv_id r \<notin> set ids) (a_invitations x)\<rparr>))"

text \<open>The admin list: the filter on status, joined with the inviter, newest first.\<close>

definition list_where :: "invitation_status option \<Rightarrow> time \<Rightarrow> invitation_row \<Rightarrow> bool" where
  "list_where st now r = (case st of
       Some InvitationPending \<Rightarrow> inv_status r = InvitationPending \<and> inv_expires_at r \<ge> now
     | Some InvitationExpired \<Rightarrow> inv_status r = InvitationExpired \<or> inv_status r = InvitationPending \<and> inv_expires_at r < now
     | Some s \<Rightarrow> inv_status r = s
     | None \<Rightarrow> True)"

definition newest_first :: "invitation_row \<times> user \<Rightarrow> invitation_row \<times> user \<Rightarrow> int" where
  "newest_first a b = (if inv_sent_at (fst a) \<noteq> inv_sent_at (fst b) then ord_cmp (inv_sent_at (fst b)) (inv_sent_at (fst a))
     else ord_cmp (inv_id (fst b)) (inv_id (fst a)))"

definition invitations_List :: "invitation_status option \<Rightarrow> (invitation_row \<times> uuid \<times> string \<times> string) list op" where
  "invitations_List st = obind UTCNow (\<lambda>now. db_call (\<lambda>e _ d. Inr (map (\<lambda>(i, u). (i, inv_invited_by i, u_name u, u_email u))
     (sort_func newest_first (concat (map (\<lambda>i. map (Pair i) (filter (\<lambda>u. u_id u = inv_invited_by i) (d_users d)))
       (filter (list_where st (pg_time e now)) (a_invitations (d_auth d)))))), d)))"

section \<open>The service\<close>

definition defaultInvitationTTL :: duration where "defaultInvitationTTL = 7 * 24 * 60 * minute"

definition invitation_ttl :: "auth_cfg \<Rightarrow> duration" where
  "invitation_ttl cfg = (if cf_invitation_ttl cfg \<le> 0 then defaultInvitationTTL else cf_invitation_ttl cfg)"

definition user_GetByEmail :: "string \<Rightarrow> user op" where
  "user_GetByEmail email = users_GetByEmail email"

definition GenerateToken :: "(string \<times> string) op" where
  "GenerateToken w = (case au_random (e_auth (w_env w)) (w_tick w) of Inl e \<Rightarrow> (Inl e, tick w)
     | Inr raw \<Rightarrow> (Inr (raw, sha256_hex (w_env w) raw), tick w))"

text \<open>\<open>url.QueryEscape\<close>: unreserved bytes as they are, the space as a plus, the rest in hexadecimal.\<close>

definition upper_hex :: "nat \<Rightarrow> char" where
  "upper_hex n = ''0123456789ABCDEF'' ! (n mod 16)"

definition escape_byte :: "char \<Rightarrow> string" where
  "escape_byte c = (if tag_start c \<or> c \<in> set ''-_.~'' then [c] else if c = CHR 0x20 then ''+''
     else let n = of_char c in [CHR 0x25, upper_hex (n div 16), upper_hex n])"

definition QueryEscape :: "string \<Rightarrow> string" where
  "QueryEscape s = concat (map escape_byte s)"

definition buildAcceptLink :: "string \<Rightarrow> string \<Rightarrow> string" where
  "buildAcceptLink frontendURL rawToken = frontendURL @ ''/accept-invite?token='' @ QueryEscape rawToken"

text \<open>Whole days, rounded up and at least one; for lifetimes of whole seconds the float64 of the code rounds to the same day.\<close>

definition expiresInPhrase :: "duration \<Rightarrow> string" where
  "expiresInPhrase ttl = (let day = 24 * 60 * minute; days = max (- ((- ttl) div day)) 1 in
     if days = 1 then ''1 day'' else show_nat (nat days) @ '' days'')"

definition invitationEmailIdempotencyKey :: "env \<Rightarrow> invitation_row \<Rightarrow> string" where
  "invitationEmailIdempotencyKey e i = sha256_hex e (''invitation-email:'' @ uuid_string (inv_id i) @ '':'' @ inv_token_hash i)"

definition SendAsync :: "string \<Rightarrow> string \<Rightarrow> string \<Rightarrow> notify_message \<Rightarrow> message_ref option \<Rightarrow> string \<Rightarrow> unit op" where
  "SendAsync taskType trName target msg replyTo key =
     osequel (scheduler_Schedule taskType (EventNotifyPayload trName target msg replyTo) key) (ret ())"

definition sendInvitationEmail :: "invitation_row \<Rightarrow> string \<Rightarrow> unit op" where
  "sendInvitationEmail i link = obind (read_world w_env) (\<lambda>e.
     case au_render_invitation (e_auth e) link (expiresInPhrase (invitation_ttl (au_cfg (e_auth e)))) of
       Inl err \<Rightarrow> raise err
     | Inr body \<Rightarrow> SendAsync ''invitation.email'' ''email'' (inv_email i)
         \<lparr>nm_subject = ''You'' @ [CHR 0x27] @ ''ve been invited to MaintMode'', nm_body = trim_space body, nm_mime = ''text/html''\<rparr>
         None (invitationEmailIdempotencyKey e i))"

definition revokeActiveInvitation :: "time \<Rightarrow> string \<Rightarrow> unit op" where
  "revokeActiveInvitation now email = obind (optional ErrInvitationNotFound (GetActivePendingByEmail email)) (\<lambda>stale.
     case stale of None \<Rightarrow> ret () | Some i \<Rightarrow> SetRevoked (inv_id i) now)"

definition new_invitation :: "create_invitation_cmd \<Rightarrow> user \<Rightarrow> string \<Rightarrow> duration \<Rightarrow> time \<Rightarrow> invitation_row" where
  "new_invitation cmd actor h ttl now = \<lparr>inv_id = nil_uuid, inv_email = ci_email cmd, inv_roles = ci_roles cmd, inv_token_hash = h,
     inv_status = InvitationPending, inv_invited_by = u_id actor, inv_expires_at = now + ttl, inv_sent_at = now,
     inv_accepted_at = None, inv_revoked_at = None, inv_created_at = zero_time\<rparr>"

text \<open>The actor is dereferenced when the row is built: a missing one panics inside the transaction.\<close>

definition invite_tx :: "create_invitation_cmd \<Rightarrow> string \<Rightarrow> string \<Rightarrow> invitation_row op" where
  "invite_tx cmd raw h = obind UTCNow (\<lambda>now.
     osequel (revokeActiveInvitation now (ci_email cmd))
     (osequel (if RoleOccupiesSeat (HighestRole (ci_roles cmd)) then EnsureSeatAvailable else ret ())
     (case ci_actor cmd of None \<Rightarrow> raise Panic | Some actor \<Rightarrow>
       obind (read_world w_env) (\<lambda>e.
       obind (invitations_Create (new_invitation cmd actor h (invitation_ttl (au_cfg (e_auth e))) now)) (\<lambda>created.
       osequel (sendInvitationEmail created (buildAcceptLink (frontend_url e) raw)) (ret created))))))"

definition invitation_Create :: "create_invitation_cmd \<Rightarrow> invitation_row op" where
  "invitation_Create cmd = (if ci_roles cmd = [] then raise ErrValidation
     else if \<not> list_all Role_Valid (ci_roles cmd) then raise ErrInvalidRole
     else if IsBreakGlassEmail (ci_email cmd) then raise ErrValidation
     else obind (optional ErrUserNotFound (user_GetByEmail (ci_email cmd))) (\<lambda>exist.
       if exist \<noteq> None then raise ErrUserAlreadyExists else
       obind GenerateToken (\<lambda>(raw, h).
       obind (WithinTx (invite_tx cmd raw h)) (\<lambda>created.
       osequel (case ci_actor cmd of None \<Rightarrow> ret () | Some actor \<Rightarrow> user_publishAudit (AuditInvitationCreated actor created)) (ret created)))))"

definition resend_tx :: "uuid \<Rightarrow> time \<Rightarrow> string \<Rightarrow> string \<Rightarrow> unit op" where
  "resend_tx i now raw h = obind (invitations_GetForUpdateByID i) (\<lambda>invite. case EffectiveStatus invite now of
       InvitationPending \<Rightarrow> obind (read_world w_env) (\<lambda>e.
         obind (invitations_Resend (inv_id invite) h (now + invitation_ttl (au_cfg (e_auth e))) now) (\<lambda>resended.
         sendInvitationEmail resended (buildAcceptLink (frontend_url e) raw)))
     | InvitationExpired \<Rightarrow> raise ErrInvitationExpired
     | _ \<Rightarrow> raise ErrInvitationNotPending)"

definition invitation_Resend :: "invitation_cmd \<Rightarrow> unit op" where
  "invitation_Resend cmd = obind UTCNow (\<lambda>now. obind GenerateToken (\<lambda>(raw, h). WithinTx (resend_tx (ic_id cmd) now raw h)))"

definition revoke_invitation_tx :: "uuid \<Rightarrow> invitation_row option op" where
  "revoke_invitation_tx i = obind (invitations_GetForUpdateByID i) (\<lambda>invite. case inv_status invite of
       InvitationRevoked \<Rightarrow> ret None
     | InvitationAccepted \<Rightarrow> raise ErrInvitationNotPending
     | _ \<Rightarrow> obind UTCNow (\<lambda>now. osequel (SetRevoked (inv_id invite) now) (ret (Some invite))))"

definition invitation_Revoke :: "invitation_cmd \<Rightarrow> unit op" where
  "invitation_Revoke cmd = obind (WithinTx (revoke_invitation_tx (ic_id cmd))) (\<lambda>revoked.
     case revoked of None \<Rightarrow> ret () | Some invite \<Rightarrow> user_publishAudit (AuditInvitationRevoked (ic_actor cmd) invite))"

definition invitation_Preview :: "string \<Rightarrow> preview_status op" where
  "invitation_Preview rawToken = (if rawToken = [] then ret PreviewInvalid else
     obind (read_world (\<lambda>w. sha256_hex (w_env w) rawToken)) (\<lambda>h.
     obind (optional ErrInvitationNotFound (invitations_GetByTokenHash h)) (\<lambda>found.
       case found of None \<Rightarrow> ret PreviewInvalid | Some i \<Rightarrow> obind UTCNow (\<lambda>now. ret (PreviewStatus i now)))))"

definition invitation_List :: "invitation_status option \<Rightarrow> (invitation_row \<times> uuid \<times> string \<times> string) list op" where
  "invitation_List st = invitations_List st"

text \<open>The sweeps: batches until one comes back short, at most a fixed number of them.\<close>

fun drain :: "nat \<Rightarrow> int op \<Rightarrow> int \<Rightarrow> unit op" where
  "drain 0 batch limit = ret ()"
| "drain (Suc n) batch limit = obind batch (\<lambda>k. if k < limit then ret () else drain n batch limit)"

definition maxRotateBatches :: nat where "maxRotateBatches = 100"
definition defaultRotateBatchLimit :: int where "defaultRotateBatchLimit = 1000"
definition maxInvitationPruneBatches :: nat where "maxInvitationPruneBatches = 100"
definition defaultInvitationPruneBatchLimit :: int where "defaultInvitationPruneBatchLimit = 1000"
definition defaultInvitationPruneRetention :: duration where "defaultInvitationPruneRetention = 365 * 24 * 60 * minute"

definition invitation_Rotate :: "int \<Rightarrow> unit op" where
  "invitation_Rotate batchLimit = (let limit = (if batchLimit \<le> 0 then defaultRotateBatchLimit else batchLimit) in
     obind UTCNow (\<lambda>now. drain maxRotateBatches (ExpireOlderThan now limit) limit))"

definition invitation_Prune :: "duration \<Rightarrow> int \<Rightarrow> unit op" where
  "invitation_Prune retention batchLimit = (
     let limit = (if batchLimit \<le> 0 then defaultInvitationPruneBatchLimit else batchLimit);
         keep = (if retention \<le> 0 then defaultInvitationPruneRetention else retention) in
     obind UTCNow (\<lambda>now. drain maxInvitationPruneBatches (PruneTerminalOlderThan (now + i64 (- keep)) limit) limit))"

section \<open>The claimer\<close>

definition ResolveByToken :: "string \<Rightarrow> invitation_row op" where
  "ResolveByToken rawToken = (if rawToken = [] then raise ErrInvalidInvitation else
     obind (read_world (\<lambda>w. sha256_hex (w_env w) rawToken)) (\<lambda>h.
     obind (optional ErrInvitationNotFound (invitations_GetByTokenHash h)) (\<lambda>found.
       case found of None \<Rightarrow> raise ErrInvalidInvitation | Some i \<Rightarrow> obind UTCNow (\<lambda>now.
         if EffectiveStatus i now \<noteq> InvitationPending then raise ErrInvalidInvitation else ret i))))"

text \<open>The handles of invited sign-ins, in the key-value store: set replaces, get-and-delete takes a live one once.\<close>

definition invitation_key :: "env \<Rightarrow> string \<Rightarrow> string" where
  "invitation_key e handle = ''oauth:invitation:'' @ sha256_hex e handle"

definition PutInvitationHandle :: "string \<Rightarrow> uuid \<Rightarrow> unit op" where
  "PutInvitationHandle handle i w = (case fault (w_env w) (w_tick w) of Some err \<Rightarrow> (Inl err, tick w)
     | None \<Rightarrow> (let k = invitation_key (w_env w) handle in (Inr (), (tick w)\<lparr>w_handles :=
         (k, i, clock (w_env w) (w_tick w) + DanceStateTTL (au_cfg (e_auth (w_env w)))) # filter (\<lambda>h. fst h \<noteq> k) (w_handles w)\<rparr>)))"

definition ConsumeInvitationHandle :: "string \<Rightarrow> uuid option op" where
  "ConsumeInvitationHandle handle w = (case fault (w_env w) (w_tick w) of Some err \<Rightarrow> (Inl err, tick w)
     | None \<Rightarrow> (let k = invitation_key (w_env w) handle in
         (Inr (map_option (\<lambda>(_, i, _). i) (find (\<lambda>(h, _, until). h = k \<and> clock (w_env w) (w_tick w) < until) (w_handles w))),
          (tick w)\<lparr>w_handles := filter (\<lambda>h. fst h \<noteq> k) (w_handles w)\<rparr>)))"

definition PrepareHandle :: "string \<Rightarrow> string \<Rightarrow> unit op" where
  "PrepareHandle handle invitationToken = obind (read_world (\<lambda>w. sha256_hex (w_env w) invitationToken)) (\<lambda>h.
     obind (optional ErrInvitationNotFound (invitations_GetByTokenHash h)) (\<lambda>found.
       PutInvitationHandle handle (case found of None \<Rightarrow> nil_uuid | Some i \<Rightarrow> inv_id i)))"

text \<open>\<open>xemail.EqualIgnoreCase\<close> compares the lower-cased addresses by the library's case folding.\<close>

definition EqualIgnoreCase :: "env \<Rightarrow> string \<Rightarrow> string \<Rightarrow> bool" where
  "EqualIgnoreCase e a b = au_equal_fold (e_auth e) (to_lower a) (to_lower b)"

definition ResolveForIdentity :: "string \<Rightarrow> oauth_claims \<Rightarrow> resolved_invitation op" where
  "ResolveForIdentity handle claims = obind (ConsumeInvitationHandle handle) (\<lambda>redeemed.
     case redeemed of None \<Rightarrow> raise ErrInvalidInvitation | Some i \<Rightarrow>
     obind (optional ErrInvitationNotFound (invitations_GetByID i)) (\<lambda>found.
     case found of None \<Rightarrow> raise ErrInvalidInvitation | Some invite \<Rightarrow>
     obind UTCNow (\<lambda>now. obind (read_world w_env) (\<lambda>e.
       if EffectiveStatus invite now \<noteq> InvitationPending then raise ErrInvalidInvitation
       else if \<not> oc_email_verified claims then raise ErrEmailMismatch
       else if \<not> EqualIgnoreCase e (oc_email claims) (inv_email invite) then raise ErrEmailMismatch
       else ret \<lparr>ri_id = inv_id invite, ri_roles = inv_roles invite\<rparr>))))"

definition claim_tx :: "resolved_invitation \<Rightarrow> uuid \<Rightarrow> user op" where
  "claim_tx invite uid = obind (MarkAccepted (ri_id invite)) (\<lambda>claimed. if \<not> claimed then raise ErrInvalidInvitation else
     AssignRoles \<lparr>rc_actor = Some SystemUser, rc_user_id = uid, rc_roles = ri_roles invite\<rparr>)"

definition ClaimForUser :: "resolved_invitation \<Rightarrow> uuid \<Rightarrow> user op" where
  "ClaimForUser invite uid = WithinTx_outbox (claim_tx invite uid)"

end
