(* ===== verification/OneTimeCodes.thy ===== *)
theory OneTimeCodes
  imports Invitations
begin

text \<open>
  One-time codes and passwords: the table \<open>internal/storages/authcredentials\<close>, code
  generation (\<open>internal/utils/xcripto/otp.go\<close>) and the service \<open>internal/services/otp\<close>
  (request, verify, prune). A user has at most one unconsumed code; each guess is counted
  before it is compared, and a code whose guesses are spent keeps its place until it
  expires.
\<close>

section \<open>Generating a code\<close>

definition otpCodeDigits :: nat where "otpCodeDigits = 6"
definition otpCodeSpace :: nat where "otpCodeSpace = 1000000"
definition otpRejectionCeiling :: nat where "otpRejectionCeiling = 2 ^ 32 - 2 ^ 32 mod otpCodeSpace"

definition pad_zeros :: "nat \<Rightarrow> string \<Rightarrow> string" where
  "pad_zeros k s = replicate (k - length s) (CHR 0x30) @ s"

text \<open>The reads of the entropy source: 32-bit values until it fails.\<close>

fun generateOTPCode :: "32 word list \<Rightarrow> apperr \<Rightarrow> apperr + string" where
  "generateOTPCode [] err = Inl err"
| "generateOTPCode (n # ns) err = (if unat n \<ge> otpRejectionCeiling then generateOTPCode ns err
     else Inr (pad_zeros otpCodeDigits (show_nat (unat n mod otpCodeSpace))))"

definition GenerateOTPCode :: "(string \<times> string) op" where
  "GenerateOTPCode w = (case case_prod generateOTPCode (au_entropy (e_auth (w_env w)) (w_tick w)) of
     Inl e \<Rightarrow> (Inl e, tick w) | Inr code \<Rightarrow> (Inr (code, sha256_hex (w_env w) code), tick w))"

section \<open>Settings\<close>

definition defaultTTL :: duration where "defaultTTL = 5 * minute"
definition defaultMaxAttempts :: int where "defaultMaxAttempts = 5"
definition maxAllowedAttempts :: int where "maxAllowedAttempts = 10"
definition defaultReissueCooldown :: duration where "defaultReissueCooldown = minute"

definition otp_TTL :: "auth_cfg \<Rightarrow> duration" where
  "otp_TTL cfg = (if cf_otp_ttl cfg \<le> 0 then defaultTTL else cf_otp_ttl cfg)"

text \<open>The conversion to \<open>int16\<close> wraps.\<close>

definition i16 :: "int \<Rightarrow> int" where
  "i16 n = (n + 2 ^ 15) mod 2 ^ 16 - 2 ^ 15"

definition MaxAttempts :: "auth_cfg \<Rightarrow> int" where
  "MaxAttempts cfg = (let n = (if cf_otp_max_attempts cfg \<le> 0 then defaultMaxAttempts else cf_otp_max_attempts cfg) in
     i16 (if n > maxAllowedAttempts then maxAllowedAttempts else n))"

definition ReissueCooldown :: "auth_cfg \<Rightarrow> duration" where
  "ReissueCooldown cfg = min (if cf_otp_cooldown cfg \<le> 0 then defaultReissueCooldown else cf_otp_cooldown cfg) (otp_TTL cfg)"

section \<open>The credentials table\<close>

definition live_code :: "credential_row \<Rightarrow> bool" where
  "live_code c \<longleftrightarrow> cr_kind c = CredentialOTP \<and> cr_consumed_at c = None"

text \<open>The two partial unique indexes: one password, and one unconsumed code, per user.\<close>

definition credential_clash :: "credential_row \<Rightarrow> credential_row \<Rightarrow> bool" where
  "credential_clash a b \<longleftrightarrow> cr_id a = cr_id b \<or> cr_user a = cr_user b
     \<and> (cr_kind a = CredentialPassword \<and> cr_kind b = CredentialPassword \<or> live_code a \<and> live_code b)"

definition credential_insert :: "env \<Rightarrow> nat \<Rightarrow> db \<Rightarrow> credential_row \<Rightarrow> apperr + (credential_row \<times> db)" where
  "credential_insert e t d c = (let x = d_auth d;
       row = c\<lparr>cr_id := gen e t 0, cr_expires_at := map_option (pg_time e) (cr_expires_at c), cr_consumed_at := None,
         cr_created_at := pg_time e (clock e t), cr_updated_at := pg_time e (clock e t)\<rparr> in
     if \<exists>r \<in> set (a_credentials x). credential_clash r row then Inl PgUniqueViolation
     else if cr_user row \<notin> u_id ` set (d_users d) then Inl PgForeignKeyViolation
     else Inr (row, d\<lparr>d_auth := x\<lparr>a_credentials := a_credentials x @ [row]\<rparr>\<rparr>))"

definition credentials_Create :: "credential_row \<Rightarrow> credential_row op" where
  "credentials_Create c = ocatch (db_call (\<lambda>e t d. credential_insert e t d c))
     (\<lambda>err. if err = PgUniqueViolation then raise ErrAuthCredentialConflict else raise err)"

definition credentials_get :: "(credential_row \<Rightarrow> bool) \<Rightarrow> credential_row op" where
  "credentials_get p = obind (auth_query (\<lambda>_ _ x. find p (a_credentials x)))
     (\<lambda>r. case r of None \<Rightarrow> raise ErrAuthCredentialNotFound | Some c \<Rightarrow> ret c)"

definition GetUnconsumedOTPByUserID :: "uuid \<Rightarrow> credential_row op" where
  "GetUnconsumedOTPByUserID uid = credentials_get (\<lambda>c. cr_user c = uid \<and> live_code c)"

definition GetUnconsumedOTPByUserIDForUpdate :: "uuid \<Rightarrow> credential_row op" where
  "GetUnconsumedOTPByUserIDForUpdate uid = credentials_get (\<lambda>c. cr_user c = uid \<and> live_code c)"

definition GetPasswordByUserID :: "uuid \<Rightarrow> credential_row op" where
  "GetPasswordByUserID uid = credentials_get (\<lambda>c. cr_user c = uid \<and> cr_kind c = CredentialPassword)"

definition update_credentials :: "(credential_row \<Rightarrow> bool) \<Rightarrow> (env \<Rightarrow> credential_row \<Rightarrow> credential_row) \<Rightarrow> bool op" where
  "update_credentials p f = on_auth (\<lambda>e _ x. Inr (\<exists>c \<in> set (a_credentials x). p c,
     x\<lparr>a_credentials := map (\<lambda>c. if p c then f e c else c) (a_credentials x)\<rparr>))"

text \<open>The guard and the increment in one statement; the guard keeps the count below the column's range.\<close>

definition ClaimOTPAttempt :: "uuid \<Rightarrow> int \<Rightarrow> bool op" where
  "ClaimOTPAttempt i maxAttempts = obind UTCNow (\<lambda>now. update_credentials
     (\<lambda>c. cr_id c = i \<and> live_code c \<and> cr_attempts c < maxAttempts)
     (\<lambda>e c. c\<lparr>cr_attempts := cr_attempts c + 1, cr_updated_at := pg_time e now\<rparr>))"

definition ConsumeOTP :: "uuid \<Rightarrow> bool op" where
  "ConsumeOTP i = obind UTCNow (\<lambda>now. update_credentials (\<lambda>c. cr_id c = i \<and> live_code c)
     (\<lambda>e c. c\<lparr>cr_consumed_at := Some (pg_time e now), cr_updated_at := pg_time e now\<rparr>))"

definition password_row :: "env \<Rightarrow> nat \<Rightarrow> uuid \<Rightarrow> string \<Rightarrow> credential_row" where
  "password_row e t uid phc = \<lparr>cr_id = gen e t 0, cr_user = uid, cr_kind = CredentialPassword, cr_secret = phc, cr_expires_at = None,
     cr_consumed_at = None, cr_attempts = 0, cr_nonce = None, cr_created_at = pg_time e (clock e t), cr_updated_at = pg_time e (clock e t)\<rparr>"

definition UpsertPassword :: "uuid \<Rightarrow> string \<Rightarrow> unit op" where
  "UpsertPassword uid phc = db_call (\<lambda>e t d. let x = d_auth d; hit = (\<lambda>c. cr_user c = uid \<and> cr_kind c = CredentialPassword) in
     if \<exists>c \<in> set (a_credentials x). hit c
     then Inr ((), d\<lparr>d_auth := x\<lparr>a_credentials := map (\<lambda>c. if hit c then c\<lparr>cr_secret := phc, cr_updated_at := pg_time e (clock e t),
         cr_attempts := 0, cr_expires_at := None, cr_consumed_at := None, cr_nonce := None\<rparr> else c) (a_credentials x)\<rparr>\<rparr>)
     else if \<exists>c \<in> set (a_credentials x). cr_id c = gen e t 0 then Inl PgUniqueViolation
     else if uid \<notin> u_id ` set (d_users d) then Inl PgForeignKeyViolation
     else Inr ((), d\<lparr>d_auth := x\<lparr>a_credentials := a_credentials x @ [password_row e t uid phc]\<rparr>\<rparr>))"

definition expired_before :: "time \<Rightarrow> credential_row \<Rightarrow> bool" where
  "expired_before cutoff c \<longleftrightarrow> cr_kind c = CredentialOTP \<and> (case cr_expires_at c of None \<Rightarrow> False | Some t \<Rightarrow> t < cutoff)"

definition expiry :: "credential_row \<Rightarrow> time" where
  "expiry c = (case cr_expires_at c of None \<Rightarrow> zero_time | Some t \<Rightarrow> t)"

definition PruneOTPExpiredBefore :: "time \<Rightarrow> int \<Rightarrow> int op" where
  "PruneOTPExpiredBefore cutoff limit = on_auth (\<lambda>e _ x. if limit < 0 then Inl (PgOther 2201) else
     let ids = map cr_id (take (nat limit) (sort_func (\<lambda>a b. ord_cmp (expiry a) (expiry b))
           (filter (expired_before (pg_time e cutoff)) (a_credentials x)))) in
     Inr (int (length (filter (\<lambda>c. cr_id c \<in> set ids) (a_credentials x))),
       x\<lparr>a_credentials := filter (\<lambda>c. cr_id c \<notin> set ids) (a_credentials x)\<rparr>))"

section \<open>Requesting a code\<close>

datatype slot_hold = HoldAttemptsSpent | HoldCooldown

definition after_now :: "time option \<Rightarrow> time \<Rightarrow> bool" where
  "after_now t now = (case t of None \<Rightarrow> False | Some x \<Rightarrow> now < x)"

definition slot_held :: "auth_cfg \<Rightarrow> time \<Rightarrow> credential_row \<Rightarrow> slot_hold option" where
  "slot_held cfg now c = (if after_now (cr_expires_at c) now then
       (if cr_attempts c \<ge> MaxAttempts cfg then Some HoldAttemptsSpent
        else if cr_created_at c > now + i64 (- ReissueCooldown cfg) then Some HoldCooldown else None)
     else None)"

definition claimSlot :: "uuid \<Rightarrow> slot_hold option op" where
  "claimSlot uid = obind (optional ErrAuthCredentialNotFound (GetUnconsumedOTPByUserIDForUpdate uid)) (\<lambda>found.
     case found of None \<Rightarrow> ret None
     | Some c \<Rightarrow> obind UTCNow (\<lambda>now. obind (read_cfg id) (\<lambda>cfg. case slot_held cfg now c of
           Some h \<Rightarrow> ret (Some h)
         | None \<Rightarrow> osequel (ConsumeOTP (cr_id c)) (ret None))))"

definition otp_idempotencyKey :: "env \<Rightarrow> uuid \<Rightarrow> string" where
  "otp_idempotencyKey e i = sha256_hex e (''otp-email:'' @ uuid_string i)"

text \<open>\<open>sealForDelivery\<close>: the data key, the envelope bound to the credential and the wrapped key, any of which may fail.\<close>

definition sealForDelivery :: "credential_row \<Rightarrow> string \<Rightarrow> string \<Rightarrow> otp_purpose \<Rightarrow> otp_email_payload op" where
  "sealForDelivery c target code purpose w = (case au_seal (e_auth (w_env w)) (w_tick w) (cr_id c) code of
       Inl e \<Rightarrow> (Inl e, tick w)
     | Inr s \<Rightarrow> (case cr_expires_at c of None \<Rightarrow> (Inl Panic, tick w)
         | Some t \<Rightarrow> (Inr \<lparr>op_credential = cr_id c, op_target = target, op_sealed = s, op_expires_at = t, op_purpose = purpose\<rparr>, tick w)))"

definition new_code :: "uuid \<Rightarrow> string \<Rightarrow> time \<Rightarrow> string \<Rightarrow> credential_row" where
  "new_code uid codeHash expiresAt nonce = \<lparr>cr_id = nil_uuid, cr_user = uid, cr_kind = CredentialOTP, cr_secret = codeHash,
     cr_expires_at = Some expiresAt, cr_consumed_at = None, cr_attempts = 0, cr_nonce = Some nonce,
     cr_created_at = zero_time, cr_updated_at = zero_time\<rparr>"

definition issue_tx :: "user \<Rightarrow> string \<Rightarrow> otp_purpose \<Rightarrow> string \<Rightarrow> string \<Rightarrow> slot_hold option op" where
  "issue_tx u nonce purpose code codeHash = obind (claimSlot (u_id u)) (\<lambda>held. if held \<noteq> None then ret held else
     obind UTCNow (\<lambda>now. obind (read_world w_env) (\<lambda>e.
     obind (credentials_Create (new_code (u_id u) codeHash (now + otp_TTL (au_cfg (e_auth e))) nonce)) (\<lambda>c.
     obind (sealForDelivery c (u_email u) code purpose) (\<lambda>payload.
     osequel (scheduler_Schedule ''otp.email'' (OTPEmailPayload payload) (otp_idempotencyKey e (cr_id c))) (ret None))))))"

definition otp_issue :: "user \<Rightarrow> string \<Rightarrow> otp_purpose \<Rightarrow> slot_hold option op" where
  "otp_issue u nonce purpose = obind GenerateOTPCode (\<lambda>(code, codeHash). WithinTx (issue_tx u nonce purpose code codeHash))"

definition otp_Request :: "string \<Rightarrow> otp_purpose \<Rightarrow> string op" where
  "otp_Request email purpose = obind GenerateToken (\<lambda>(nonce, _).
     if IsBreakGlassEmail email then ret nonce else
     obind (optional ErrUserNotFound (user_GetByEmail email)) (\<lambda>found. case found of None \<Rightarrow> ret nonce
       | Some u \<Rightarrow> if IsBlocked u then ret nonce else osequel (otp_issue u nonce purpose) (ret nonce)))"

section \<open>Redeeming a code\<close>

record verify_cmd =
  vc_email :: string
  vc_code :: string
  vc_nonce :: string
  vc_ip :: string
  vc_user_agent :: string

text \<open>What \<open>Verify\<close> returns: the user, or the user as far as it is known, the reason for the audit, and the error.\<close>

datatype verify_result = Verified user | Refused "user option" audit_failure apperr

definition otp_matches :: "string option \<Rightarrow> string \<Rightarrow> bool" where
  "otp_matches stored given = (stored = Some given)"

definition code_expired :: "credential_row \<Rightarrow> bool op" where
  "code_expired c = (case cr_expires_at c of None \<Rightarrow> ret True | Some t \<Rightarrow> obind UTCNow (\<lambda>now. ret (\<not> now < t)))"

definition redeem :: "user \<Rightarrow> credential_row \<Rightarrow> verify_cmd \<Rightarrow> verify_result op" where
  "redeem u c cmd = obind (code_expired c) (\<lambda>dead. if dead then
       obind (ocatch (ConsumeOTP (cr_id c)) (\<lambda>_. ret False)) (\<lambda>consumed.
         ret (Refused (Some u) (if consumed then FailureCodeExpired else FailureInvalidCode) ErrInvalidCredentials))
     else if \<not> otp_matches (cr_nonce c) (vc_nonce cmd) then ret (Refused (Some u) FailureSessionMismatch ErrOTPSessionMismatch)
     else obind (read_cfg MaxAttempts) (\<lambda>maxAttempts.
       obind (ClaimOTPAttempt (cr_id c) maxAttempts) (\<lambda>claimed.
       if \<not> claimed then ret (Refused (Some u) FailureAttemptsExhausted ErrInvalidCredentials)
       else obind (read_world (\<lambda>w. sha256_hex (w_env w) (vc_code cmd))) (\<lambda>h.
         if \<not> otp_matches (Some (cr_secret c)) h then ret (Refused (Some u) FailureInvalidCode ErrInvalidCredentials)
         else obind (ConsumeOTP (cr_id c)) (\<lambda>consumed.
           ret (if consumed then Verified u else Refused (Some u) FailureInvalidCode ErrInvalidCredentials))))))"

definition otp_Verify :: "verify_cmd \<Rightarrow> verify_result op" where
  "otp_Verify cmd = ocatch (obind (optional ErrUserNotFound (user_GetByEmail (vc_email cmd))) (\<lambda>found. case found of
       None \<Rightarrow> ret (Refused None FailureInvalidCode ErrInvalidCredentials)
     | Some u \<Rightarrow> obind (optional ErrAuthCredentialNotFound (GetUnconsumedOTPByUserID (u_id u))) (\<lambda>live. case live of
           None \<Rightarrow> ret (Refused (Some u) FailureInvalidCode ErrInvalidCredentials)
         | Some c \<Rightarrow> redeem u c cmd)))
     (\<lambda>err. ret (Refused None FailureNone err))"

section \<open>Pruning\<close>

definition maxOTPPruneBatches :: nat where "maxOTPPruneBatches = 100"
definition defaultOTPPruneBatchLimit :: int where "defaultOTPPruneBatchLimit = 1000"
definition defaultOTPPruneRetention :: duration where "defaultOTPPruneRetention = 24 * 60 * minute"

definition otp_Prune :: "duration \<Rightarrow> int \<Rightarrow> unit op" where
  "otp_Prune retention batchLimit = (
     let limit = (if batchLimit \<le> 0 then defaultOTPPruneBatchLimit else batchLimit);
         keep = (if retention \<le> 0 then defaultOTPPruneRetention else retention) in
     obind UTCNow (\<lambda>now. drain maxOTPPruneBatches (PruneOTPExpiredBefore (now + i64 (- keep)) limit) limit))"

end
