(* ===== verification/SignIn.thy ===== *)
theory SignIn
  imports OneTimeCodes AuthSessions
begin

text \<open>
  Signing in without a provider, and what follows a provider's answer:
  \<open>internal/services/auth\<close> (one-time codes, passwords, accepting an invitation with a
  password, break-glass, verified claims), changing and resetting passwords, and
  disconnecting a provider. Each flow ends in \<open>IssueTokenPair\<close>; each refusal is audited.
\<close>

section \<open>Small parts\<close>

definition method_Enabled :: "string \<Rightarrow> bool op" where
  "method_Enabled name w = (au_method_enabled (e_auth (w_env w)) (w_tick w) name, tick w)"

definition methodOffered :: "string \<Rightarrow> bool op" where
  "methodOffered name = ocatch (method_Enabled name) (\<lambda>_. ret False)"

definition blank_user :: "string \<Rightarrow> string \<Rightarrow> user" where
  "blank_user email name = \<lparr>u_id = nil_uuid, u_email = email, u_name = name, u_roles = [], u_created_at = zero_time,
     u_blocked_at = None, u_timezone = None, u_telegram_tag = None, u_slack_tag = None\<rparr>"

definition meta_of :: "string \<Rightarrow> string \<Rightarrow> login_method \<Rightarrow> audit_meta" where
  "meta_of ip agent m = \<lparr>am_ip = ip, am_user_agent = agent, am_session = [], am_method = m, am_failure = FailureNone\<rparr>"

definition publishLoginFailure :: "user \<Rightarrow> audit_meta \<Rightarrow> audit_failure \<Rightarrow> unit op" where
  "publishLoginFailure u meta reason = auth_publishAudit (AuditLoginFailed u (meta\<lparr>am_failure := reason\<rparr>))"

definition publishLoginSuccess :: "user \<Rightarrow> audit_meta \<Rightarrow> token_pair \<Rightarrow> unit op" where
  "publishLoginSuccess u meta pair = auth_publishAudit (AuditLoginSuccess u (meta\<lparr>am_session := uuid_string (tp_session pair)\<rparr>))"

definition provisioningFailureReason :: "apperr \<Rightarrow> audit_failure" where
  "provisioningFailureReason e = (if e = ErrSignupDisabled then FailureSignupDisabled else FailureUserProvisioning)"

definition issuanceFailureReason :: "apperr \<Rightarrow> audit_failure" where
  "issuanceFailureReason e = (if e = ErrUserBlocked then FailureUserBlocked else FailureTokenIssuance)"

definition minPasswordLen :: nat where "minPasswordLen = 12"
definition maxPasswordLen :: nat where "maxPasswordLen = 256"

definition ValidatePasswordPolicy :: "ozzo \<Rightarrow> string \<Rightarrow> bool" where
  "ValidatePasswordPolicy rule p = (oz_required_string rule p \<and> oz_length rule minPasswordLen maxPasswordLen (length p))"

definition password_allowed :: "string \<Rightarrow> bool op" where
  "password_allowed p = read_world (\<lambda>w. ValidatePasswordPolicy (rules (w_env w)) p)"

definition HashPassword :: "string \<Rightarrow> string op" where
  "HashPassword p w = (au_hash_password (e_auth (w_env w)) (w_tick w) p, tick w)"

definition VerifyPassword :: "string \<Rightarrow> string \<Rightarrow> bool op" where
  "VerifyPassword stored p w = (au_verify_password (e_auth (w_env w)) stored p, w)"

definition GetRefreshToken :: "string \<Rightarrow> refresh_row op" where
  "GetRefreshToken raw = obind (read_world (\<lambda>w. sha256_hex (w_env w) raw)) GetRefreshTokenByHash"

text \<open>Issue a pair; a refusal is audited under the given account and returned.\<close>

definition issue_or_audit :: "user \<Rightarrow> string \<Rightarrow> audit_meta \<Rightarrow> token_pair op" where
  "issue_or_audit u ip meta = ocatch (IssueTokenPair u ip)
     (\<lambda>e. osequel (publishLoginFailure u meta (issuanceFailureReason e)) (raise e))"

section \<open>One-time codes\<close>

definition publishOTPLoginFailure :: "string \<Rightarrow> string \<Rightarrow> string \<Rightarrow> user option \<Rightarrow> audit_failure \<Rightarrow> unit op" where
  "publishOTPLoginFailure email ip agent u reason = publishLoginFailure (case u of None \<Rightarrow> blank_user email [] | Some x \<Rightarrow> x)
     (meta_of ip agent LoginNone) reason"

definition or_unknown :: "audit_failure \<Rightarrow> audit_failure" where
  "or_unknown r = (if r = FailureNone then FailureUnknown else r)"

definition LoginWithOTP :: "verify_cmd \<Rightarrow> token_pair op" where
  "LoginWithOTP cmd = obind (methodOffered ''email_otp'') (\<lambda>offered. if \<not> offered then
       osequel (publishOTPLoginFailure (vc_email cmd) (vc_ip cmd) (vc_user_agent cmd) None FailureMethodDisabled) (raise ErrInvalidCredentials)
     else obind (otp_Verify cmd) (\<lambda>r. case r of
         Refused u reason err \<Rightarrow> osequel (publishOTPLoginFailure (vc_email cmd) (vc_ip cmd) (vc_user_agent cmd) u (or_unknown reason)) (raise err)
       | Verified u \<Rightarrow> obind (issue_or_audit u (vc_ip cmd) (meta_of (vc_ip cmd) (vc_user_agent cmd) LoginNone)) (\<lambda>pair.
           osequel (publishLoginSuccess u (meta_of (vc_ip cmd) (vc_user_agent cmd) LoginOTP) pair) (ret pair))))"

section \<open>Passwords\<close>

record password_cmd =
  pw_email :: string
  pw_password :: string
  pw_ip :: string
  pw_user_agent :: string

definition publishPasswordLoginFailure :: "password_cmd \<Rightarrow> login_method \<Rightarrow> unit op" where
  "publishPasswordLoginFailure cmd m = publishLoginFailure (blank_user (pw_email cmd) [])
     (meta_of (pw_ip cmd) (pw_user_agent cmd) m) FailureInvalidCredentials"

text \<open>\<open>None\<close>: there is no password, and the caller answers as for an unknown account.\<close>

definition loginWithStoredPassword :: "password_cmd \<Rightarrow> user \<Rightarrow> token_pair option op" where
  "loginWithStoredPassword cmd u = obind (optional ErrAuthCredentialNotFound (GetPasswordByUserID (u_id u))) (\<lambda>found. case found of
       None \<Rightarrow> ret None
     | Some c \<Rightarrow> obind (ocatch (VerifyPassword (cr_secret c) (pw_password cmd)) (\<lambda>_. ret False)) (\<lambda>ok. if \<not> ok
         then osequel (publishPasswordLoginFailure cmd LoginPassword) (raise ErrInvalidCredentials)
         else obind (issue_or_audit u (pw_ip cmd) (meta_of (pw_ip cmd) (pw_user_agent cmd) LoginPassword)) (\<lambda>pair. ret (Some pair))))"

text \<open>The decoy hash that keeps the response time even has no effect here.\<close>

definition refusePassword :: "password_cmd \<Rightarrow> (token_pair \<times> user) op" where
  "refusePassword cmd = osequel (publishPasswordLoginFailure cmd LoginNone) (raise ErrInvalidCredentials)"

definition loginWithPassword :: "password_cmd \<Rightarrow> (token_pair \<times> user) op" where
  "loginWithPassword cmd = obind (optional ErrUserNotFound (user_GetByEmail (pw_email cmd))) (\<lambda>found. case found of
       None \<Rightarrow> refusePassword cmd
     | Some u \<Rightarrow> obind (methodOffered ''email_password'') (\<lambda>offered. if \<not> offered then refusePassword cmd else
         obind (loginWithStoredPassword cmd u) (\<lambda>r. case r of None \<Rightarrow> refusePassword cmd | Some pair \<Rightarrow> ret (pair, u))))"

definition LoginWithPassword :: "password_cmd \<Rightarrow> token_pair op" where
  "LoginWithPassword cmd = obind (loginWithPassword cmd) (\<lambda>(pair, u).
     osequel (publishLoginSuccess u (meta_of (pw_ip cmd) (pw_user_agent cmd) LoginPassword) pair) (ret pair))"

definition installPassword :: "uuid \<Rightarrow> string \<Rightarrow> unit op \<Rightarrow> unit op" where
  "installPassword uid newPassword revokeSessions = obind (HashPassword newPassword) (\<lambda>h.
     WithinTx (osequel (UpsertPassword uid h) revokeSessions))"

record change_password_cmd =
  cp_user_id :: uuid
  cp_current :: string
  cp_new :: string
  cp_refresh_token :: string
  cp_ip :: string
  cp_user_agent :: string

definition firstPasswordReauthWindow :: duration where "firstPasswordReauthWindow = 10 * minute"

definition requireFreshSession :: "change_password_cmd \<Rightarrow> unit op" where
  "requireFreshSession cmd = (if cp_refresh_token cmd = [] then raise ErrReauthenticationRequired else
     obind (ocatch (GetRefreshToken (cp_refresh_token cmd)) (\<lambda>_. raise ErrReauthenticationRequired)) (\<lambda>rt.
       if rt_user rt \<noteq> cp_user_id cmd \<or> rt_revoked rt then raise ErrReauthenticationRequired
       else obind UTCNow (\<lambda>now. if time_sub now (rt_started_at rt) > firstPasswordReauthWindow
         then raise ErrReauthenticationRequired else ret ())))"

definition verifyCurrentPassword :: "change_password_cmd \<Rightarrow> unit op" where
  "verifyCurrentPassword cmd = obind (optional ErrAuthCredentialNotFound (GetPasswordByUserID (cp_user_id cmd))) (\<lambda>found. case found of
       None \<Rightarrow> if cp_current cmd \<noteq> [] then raise ErrValidation else requireFreshSession cmd
     | Some c \<Rightarrow> if cp_current cmd = [] then raise ErrValidation
         else obind (ocatch (VerifyPassword (cr_secret c) (cp_current cmd)) (\<lambda>_. ret False))
           (\<lambda>ok. if ok then ret () else raise ErrInvalidCredentials))"

definition revokeOtherSessions :: "change_password_cmd \<Rightarrow> unit op" where
  "revokeOtherSessions cmd = (if cp_refresh_token cmd = [] then RevokeRefreshTokenByUserID (cp_user_id cmd) else
     obind (ocatch (FamilyByRefreshToken (cp_refresh_token cmd) (cp_user_id cmd)) (\<lambda>_. raise ErrInvalidRefreshToken))
       (\<lambda>family. RevokeRefreshTokenByUserIDExceptFamily (cp_user_id cmd) family))"

definition ChangePassword :: "change_password_cmd \<Rightarrow> unit op" where
  "ChangePassword cmd = obind (password_allowed (cp_new cmd)) (\<lambda>ok. if \<not> ok then raise ErrValidation else
     obind (user_GetByID (cp_user_id cmd)) (\<lambda>u. if IsBreakGlass u then raise ErrBreakGlassPersonalSignIn else
     osequel (verifyCurrentPassword cmd)
     (osequel (installPassword (cp_user_id cmd) (cp_new cmd) (revokeOtherSessions cmd))
       (auth_publishAudit (AuditPasswordChanged u (meta_of (cp_ip cmd) (cp_user_agent cmd) LoginNone))))))"

definition HasPassword :: "uuid \<Rightarrow> bool op" where
  "HasPassword uid = obind (optional ErrAuthCredentialNotFound (GetPasswordByUserID uid)) (\<lambda>found. ret (found \<noteq> None))"

record reset_password_cmd =
  rp_email :: string
  rp_code :: string
  rp_nonce :: string
  rp_new :: string
  rp_ip :: string
  rp_user_agent :: string

definition ResetPassword :: "reset_password_cmd \<Rightarrow> unit op" where
  "ResetPassword cmd = obind (password_allowed (rp_new cmd)) (\<lambda>ok. if \<not> ok then
       osequel (publishOTPLoginFailure (rp_email cmd) (rp_ip cmd) (rp_user_agent cmd) None FailurePasswordPolicy) (raise ErrInvalidCredentials)
     else obind (otp_Verify \<lparr>vc_email = rp_email cmd, vc_code = rp_code cmd, vc_nonce = rp_nonce cmd, vc_ip = rp_ip cmd,
         vc_user_agent = rp_user_agent cmd\<rparr>) (\<lambda>r. case r of
         Refused u reason err \<Rightarrow> osequel (publishOTPLoginFailure (rp_email cmd) (rp_ip cmd) (rp_user_agent cmd) u (or_unknown reason)) (raise err)
       | Verified u \<Rightarrow> if IsBlocked u then raise ErrUserBlocked else
           osequel (installPassword (u_id u) (rp_new cmd) (RevokeRefreshTokenByUserID (u_id u)))
             (auth_publishAudit (AuditPasswordReset u (meta_of (rp_ip cmd) (rp_user_agent cmd) LoginNone)))))"

definition RequestPasswordReset :: "string \<Rightarrow> string op" where
  "RequestPasswordReset email = obind (optional ErrUserNotFound (otp_Request email PurposePasswordReset))
     (\<lambda>nonce. ret (case nonce of None \<Rightarrow> [] | Some n \<Rightarrow> n))"

section \<open>Accepting an invitation with a password\<close>

record accept_cmd =
  av_token :: string
  av_password :: string
  av_ip :: string
  av_user_agent :: string

definition accept_tx :: "invitation_row \<Rightarrow> string \<Rightarrow> user op" where
  "accept_tx invite h = obind (CreateWithoutIdentity (inv_email invite) (inv_email invite)) (\<lambda>created.
     osequel (UpsertPassword (u_id created) h)
       (ClaimForUser \<lparr>ri_id = inv_id invite, ri_roles = inv_roles invite\<rparr> (u_id created)))"

definition AcceptInvitationWithPassword :: "accept_cmd \<Rightarrow> token_pair op" where
  "AcceptInvitationWithPassword cmd = obind (password_allowed (av_password cmd)) (\<lambda>ok. if \<not> ok then raise ErrValidation else
     obind (ResolveByToken (av_token cmd)) (\<lambda>invite.
     let meta = meta_of (av_ip cmd) (av_user_agent cmd) LoginNone; invitee = blank_user (inv_email invite) [] in
     obind (methodOffered ''email_password'') (\<lambda>offered. if \<not> offered then
         osequel (publishLoginFailure invitee meta FailureMethodDisabled) (raise ErrSignInMethodDisabled)
       else obind (HashPassword (av_password cmd)) (\<lambda>h.
         obind (ocatch (WithinTx_outbox (accept_tx invite h)) (\<lambda>e. osequel (publishLoginFailure invitee meta
             (if e = ErrInvalidInvitation then FailureInvitationRefused else FailureUserProvisioning)) (raise e))) (\<lambda>u.
         obind (issue_or_audit u (av_ip cmd) meta) (\<lambda>pair.
         osequel (publishLoginSuccess u (meta\<lparr>am_method := LoginPassword\<rparr>) pair) (ret pair)))))))"

section \<open>Break-glass and provider sign-ins\<close>

definition BreakGlassEmail :: string where "BreakGlassEmail = ''break-glass@'' @ breakGlassDomain"
definition BreakGlassName :: string where "BreakGlassName = ''Break-glass admin''"

text \<open>The break-glass method is always registered; it answers with the address and name to sign in.\<close>

definition bootstrap_Authenticate :: "string \<Rightarrow> (string \<times> string) op" where
  "bootstrap_Authenticate p w = (au_bootstrap (e_auth (w_env w)) (w_tick w) p, tick w)"

definition LoginWithBreakGlass :: "string \<Rightarrow> string \<Rightarrow> string \<Rightarrow> token_pair op" where
  "LoginWithBreakGlass password ip agent = (let meta = meta_of ip agent LoginBootstrap; breakGlass = blank_user BreakGlassEmail BreakGlassName in
     obind (ocatch (bootstrap_Authenticate password)
         (\<lambda>_. osequel (publishLoginFailure breakGlass meta FailureInvalidCredentials) (raise ErrInvalidCredentials))) (\<lambda>(email, name).
     obind (ocatch (EnsureBreakGlassAccount email name)
         (\<lambda>e. osequel (publishLoginFailure breakGlass meta (provisioningFailureReason e)) (raise e))) (\<lambda>u.
     obind (issue_or_audit u ip meta) (\<lambda>pair. osequel (publishLoginSuccess u meta pair) (ret pair)))))"

definition resolveSignInUser :: "string \<Rightarrow> oauth_claims \<Rightarrow> creation_policy \<Rightarrow> audit_meta \<Rightarrow> user op" where
  "resolveSignInUser provider claims policy meta = ocatch (GetOrCreateByAuthInfo provider
       \<lparr>pi_subject = oc_subject claims, pi_email = oc_email claims, pi_name = oc_name claims\<rparr> policy)
     (\<lambda>e. osequel (publishLoginFailure (blank_user (oc_email claims) (oc_name claims)) meta (provisioningFailureReason e)) (raise e))"

definition issueSignInPair :: "user \<Rightarrow> audit_meta \<Rightarrow> token_pair op" where
  "issueSignInPair u meta = obind (issue_or_audit u (am_ip meta) meta) (\<lambda>pair.
     osequel (publishLoginSuccess u (meta\<lparr>am_method := LoginOIDC\<rparr>) pair) (ret pair))"

definition SignInWithVerifiedClaims :: "string \<Rightarrow> oauth_claims \<Rightarrow> creation_policy \<Rightarrow> audit_meta \<Rightarrow> (token_pair \<times> user) op" where
  "SignInWithVerifiedClaims provider claims policy meta = obind (resolveSignInUser provider claims policy meta) (\<lambda>u.
     obind (issueSignInPair u meta) (\<lambda>pair. ret (pair, u)))"

section \<open>Disconnecting a provider\<close>

definition hasBuiltinSignIn :: "uuid \<Rightarrow> bool op" where
  "hasBuiltinSignIn uid = obind (method_Enabled ''email_otp'') (\<lambda>otp. if otp then ret True else
     obind (method_Enabled ''email_password'') (\<lambda>pw. if \<not> pw then ret False else HasPassword uid))"

definition DisconnectProvider :: "uuid \<Rightarrow> string \<Rightarrow> unit op" where
  "DisconnectProvider uid provider = obind (ListConnectedProviders uid) (\<lambda>linked. if provider \<notin> set linked then ret () else
     obind (if length linked \<le> 1 then hasBuiltinSignIn uid else ret False) (\<lambda>keepsSignIn. UnlinkIdentity uid provider keepsSignIn))"

end
