(* ===== verification/OAuthDance.thy ===== *)
theory OAuthDance
  imports SignIn
begin

text \<open>
  The browser dance with an identity provider: the live login configuration
  (\<open>internal/services/authmethod\<close>: snapshot, reloader), the signed state
  (\<open>services/auth/dance_state_signer.go\<close>), the store of one-time codes and link tickets
  (\<open>storages/oauthdance\<close>), and the flows of \<open>services/auth\<close> that start a dance, complete it,
  redeem its code, and attach a further identity to an account.
\<close>

section \<open>The login configuration\<close>

text \<open>A provider as the snapshot takes it: whether each of its two halves was built, and where it comes back to.\<close>

record provider_input =
  pr_id :: string
  pr_display :: string
  pr_method :: bool
  pr_gateway :: bool
  pr_health :: provider_health
  pr_redirect :: string

definition cmp_or :: "string \<Rightarrow> string \<Rightarrow> string" where
  "cmp_or a b = (if a = [] then b else a)"

definition buildOne :: "configured_provider \<Rightarrow> provider_input" where
  "buildOne row = (let input = \<lparr>pr_id = cnf_name row, pr_display = cnf_name row, pr_method = False, pr_gateway = False,
         pr_health = HealthUnreadable, pr_redirect = []\<rparr>;
       built = (\<lambda>display redirect. input\<lparr>pr_method := True, pr_gateway := True, pr_display := cmp_or display (cnf_name row),
         pr_redirect := redirect, pr_health := HealthOK\<rparr>) in
     if cnf_unreadable row then input\<lparr>pr_health := HealthUnreadable\<rparr>
     else if \<not> cnf_enabled row then input\<lparr>pr_health := HealthDisabled\<rparr>
     else case cnf_settings row of OIDCSettings display redirect \<Rightarrow> built display redirect
       | OAuth2Settings display redirect \<Rightarrow> built display redirect
       | OtherSettings \<Rightarrow> input\<lparr>pr_health := HealthUnreadable\<rparr>)"

record login_snapshot =
  lg_methods :: "string list"
  lg_gateways :: "string list"
  lg_listing :: "(string \<times> string) list"
  lg_health :: "(string \<times> provider_health) list"
  lg_cookie_secure :: bool

definition redirectsOverPlainHTTP :: "env \<Rightarrow> string \<Rightarrow> bool" where
  "redirectsOverPlainHTTP e uri = (case url_parse e uri of None \<Rightarrow> False | Some u \<Rightarrow> url_scheme u = ''http'')"

text \<open>Map keys as lists; a later provider of the same name replaces an earlier one.\<close>

definition newSnapshot :: "env \<Rightarrow> string list \<Rightarrow> provider_input list \<Rightarrow> login_snapshot" where
  "newSnapshot e builtins providers = (let danceable = filter pr_gateway providers in
     \<lparr>lg_methods = builtins @ map pr_id (filter pr_method providers),
      lg_gateways = map pr_id danceable,
      lg_listing = sort_func (\<lambda>a b. ord_cmp (fst a) (fst b))
        (map (\<lambda>p. (pr_id p, pr_display p)) (filter (\<lambda>p. pr_method p \<and> pr_gateway p) providers)),
      lg_health = rev (map (\<lambda>p. (pr_id p, pr_health p)) providers),
      lg_cookie_secure = (danceable = [] \<or> length (filter (\<lambda>p. redirectsOverPlainHTTP e (pr_redirect p)) danceable) < length danceable)\<rparr>)"

definition healthOf :: "login_snapshot \<Rightarrow> string \<Rightarrow> provider_health" where
  "healthOf s i = (case map_of (lg_health s) i of None \<Rightarrow> HealthUnresolved | Some h \<Rightarrow> h)"

text \<open>
  Loading the live snapshot: the one the reloader last built from the rows of the registry,
  which may be another one at the next load.
\<close>

definition snapshot_load :: "login_snapshot op" where
  "snapshot_load w = (Inr (newSnapshot (w_env w) (au_builtins (e_auth (w_env w))) (map buildOne (au_providers (e_auth (w_env w)) (w_tick w)))), tick w)"

definition AuthMethodStub :: string where "AuthMethodStub = ''stub''"
definition AuthMethodBootstrap :: string where "AuthMethodBootstrap = ''bootstrap''"

definition nameable :: "string \<Rightarrow> bool" where
  "nameable m \<longleftrightarrow> m \<noteq> AuthMethodStub \<and> m \<noteq> AuthMethodBootstrap"

definition methods_Parse :: "string \<Rightarrow> string option op" where
  "methods_Parse name = obind snapshot_load (\<lambda>s. ret (if nameable name \<and> name \<in> set (lg_methods s) then Some name else None))"

definition DanceProvider :: "string \<Rightarrow> string option op" where
  "DanceProvider segment = obind snapshot_load (\<lambda>s. ret (if nameable segment \<and> segment \<in> set (lg_methods s) \<and> segment \<in> set (lg_gateways s)
     then Some segment else None))"

definition danceGatewayFor :: "string \<Rightarrow> unit op" where
  "danceGatewayFor provider = obind snapshot_load (\<lambda>s. if provider \<in> set (lg_gateways s) then ret () else raise ErrUnsupportedProvider)"

text \<open>\<open>Get\<close>: the method whose \<open>Authenticate\<close> will answer, with the stub of the dev stands substituted.\<close>

definition methods_Get :: "string \<Rightarrow> string op" where
  "methods_Get m = obind (read_world (\<lambda>w. au_use_stub (e_auth (w_env w)))) (\<lambda>stub.
     let m' = (if stub \<and> m \<noteq> AuthMethodBootstrap then AuthMethodStub else m) in
     obind snapshot_load (\<lambda>s. if m' \<in> set (lg_methods s) then ret m' else raise ErrUnsupportedProvider))"

section \<open>Secrets, bindings and the signed state\<close>

definition newDanceSecret :: "string op" where
  "newDanceSecret w = (au_dance_secret (e_auth (w_env w)) (w_tick w), tick w)"

text \<open>
  \<open>base64.RawURLEncoding.DecodeString\<close> to 32 bytes: carriage returns and line feeds are
  skipped, 43 characters of the alphabet remain, and the two spare bits are not checked.
\<close>

definition base64url_char :: "char \<Rightarrow> bool" where
  "base64url_char c = (let n = of_char c :: nat in 65 \<le> n \<and> n \<le> 90 \<or> 97 \<le> n \<and> n \<le> 122 \<or> 48 \<le> n \<and> n \<le> 57 \<or> n = 45 \<or> n = 95)"

definition validDanceBinding :: "string \<Rightarrow> bool" where
  "validDanceBinding binding = (let s = filter (\<lambda>c. of_char c \<notin> {10, 13 :: nat}) binding in length s = 43 \<and> list_all base64url_char s)"

definition danceBindingProven :: "env \<Rightarrow> string \<Rightarrow> string \<Rightarrow> bool" where
  "danceBindingProven e binding proof_nonce = (binding \<noteq> [] \<and> proof_nonce \<noteq> [] \<and> au_binding_of (e_auth e) proof_nonce = binding)"

definition stateSignatureSeparator :: char where "stateSignatureSeparator = CHR ''.''"

text \<open>The bytes the MAC covers: each field after its length; \<open>au_state_mac\<close> is the MAC under this deployment's key.\<close>

definition signature_input :: "string list \<Rightarrow> string" where
  "signature_input fs = concat (map (\<lambda>f. show_nat (length f) @ [stateSignatureSeparator] @ f) fs)"

definition state_signature :: "env \<Rightarrow> string \<Rightarrow> string \<Rightarrow> string \<Rightarrow> string" where
  "state_signature e provider state unix = au_state_mac (e_auth e) (signature_input [provider, state, unix])"

definition state_Sign :: "env \<Rightarrow> string \<Rightarrow> string \<Rightarrow> time \<Rightarrow> string" where
  "state_Sign e provider state exp = (let unix = show_int (unix_seconds exp) in
     unix @ [stateSignatureSeparator] @ state_signature e provider state unix)"

text \<open>\<open>strings.Cut\<close> at the first separator, and \<open>strconv.ParseInt\<close> in base ten to 64 bits.\<close>

definition cut :: "char \<Rightarrow> string \<Rightarrow> (string \<times> string) option" where
  "cut c s = (if c \<in> set s then Some (takeWhile (\<lambda>x. x \<noteq> c) s, tl (dropWhile (\<lambda>x. x \<noteq> c) s)) else None)"

definition parse_digits :: "string \<Rightarrow> nat option" where
  "parse_digits s = (if s \<noteq> [] \<and> list_all (\<lambda>c. of_char c \<in> {48..57::nat}) s
     then Some (foldl (\<lambda>a c. a * 10 + (of_char c - 48)) 0 s) else None)"

definition parse_int64 :: "string \<Rightarrow> int option" where
  "parse_int64 s = (let (sign, ds) = (case s of [] \<Rightarrow> (1, []) | c # cs \<Rightarrow> if c = CHR ''-'' then (- 1, cs) else if c = CHR ''+'' then (1, cs) else (1, s)) in
     case parse_digits ds of None \<Rightarrow> None
     | Some n \<Rightarrow> let i = sign * int n in if - (2 ^ 63) \<le> i \<and> i < 2 ^ 63 then Some i else None)"

text \<open>\<open>time.Unix\<close> adds the seconds from year one to 1970 in 64 bits.\<close>

definition unix_to_internal :: int where "unix_to_internal = 62135596800"

definition time_Unix :: "int \<Rightarrow> time" where
  "time_Unix sec = (i64 (sec + unix_to_internal) - unix_to_internal) * second"

definition state_Verify :: "env \<Rightarrow> string \<Rightarrow> string \<Rightarrow> string \<Rightarrow> time \<Rightarrow> bool" where
  "state_Verify e cookie provider state now = (case cut stateSignatureSeparator cookie of None \<Rightarrow> False
     | Some (unix, signature) \<Rightarrow> (case parse_int64 unix of None \<Rightarrow> False
         | Some exp \<Rightarrow> now < time_Unix exp \<and> signature = state_signature e provider state unix))"

section \<open>The store\<close>

text \<open>
  Entries of the key-value store with a time to live: set replaces, get reads a live one,
  get-and-delete takes it. What is stored is the JSON of the entry, which reads back as it
  was written.
\<close>

definition kv_put :: "string \<Rightarrow> 'v \<Rightarrow> time \<Rightarrow> (string \<times> 'v \<times> time) list \<Rightarrow> (string \<times> 'v \<times> time) list" where
  "kv_put k v until xs = (k, v, until) # filter (\<lambda>h. fst h \<noteq> k) xs"

definition kv_get :: "string \<Rightarrow> time \<Rightarrow> (string \<times> 'v \<times> time) list \<Rightarrow> 'v option" where
  "kv_get k now xs = map_option (\<lambda>(_, v, _). v) (find (\<lambda>(h, _, until). h = k \<and> now < until) xs)"

definition kv_del :: "string \<Rightarrow> (string \<times> 'v \<times> time) list \<Rightarrow> (string \<times> 'v \<times> time) list" where
  "kv_del k xs = filter (\<lambda>h. fst h \<noteq> k) xs"

text \<open>One call to the store: it fails, or reads the clock and acts on the entries.\<close>

definition store_call :: "(env \<Rightarrow> time \<Rightarrow> world \<Rightarrow> 'a \<times> world) \<Rightarrow> 'a op" where
  "store_call f w = (case fault (w_env w) (w_tick w) of Some err \<Rightarrow> (Inl err, tick w)
     | None \<Rightarrow> (let (a, w') = f (w_env w) (clock (w_env w) (w_tick w)) (tick w) in (Inr a, w')))"

definition codeTTL :: duration where "codeTTL = 60 * second"

definition handle_ttl :: "env \<Rightarrow> duration" where
  "handle_ttl e = DanceStateTTL (au_cfg (e_auth e))"

definition codeKey :: "env \<Rightarrow> string \<Rightarrow> string" where
  "codeKey e code = ''oauth:code:'' @ sha256_hex e code"

definition linkKey :: "env \<Rightarrow> string \<Rightarrow> string" where
  "linkKey e ticket = ''oauth:link:'' @ sha256_hex e ticket"

definition linkCodeKey :: "env \<Rightarrow> string \<Rightarrow> string" where
  "linkCodeKey e code = ''oauth:linkcode:'' @ sha256_hex e code"

definition PutCode :: "string \<Rightarrow> dance_code \<Rightarrow> unit op" where
  "PutCode code entry = store_call (\<lambda>e now w. ((), w\<lparr>w_codes := kv_put (codeKey e code) entry (now + codeTTL) (w_codes w)\<rparr>))"

definition ConsumeCode :: "string \<Rightarrow> dance_code option op" where
  "ConsumeCode code = store_call (\<lambda>e now w. (kv_get (codeKey e code) now (w_codes w), w\<lparr>w_codes := kv_del (codeKey e code) (w_codes w)\<rparr>))"

definition PutLinkTicket :: "string \<Rightarrow> link_intent \<Rightarrow> unit op" where
  "PutLinkTicket ticket intent = store_call (\<lambda>e now w. ((), w\<lparr>w_tickets := kv_put (linkKey e ticket) intent (now + handle_ttl e) (w_tickets w)\<rparr>))"

definition PeekLinkTicket :: "string \<Rightarrow> link_intent option op" where
  "PeekLinkTicket ticket = store_call (\<lambda>e now w. (kv_get (linkKey e ticket) now (w_tickets w), w))"

definition ConsumeLinkTicket :: "string \<Rightarrow> link_intent option op" where
  "ConsumeLinkTicket ticket = store_call (\<lambda>e now w. (kv_get (linkKey e ticket) now (w_tickets w), w\<lparr>w_tickets := kv_del (linkKey e ticket) (w_tickets w)\<rparr>))"

definition PutLinkCode :: "string \<Rightarrow> pending_link \<Rightarrow> unit op" where
  "PutLinkCode code link = store_call (\<lambda>e now w. ((), w\<lparr>w_links := kv_put (linkCodeKey e code) link (now + codeTTL) (w_links w)\<rparr>))"

definition ConsumeLinkCode :: "string \<Rightarrow> pending_link option op" where
  "ConsumeLinkCode code = store_call (\<lambda>e now w. (kv_get (linkCodeKey e code) now (w_links w), w\<lparr>w_links := kv_del (linkCodeKey e code) (w_links w)\<rparr>))"

section \<open>Starting a dance\<close>

record dance_start =
  ds_state :: string
  ds_signature :: string
  ds_verifier :: string
  ds_url :: string
  ds_ttl :: duration
  ds_handle :: string
  ds_ticket :: string
  ds_binding :: string

definition verifyLinkTicket :: "string \<Rightarrow> string \<Rightarrow> unit op" where
  "verifyLinkTicket ticket provider = (if ticket = [] then ret () else
     obind (PeekLinkTicket ticket) (\<lambda>intent. case intent of None \<Rightarrow> raise ErrLinkTicketUnusable
       | Some i \<Rightarrow> if li_provider i \<noteq> provider then raise ErrLinkTicketUnusable else ret ()))"

definition mintInvitationHandle :: "string \<Rightarrow> string op" where
  "mintInvitationHandle token = (if token = [] then ret [] else
     obind newDanceSecret (\<lambda>handle. osequel (PrepareHandle handle token) (ret handle)))"

definition AuthCodeURL :: "string \<Rightarrow> string \<Rightarrow> string \<Rightarrow> string op" where
  "AuthCodeURL provider state verifier w = (au_auth_url (e_auth (w_env w)) (w_tick w) provider state verifier, tick w)"

definition StartDance :: "string \<Rightarrow> string \<Rightarrow> string \<Rightarrow> string \<Rightarrow> dance_start op" where
  "StartDance segment invitationToken linkTicket binding = obind (DanceProvider segment) (\<lambda>found. case found of
       None \<Rightarrow> raise ErrUnsupportedProvider
     | Some provider \<Rightarrow> if \<not> validDanceBinding binding then raise ErrOAuthDanceStateInvalid
       else if linkTicket \<noteq> [] \<and> invitationToken \<noteq> [] then raise ErrValidation
       else osequel (verifyLinkTicket linkTicket provider)
         (obind newDanceSecret (\<lambda>state. obind newDanceSecret (\<lambda>verifier.
         osequel (danceGatewayFor provider)
         (obind (mintInvitationHandle invitationToken) (\<lambda>handle.
         obind (AuthCodeURL provider state verifier) (\<lambda>url.
         obind UTCNow (\<lambda>now. obind (read_world w_env) (\<lambda>e.
           ret \<lparr>ds_state = state, ds_signature = state_Sign e provider state (now + handle_ttl e), ds_verifier = verifier, ds_url = url,
             ds_ttl = handle_ttl e, ds_handle = handle, ds_ticket = linkTicket, ds_binding = binding\<rparr>)))))))))"

definition MintLinkTicket :: "uuid \<Rightarrow> string \<Rightarrow> string op" where
  "MintLinkTicket uid segment = obind (DanceProvider segment) (\<lambda>found. case found of
       None \<Rightarrow> raise ErrUnsupportedProvider
     | Some provider \<Rightarrow> obind newDanceSecret (\<lambda>ticket.
         osequel (PutLinkTicket ticket \<lparr>li_user = uid, li_provider = provider\<rparr>) (ret ticket)))"

section \<open>Completing a dance\<close>

record dance_callback =
  cb_provider :: string
  cb_error :: string
  cb_state :: string
  cb_code :: string
  cb_signature :: string
  cb_verifier :: string
  cb_ticket :: string
  cb_handle :: string
  cb_binding :: string

datatype dance_outcome = DanceCode string | DanceLinkCode string

definition isOurDance :: "dance_callback \<Rightarrow> bool op" where
  "isOurDance cb = obind (DanceProvider (cb_provider cb)) (\<lambda>found. case found of None \<Rightarrow> ret False
     | Some provider \<Rightarrow> if cb_signature cb = [] then ret False else
         obind UTCNow (\<lambda>now. obind (read_world w_env) (\<lambda>e. ret (state_Verify e (cb_signature cb) provider (cb_state cb) now))))"

definition refuseDance :: "audit_meta \<Rightarrow> apperr \<Rightarrow> 'a op" where
  "refuseDance meta err = osequel (publishLoginFailure (blank_user [] []) meta FailureSessionMismatch) (raise err)"

definition verifyDanceOrigin :: "dance_callback \<Rightarrow> audit_meta \<Rightarrow> string op" where
  "verifyDanceOrigin cb meta = obind (DanceProvider (cb_provider cb)) (\<lambda>found. case found of
       None \<Rightarrow> raise ErrUnsupportedProvider
     | Some provider \<Rightarrow> if cb_signature cb = [] then raise ErrOAuthDanceStateInvalid else
         obind UTCNow (\<lambda>now. obind (read_world w_env) (\<lambda>e.
           if \<not> state_Verify e (cb_signature cb) provider (cb_state cb) now then refuseDance meta ErrOAuthDanceStateInvalid
           else if cb_verifier cb = [] then refuseDance meta ErrOAuthDanceStateInvalid
           else if cb_code cb = [] then refuseDance meta ErrOAuthDanceStateInvalid
           else if cb_binding cb = [] then refuseDance meta ErrOAuthDanceStateInvalid
           else ret provider)))"

definition Exchange :: "string \<Rightarrow> string \<Rightarrow> string \<Rightarrow> string op" where
  "Exchange provider code verifier w = (au_exchange (e_auth (w_env w)) (w_tick w) provider code verifier, tick w)"

definition Authenticate :: "string \<Rightarrow> string \<Rightarrow> oauth_claims op" where
  "Authenticate m credential w = (au_authenticate (e_auth (w_env w)) (w_tick w) m credential, tick w)"

definition verifyProviderCredential :: "string \<Rightarrow> string \<Rightarrow> oauth_claims op" where
  "verifyProviderCredential provider credential = obind (methods_Get provider) (\<lambda>m. Authenticate m credential)"

definition credentialFailureReason :: "apperr \<Rightarrow> audit_failure" where
  "credentialFailureReason err = (if err = ErrGithubEmailUnusable \<or> err = ErrGithubIdentityUnusable then FailureProviderRejected
     else FailureProviderUnavailable)"

definition resolveInvitation :: "string \<Rightarrow> oauth_claims \<Rightarrow> audit_meta \<Rightarrow> resolved_invitation option op" where
  "resolveInvitation handle claims meta = (if handle = [] then ret None else
     obind (ocatch (ResolveForIdentity handle claims) (\<lambda>err. osequel
       (publishLoginFailure (blank_user (oc_email claims) (oc_name claims)) meta FailureInvitationRefused) (raise err))) (\<lambda>i. ret (Some i)))"

definition publishLinkRefusedFor :: "uuid \<Rightarrow> audit_meta \<Rightarrow> audit_failure \<Rightarrow> unit op" where
  "publishLinkRefusedFor uid meta reason = auth_publishAudit (AuditProviderLinked uid (meta\<lparr>am_failure := reason\<rparr>))"

definition publishLinkRefused :: "audit_meta \<Rightarrow> unit op" where
  "publishLinkRefused meta = publishLinkRefusedFor nil_uuid meta FailureLinkUnusable"

definition parkLink :: "string \<Rightarrow> string \<Rightarrow> oauth_claims \<Rightarrow> string \<Rightarrow> audit_meta \<Rightarrow> dance_outcome op" where
  "parkLink provider ticket claims binding meta =
     obind (ocatch (ConsumeLinkTicket ticket) (\<lambda>err. osequel (publishLinkRefused meta) (raise err))) (\<lambda>intent. case intent of
       None \<Rightarrow> osequel (publishLinkRefused meta) (raise ErrLinkTicketUnusable)
     | Some i \<Rightarrow> if li_provider i \<noteq> provider then osequel (publishLinkRefused meta) (raise ErrLinkTicketUnusable)
         else obind newDanceSecret (\<lambda>code.
           osequel (PutLinkCode code \<lparr>pl_user = li_user i, pl_provider = provider, pl_claims = claims, pl_binding = binding\<rparr>)
             (ret (DanceLinkCode code))))"

definition claim_or_refuse :: "resolved_invitation \<Rightarrow> user \<Rightarrow> oauth_claims \<Rightarrow> audit_meta \<Rightarrow> user op" where
  "claim_or_refuse invitation u claims meta = obind (read_world w_env) (\<lambda>e.
     if \<not> au_equal_fold (e_auth e) (u_email u) (oc_email claims)
     then osequel (publishLoginFailure u meta FailureInvitationRefused) (raise ErrEmailMismatch)
     else ocatch (ClaimForUser invitation (u_id u)) (\<lambda>err. osequel (publishLoginFailure u meta FailureUserProvisioning) (raise err)))"

definition issueDanceCode :: "string \<Rightarrow> string \<Rightarrow> dance_callback \<Rightarrow> audit_meta \<Rightarrow> dance_outcome op" where
  "issueDanceCode provider credential cb meta = obind (ocatch (verifyProviderCredential provider credential)
       (\<lambda>err. osequel (publishLoginFailure (blank_user [] []) meta (credentialFailureReason err)) (raise ErrOAuthExchangeFailed))) (\<lambda>claims.
     if cb_ticket cb \<noteq> [] then parkLink provider (cb_ticket cb) claims (cb_binding cb) meta else
     obind (resolveInvitation (cb_handle cb) claims meta) (\<lambda>invitation.
     obind (resolveSignInUser provider claims \<lparr>cp_allow_create = invitation \<noteq> None, cp_grant_roles = []\<rparr> meta) (\<lambda>found.
     obind (case invitation of None \<Rightarrow> ret found | Some i \<Rightarrow> claim_or_refuse i found claims meta) (\<lambda>u.
     obind (issueSignInPair u meta) (\<lambda>pair.
     obind newDanceSecret (\<lambda>code.
     osequel (PutCode code \<lparr>dc_pair = pair, dc_binding = cb_binding cb\<rparr>) (ret (DanceCode code))))))))"

definition oauthErrorAccessDenied :: string where "oauthErrorAccessDenied = ''access_denied''"

definition CompleteDance :: "dance_callback \<Rightarrow> audit_meta \<Rightarrow> dance_outcome op" where
  "CompleteDance cb meta = (if cb_error cb \<noteq> [] then
       obind (isOurDance cb) (\<lambda>ours. osequel (if ours then publishLoginFailure (blank_user [] []) meta FailureProviderDenied else ret ())
         (if cb_error cb = oauthErrorAccessDenied then raise ErrOAuthConsentDeclined else raise ErrOAuthProviderDenied))
     else obind (verifyDanceOrigin cb meta) (\<lambda>provider.
       osequel (danceGatewayFor provider)
       (obind (ocatch (Exchange provider (cb_code cb) (cb_verifier cb))
           (\<lambda>_. osequel (publishLoginFailure (blank_user [] []) meta FailureProviderUnavailable) (raise ErrOAuthExchangeFailed))) (\<lambda>credential.
         issueDanceCode provider credential cb meta))))"

section \<open>Redeeming\<close>

definition RedeemDanceCode :: "string \<Rightarrow> string \<Rightarrow> token_pair option op" where
  "RedeemDanceCode code proof_nonce = obind (ConsumeCode code) (\<lambda>entry. case entry of None \<Rightarrow> ret None
     | Some d \<Rightarrow> obind (read_world w_env) (\<lambda>e. ret (if danceBindingProven e (dc_binding d) proof_nonce then Some (dc_pair d) else None)))"

record complete_link_cmd =
  ck_user :: uuid
  ck_code :: string
  ck_proof :: string
  ck_meta :: audit_meta

definition refuseLink :: "uuid \<Rightarrow> audit_meta \<Rightarrow> apperr \<Rightarrow> unit op" where
  "refuseLink uid meta err = (if err = ErrUserNotFound \<or> err = ErrUserBlocked
     then osequel (publishLinkRefused meta) (raise ErrLinkCodeInvalid)
     else osequel (publishLinkRefusedFor uid meta FailureLinkConflict) (raise err))"

definition publishLinked :: "uuid \<Rightarrow> audit_meta \<Rightarrow> unit op" where
  "publishLinked uid meta = auth_publishAudit (AuditProviderLinked uid meta)"

definition CompleteLink :: "complete_link_cmd \<Rightarrow> unit op" where
  "CompleteLink cmd = obind (ConsumeLinkCode (ck_code cmd)) (\<lambda>found. case found of
       None \<Rightarrow> osequel (publishLinkRefused (ck_meta cmd)) (raise ErrLinkCodeInvalid)
     | Some link \<Rightarrow> obind (read_world w_env) (\<lambda>e.
         if \<not> danceBindingProven e (pl_binding link) (ck_proof cmd)
         then osequel (publishLinkRefusedFor (pl_user link) (ck_meta cmd) FailureLinkUnusable) (raise ErrLinkCodeInvalid)
         else if pl_user link \<noteq> ck_user cmd
         then osequel (publishLinkRefusedFor (pl_user link) (ck_meta cmd) FailureLinkUnusable) (raise ErrLinkCodeInvalid)
         else osequel (ocatch (LinkIdentity (pl_user link) (pl_provider link)
               \<lparr>pi_subject = oc_subject (pl_claims link), pi_email = oc_email (pl_claims link), pi_name = oc_name (pl_claims link)\<rparr>)
             (refuseLink (pl_user link) (ck_meta cmd)))
           (publishLinked (pl_user link) (ck_meta cmd))))"

end
