(* ===== verification/AccessInvariant.thy ===== *)
theory AccessInvariant
  imports OAuthDance SessionInvariant AccountSafety
begin

text \<open>
  The whole surface of access to an account (accounts, invitations, one-time codes,
  passwords, sign-ins, browser dances and sessions) as one set of requests, and the contract of a
  predicate on the tables that all of them maintain: one law for each statement the
  services issue, with what the code has read or checked when it issues it.
\<close>

section \<open>Requests\<close>

datatype access_request =
    OnAccount user_request
  | OnSession session_request
  | CreateInvitation create_invitation_cmd
  | ResendInvitation invitation_cmd
  | RevokeInvitation invitation_cmd
  | PreviewInvitation string
  | ListInvitations "invitation_status option"
  | RotateInvitations int
  | PruneInvitations duration int
  | PrepareInvitedSignIn string string
  | ResolveInvitedSignIn string oauth_claims
  | ClaimInvitation resolved_invitation uuid
  | AcceptInvitation accept_cmd
  | RequestCode string otp_purpose
  | RequestReset string
  | PruneCodes duration int
  | SignInWithCode verify_cmd
  | SignInWithPassword password_cmd
  | SignInWithClaims string oauth_claims creation_policy audit_meta
  | SignInBreakGlass string string string
  | ChangeOwnPassword change_password_cmd
  | ResetOwnPassword reset_password_cmd
  | Disconnect uuid string
  | BeginDance string string string string
  | FinishDance dance_callback audit_meta
  | RedeemCode string string
  | MintTicket uuid string
  | RedeemLink complete_link_cmd

fun serve_access :: "access_request \<Rightarrow> unit op" where
  "serve_access (OnAccount r) = serve_user r"
| "serve_access (OnSession r) = serve_session r"
| "serve_access (CreateInvitation cmd) = forget (invitation_Create cmd)"
| "serve_access (ResendInvitation cmd) = invitation_Resend cmd"
| "serve_access (RevokeInvitation cmd) = invitation_Revoke cmd"
| "serve_access (PreviewInvitation raw) = forget (invitation_Preview raw)"
| "serve_access (ListInvitations st) = forget (invitation_List st)"
| "serve_access (RotateInvitations limit) = invitation_Rotate limit"
| "serve_access (PruneInvitations retention limit) = invitation_Prune retention limit"
| "serve_access (PrepareInvitedSignIn handle raw) = PrepareHandle handle raw"
| "serve_access (ResolveInvitedSignIn handle claims) = forget (ResolveForIdentity handle claims)"
| "serve_access (ClaimInvitation invite uid) = forget (ClaimForUser invite uid)"
| "serve_access (AcceptInvitation cmd) = forget (AcceptInvitationWithPassword cmd)"
| "serve_access (RequestCode email purpose) = forget (otp_Request email purpose)"
| "serve_access (RequestReset email) = forget (RequestPasswordReset email)"
| "serve_access (PruneCodes retention limit) = otp_Prune retention limit"
| "serve_access (SignInWithCode cmd) = forget (LoginWithOTP cmd)"
| "serve_access (SignInWithPassword cmd) = forget (LoginWithPassword cmd)"
| "serve_access (SignInWithClaims provider claims pol meta) = forget (SignInWithVerifiedClaims provider claims pol meta)"
| "serve_access (SignInBreakGlass password ip agent) = forget (LoginWithBreakGlass password ip agent)"
| "serve_access (ChangeOwnPassword cmd) = ChangePassword cmd"
| "serve_access (ResetOwnPassword cmd) = ResetPassword cmd"
| "serve_access (Disconnect uid provider) = DisconnectProvider uid provider"
| "serve_access (BeginDance segment token ticket binding) = forget (StartDance segment token ticket binding)"
| "serve_access (FinishDance cb meta) = forget (CompleteDance cb meta)"
| "serve_access (RedeemCode code proof_nonce) = forget (RedeemDanceCode code proof_nonce)"
| "serve_access (MintTicket uid segment) = forget (MintLinkTicket uid segment)"
| "serve_access (RedeemLink cmd) = CompleteLink cmd"

text \<open>The requests that may grant a role past the seats cap.\<close>

definition break_glass :: "access_request \<Rightarrow> bool" where
  "break_glass r = (case r of SignInBreakGlass _ _ _ \<Rightarrow> True | OnAccount (ReqBreakGlass _ _) \<Rightarrow> True | _ \<Rightarrow> False)"

fun serve_all :: "access_request list \<Rightarrow> world \<Rightarrow> world" where
  "serve_all [] w = w"
| "serve_all (r # rs) w = serve_all rs (snd (serve_access r w))"

lemma maintains_forget: "maintains P (forget m) = maintains P m"
proof -
  have "snd (forget m w) = snd (m w)" for w
    by (cases "m w"; cases "fst (m w)") (simp_all add: forget_def osequel_def obind_def ret_def)
  then show ?thesis by (simp add: maintains_def keeps_def)
qed

lemma serve_all_keeps:
  assumes "\<And>r. r \<in> set rs \<Longrightarrow> maintains P (serve_access r)" "tables_sat P w"
  shows "tables_sat P (serve_all rs w)"
  using assms by (induction rs arbitrary: w) (auto simp: maintains_def keeps_def)

section \<open>Rows\<close>

abbreviation invitations :: "db \<Rightarrow> invitation_row list" where
  "invitations d \<equiv> a_invitations (d_auth d)"

definition set_invitations :: "db \<Rightarrow> invitation_row list \<Rightarrow> db" where
  "set_invitations d rows = d\<lparr>d_auth := (d_auth d)\<lparr>a_invitations := rows\<rparr>\<rparr>"

abbreviation credentials :: "db \<Rightarrow> credential_row list" where
  "credentials d \<equiv> a_credentials (d_auth d)"

definition set_credentials :: "db \<Rightarrow> credential_row list \<Rightarrow> db" where
  "set_credentials d rows = d\<lparr>d_auth := (d_auth d)\<lparr>a_credentials := rows\<rparr>\<rparr>"

lemma set_invitations_simps [simp]:
  "invitations (set_invitations d rows) = rows" "d_users (set_invitations d rows) = d_users d"
  "a_integrations (d_auth (set_invitations d rows)) = a_integrations (d_auth d)"
  "a_identities (d_auth (set_invitations d rows)) = a_identities (d_auth d)"
  "credentials (set_invitations d rows) = credentials d" "active_admins (set_invitations d rows) = active_admins d"
  "seats_taken (set_invitations d rows) = seats_taken d"
  by (simp_all add: set_invitations_def active_admins_def seats_taken_def)

lemma set_credentials_simps [simp]:
  "credentials (set_credentials d rows') = rows'" "d_users (set_credentials d rows') = d_users d"
  "a_integrations (d_auth (set_credentials d rows')) = a_integrations (d_auth d)"
  "a_identities (d_auth (set_credentials d rows')) = a_identities (d_auth d)"
  "invitations (set_credentials d rows') = invitations d" "active_admins (set_credentials d rows') = active_admins d"
  "seats_taken (set_credentials d rows') = seats_taken d"
  by (simp_all add: set_credentials_def active_admins_def seats_taken_def)

text \<open>The moves of an invitation: acceptance, revocation and expiry of a pending one, revocation of an expired one.\<close>

fun invitation_next :: "invitation_status \<Rightarrow> invitation_status \<Rightarrow> bool" where
  "invitation_next InvitationPending s = (s \<noteq> InvitationPending)"
| "invitation_next InvitationExpired s = (s = InvitationRevoked)"
| "invitation_next _ s = False"

definition restatus :: "invitation_status \<Rightarrow> (invitation_row \<Rightarrow> invitation_row) \<Rightarrow> bool" where
  "restatus s f \<longleftrightarrow> (\<forall>r. \<exists>a b. f r = r\<lparr>inv_status := s, inv_accepted_at := a, inv_revoked_at := b\<rparr>)"

lemma restatus_moves:
  "restatus InvitationRevoked (\<lambda>r. r\<lparr>inv_status := InvitationRevoked, inv_revoked_at := t\<rparr>)"
  "restatus InvitationAccepted (\<lambda>r. r\<lparr>inv_status := InvitationAccepted, inv_accepted_at := t\<rparr>)"
  "restatus InvitationExpired (\<lambda>r. r\<lparr>inv_status := InvitationExpired\<rparr>)"
proof -
  have "r\<lparr>inv_status := s, inv_revoked_at := t\<rparr> = r\<lparr>inv_status := s, inv_accepted_at := inv_accepted_at r, inv_revoked_at := t\<rparr>"
    "r\<lparr>inv_status := s, inv_accepted_at := t\<rparr> = r\<lparr>inv_status := s, inv_accepted_at := t, inv_revoked_at := inv_revoked_at r\<rparr>"
    "r\<lparr>inv_status := s\<rparr> = r\<lparr>inv_status := s, inv_accepted_at := inv_accepted_at r, inv_revoked_at := inv_revoked_at r\<rparr>" for r s
    by simp_all
  then show "restatus InvitationRevoked (\<lambda>r. r\<lparr>inv_status := InvitationRevoked, inv_revoked_at := t\<rparr>)"
    "restatus InvitationAccepted (\<lambda>r. r\<lparr>inv_status := InvitationAccepted, inv_accepted_at := t\<rparr>)"
    "restatus InvitationExpired (\<lambda>r. r\<lparr>inv_status := InvitationExpired\<rparr>)"
    unfolding restatus_def by blast+
qed

definition attempted :: "env \<Rightarrow> uuid \<Rightarrow> time \<Rightarrow> credential_row \<Rightarrow> credential_row" where
  "attempted e i t c = (if cr_id c = i \<and> live_code c \<and> cr_attempts c < MaxAttempts (au_cfg (e_auth e))
     then c\<lparr>cr_attempts := cr_attempts c + 1, cr_updated_at := t\<rparr> else c)"

definition consumed :: "uuid \<Rightarrow> time \<Rightarrow> credential_row \<Rightarrow> credential_row" where
  "consumed i t c = (if cr_id c = i \<and> live_code c then c\<lparr>cr_consumed_at := Some t, cr_updated_at := t\<rparr> else c)"

definition is_password :: "uuid \<Rightarrow> credential_row \<Rightarrow> bool" where
  "is_password uid c \<longleftrightarrow> cr_user c = uid \<and> cr_kind c = CredentialPassword"

definition repassword :: "uuid \<Rightarrow> string \<Rightarrow> time \<Rightarrow> credential_row \<Rightarrow> credential_row" where
  "repassword uid phc t c = (if is_password uid c then c\<lparr>cr_secret := phc, cr_updated_at := t, cr_attempts := 0,
     cr_expires_at := None, cr_consumed_at := None, cr_nonce := None\<rparr> else c)"

section \<open>Statements\<close>

lemma sat_write: "tables_sat P w \<Longrightarrow> P (w_env w) d \<Longrightarrow> tables_sat P ((tick w)\<lparr>w_db := d\<rparr>)"
  by (simp add: tables_sat_def)

lemma sat_tick [simp]: "tables_sat P (tick w) = tables_sat P w"
  by (simp add: tables_sat_def)

lemma sat_bind:
  "post m (\<lambda>_. tables_sat P) (\<lambda>_. tables_sat P) w \<Longrightarrow> (\<And>a. maintains P (f a)) \<Longrightarrow> post (obind m f) (\<lambda>_. tables_sat P) (\<lambda>_. tables_sat P) w"
  by (auto elim!: post_weaken intro: sat_maintained)

lemma post_invitations_get: "post (invitations_get p) Q R w = (case fault (w_env w) (w_tick w) of Some e \<Rightarrow> R e (tick w)
    | None \<Rightarrow> (case find (p (w_env w)) (invitations (w_db w)) of None \<Rightarrow> R ErrInvitationNotFound (tick w) | Some r \<Rightarrow> Q r (tick w)))"
  by (simp add: invitations_get_def post_auth_query split: option.split)

lemma post_update_invitations: "post (update_invitations p f) Q R w = (case fault (w_env w) (w_tick w) of Some e \<Rightarrow> R e (tick w)
    | None \<Rightarrow> Q (int (length (filter (p (w_env w)) (invitations (w_db w)))))
        ((tick w)\<lparr>w_db := set_invitations (w_db w) (map (\<lambda>r. if p (w_env w) r then f (w_env w) r else r) (invitations (w_db w)))\<rparr>))"
  by (simp add: update_invitations_def on_auth_def post_db_call set_invitations_def split: option.split)

lemma set_oldest: "i \<in> set (oldest key p limit rows) \<Longrightarrow> \<exists>r \<in> set rows. inv_id r = i \<and> p r"
  by (auto simp: oldest_def dest!: in_set_takeD)

lemma maintains_drain: "maintains P batch \<Longrightarrow> maintains P (drain n batch limit)"
  by (induction n) (auto intro!: maintain_rules)

lemma off_tables_access:
  "off_tables (invitations_get p)" "off_tables (invitations_GetByID i)" "off_tables (invitations_GetForUpdateByID i)"
  "off_tables (invitations_GetByTokenHash h)" "off_tables (GetActivePendingByEmail email)" "off_tables (invitations_List st)"
  "off_tables GenerateToken" "off_tables (new_task ty pl key)" "off_tables (user_GetByEmail email)"
  "off_tables (PutInvitationHandle handle i)" "off_tables (ConsumeInvitationHandle handle)"
  "off_tables (credentials_get q)" "off_tables GenerateOTPCode" "off_tables (sealForDelivery c target code purpose)"
  "off_tables (method_Enabled name)" "off_tables (HashPassword pw)" "off_tables (VerifyPassword h pw)"
  "off_tables (bootstrap_Authenticate pw)" "off_tables (code_expired c)"
proof -
  show get: "off_tables (invitations_get p)" for p
    by (auto simp: invitations_get_def intro!: off_tables_ops off_tables_base)
  show "off_tables (invitations_GetByID i)" "off_tables (invitations_GetForUpdateByID i)" "off_tables (invitations_GetByTokenHash h)"
    "off_tables (GetActivePendingByEmail email)"
    by (simp_all add: invitations_GetByID_def invitations_GetForUpdateByID_def invitations_GetByTokenHash_def
        GetActivePendingByEmail_def get)
  have "off_tables (db_call (\<lambda>e (_ :: nat) d. Inr (q e d, d)))" for q :: "env \<Rightarrow> db \<Rightarrow> 'x"
    by (simp add: off_tables_def db_call_def split: option.split)
  then show "off_tables (invitations_List st)"
    by (auto simp: invitations_List_def intro!: off_tables_ops off_tables_base)
  show "off_tables (user_GetByEmail email)" by (simp add: user_GetByEmail_def off_tables_identities)
  show "off_tables (credentials_get q)" by (auto simp: credentials_get_def intro!: off_tables_ops off_tables_base)
  show "off_tables (code_expired c)" by (auto simp: code_expired_def intro!: off_tables_ops off_tables_base)
qed (simp_all add: off_tables_def GenerateToken_def new_task_def PutInvitationHandle_def ConsumeInvitationHandle_def
    GenerateOTPCode_def sealForDelivery_def method_Enabled_def HashPassword_def VerifyPassword_def bootstrap_Authenticate_def
    Let_def split: sum.split option.split)

lemma off_tables_dance:
  "off_tables snapshot_load" "off_tables newDanceSecret" "off_tables (AuthCodeURL provider state verifier)"
  "off_tables (Exchange provider code verifier)" "off_tables (Authenticate m credential)"
  "off_tables (PutCode code entry)" "off_tables (ConsumeCode code)" "off_tables (PutLinkTicket ticket intent)"
  "off_tables (PeekLinkTicket ticket)" "off_tables (ConsumeLinkTicket ticket)" "off_tables (PutLinkCode code link)" "off_tables (ConsumeLinkCode code)"
  by (simp_all add: off_tables_def snapshot_load_def newDanceSecret_def AuthCodeURL_def Exchange_def Authenticate_def PutCode_def ConsumeCode_def
      PutLinkTicket_def PeekLinkTicket_def ConsumeLinkTicket_def PutLinkCode_def ConsumeLinkCode_def store_call_def split: option.split)

lemmas maintains_dance [maintain_rules] = off_tables_dance [THEN maintains_off]

lemmas maintains_access [maintain_rules] = off_tables_access [THEN maintains_off]

section \<open>The contract\<close>

locale access_invariant = account_invariant P reg for P :: "env \<Rightarrow> db \<Rightarrow> bool" and reg :: "integration_row list" +
  assumes queued: "P e d \<Longrightarrow> P e (d\<lparr>d_tasks := ts\<rparr>)"
    and invited: "P e d \<Longrightarrow> invitation_insert e t d (new_invitation cmd actor h ttl now) = Inr (row, d') \<Longrightarrow> P e d'"
    and moved: "P e d \<Longrightarrow> restatus s f \<Longrightarrow>
      (\<And>r. r \<in> set (invitations d) \<Longrightarrow> p r \<Longrightarrow> \<exists>q \<in> set (invitations d). inv_id q = inv_id r \<and> invitation_next (inv_status q) s) \<Longrightarrow>
      P e (set_invitations d (map (\<lambda>r. if p r then f r else r) (invitations d)))"
    and resent: "P e d \<Longrightarrow> r \<in> set (invitations d) \<Longrightarrow> inv_status r = InvitationPending \<Longrightarrow>
      (\<And>q. q \<in> set (invitations d) \<Longrightarrow> inv_token_hash q = h \<Longrightarrow> inv_id q = inv_id r) \<Longrightarrow>
      P e (set_invitations d (map (\<lambda>q. if inv_id q = inv_id r then resend_row e h ex sent q else q) (invitations d)))"
    and dropped: "P e d \<Longrightarrow> (\<And>r. r \<in> set (invitations d) \<Longrightarrow> inv_id r \<in> ids \<Longrightarrow>
        \<exists>q \<in> set (invitations d). inv_id q = inv_id r \<and> inv_status q \<noteq> InvitationPending) \<Longrightarrow>
      P e (set_invitations d (filter (\<lambda>r. inv_id r \<notin> ids) (invitations d)))"
    and code_issued: "P e d \<Longrightarrow> credential_insert e t d (new_code uid ch ex nonce) = Inr (c, d') \<Longrightarrow> P e d'"
    and guessed: "P e d \<Longrightarrow> P e (set_credentials d (map (attempted e i stamp) (credentials d)))"
    and spent: "P e d \<Longrightarrow> P e (set_credentials d (map (consumed i stamp) (credentials d)))"
    and passworded: "P e d \<Longrightarrow> P e (set_credentials d (map (repassword uid phc stamp) (credentials d)))"
    and first_password: "P e d \<Longrightarrow> \<not> (\<exists>c \<in> set (credentials d). is_password uid c \<or> cr_id c = gen e t 0) \<Longrightarrow>
      P e (set_credentials d (credentials d @ [password_row e t uid phc]))"
    and codes_dropped: "P e d \<Longrightarrow> P e (set_credentials d (filter (\<lambda>c. cr_id c \<notin> ids) (credentials d)))"
begin

text \<open>A predicate that ignores the sessions is one of the sessions' invariants.\<close>

sublocale tokens: session_invariant P "{}"
  by unfold_locales (auto simp: set_rows_def intro: sessions)

lemma issue_kept: "maintains P (IssueTokenPair u ip)"
proof -
  have "maintains P (SaveRefreshToken row)" for row
    unfolding SaveRefreshToken_def token_Save_def by (rule maintains_call) (auto simp: Let_def intro: sessions split: if_splits)
  then show ?thesis by (auto simp: IssueTokenPair_def intro!: maintain_rules)
qed

lemma sessions_kept: "maintains P (serve_session r)"
  by (cases r) (auto simp: forget_def intro!: maintain_rules issue_kept tokens.refresh_kept tokens.logout_kept
      tokens.revocations_kept tokens.prune_kept)

lemma queue_kept: "maintains P (scheduler_Schedule ty pl key)"
  by (auto simp: scheduler_Schedule_def ScheduleDelayed_def Let_def intro!: maintain_rules intro: queued split: sum.splits)

lemma mail_kept: "maintains P (sendInvitationEmail i link)"
  by (auto simp: sendInvitationEmail_def SendAsync_def intro!: maintain_rules queue_kept)

lemma found_kept:
  assumes "\<And>w r. tables_sat P w \<Longrightarrow> r \<in> set (invitations (w_db w)) \<Longrightarrow> p (w_env w) r \<Longrightarrow> post (k r) (\<lambda>_. tables_sat P) (\<lambda>_. tables_sat P) w"
  shows "maintains P (obind (invitations_get p) k)"
proof -
  have "post (obind (invitations_get p) k) (\<lambda>_. tables_sat P) (\<lambda>_. tables_sat P) w" if "tables_sat P w" for w
    using that by (auto simp: post_invitations_get dest!: find_member intro!: assms split: option.split)
  then show ?thesis by (simp add: maintains_def keeps_post)
qed

lemma maybe_found_kept:
  assumes "\<And>w r. tables_sat P w \<Longrightarrow> r \<in> set (invitations (w_db w)) \<Longrightarrow> p (w_env w) r \<Longrightarrow> post (k (Some r)) (\<lambda>_. tables_sat P) (\<lambda>_. tables_sat P) w"
    and "maintains P (k None)"
  shows "maintains P (obind (optional ErrInvitationNotFound (invitations_get p)) k)"
proof -
  have "post (obind (optional ErrInvitationNotFound (invitations_get p)) k) (\<lambda>_. tables_sat P) (\<lambda>_. tables_sat P) w" if "tables_sat P w" for w
    using that sat_maintained [OF assms(2), of "tick w"]
    by (auto simp: optional_def post_invitations_get dest!: find_member intro!: assms(1) split: option.split)
  then show ?thesis by (simp add: maintains_def keeps_post)
qed

lemma move_kept:
  assumes "tables_sat P w" "restatus s (f (w_env w))"
    "\<And>r. r \<in> set (invitations (w_db w)) \<Longrightarrow> p (w_env w) r \<Longrightarrow> \<exists>q \<in> set (invitations (w_db w)). inv_id q = inv_id r \<and> invitation_next (inv_status q) s"
  shows "post (update_invitations p f) (\<lambda>_. tables_sat P) (\<lambda>_. tables_sat P) w"
proof -
  have "P (w_env w) (w_db w)" using assms(1) by (simp add: tables_sat_def)
  from moved [OF this assms(2,3)] assms(1) show ?thesis
    by (auto simp: post_update_invitations intro: sat_write split: option.split)
qed

lemma revoke_kept:
  assumes "tables_sat P w" "r \<in> set (invitations (w_db w))" "invitation_next (inv_status r) InvitationRevoked"
  shows "post (SetRevoked (inv_id r) now) (\<lambda>_. tables_sat P) (\<lambda>_. tables_sat P) w"
  unfolding SetRevoked_def
  using assms by (auto intro!: post_weaken [OF move_kept [where s = InvitationRevoked]] restatus_moves)

lemma accept_kept: "maintains P (MarkAccepted i)"
proof -
  have "maintains P (update_invitations (claimable i now) (\<lambda>e r. r\<lparr>inv_status := InvitationAccepted, inv_accepted_at := Some (pg_time e now)\<rparr>))" for now
    by (auto simp: maintains_def keeps_post claimable_def intro!: move_kept [where s = InvitationAccepted] restatus_moves)
  then show ?thesis by (auto simp: MarkAccepted_def intro!: maintain_rules)
qed

lemma sweep_kept: "maintains P (ExpireOlderThan now limit)" "maintains P (PruneTerminalOlderThan cutoff limit)"
proof -
  have "P e (set_invitations d (map (\<lambda>r. if inv_id r \<in> set (oldest inv_expires_at (\<lambda>r. inv_status r = InvitationPending \<and> q r) limit (invitations d))
      then r\<lparr>inv_status := InvitationExpired\<rparr> else r) (invitations d)))" if "P e d" for e d q
    using that by (rule moved [OF _ restatus_moves(3)]) (auto dest!: set_oldest intro: bexI)
  then show "maintains P (ExpireOlderThan now limit)"
    unfolding ExpireOlderThan_def
    by (intro maintains_auth) (auto simp: Let_def set_invitations_def split: if_splits)
  have "P e (set_invitations d (filter (\<lambda>r. inv_id r \<notin> set (oldest inv_created_at (\<lambda>r. inv_status r \<noteq> InvitationPending \<and> q r) limit (invitations d)))
      (invitations d)))" if "P e d" for e d q
    using that by (rule dropped) (auto dest!: set_oldest intro: bexI)
  then show "maintains P (PruneTerminalOlderThan cutoff limit)"
    unfolding PruneTerminalOlderThan_def
    by (intro maintains_auth) (auto simp: Let_def set_invitations_def split: if_splits)
qed

lemma rows_get_kept: "maintains P (optional missing (invitations_get p))" "maintains P (optional missing' (credentials_get q))"
  by (auto intro!: maintain_rules)

lemma create_invitation_kept: "maintains P (invitation_Create cmd)"
proof -
  have stale: "maintains P (revokeActiveInvitation now email)" for now email
    unfolding revokeActiveInvitation_def GetActivePendingByEmail_def
    by (rule maybe_found_kept) (auto intro: revoke_kept maintain_rules)
  have insert: "maintains P (invitations_Create (new_invitation cmd actor h ttl now))" for actor h ttl now
    unfolding invitations_Create_def by (auto intro!: maintain_rules intro: invited)
  have "maintains P (invite_tx cmd raw h)" for raw h
    by (auto simp: invite_tx_def intro!: maintain_rules stale insert mail_kept)
  then show ?thesis by (auto simp: invitation_Create_def intro!: maintain_rules)
qed

lemma resend_kept: "maintains P (invitation_Resend cmd)"
proof -
  have "post (invitations_Resend (inv_id r) h ex sent) (\<lambda>_. tables_sat P) (\<lambda>_. tables_sat P) w"
    if "tables_sat P w" "r \<in> set (invitations (w_db w))" "inv_status r = InvitationPending" for w r h ex sent
  proof -
    have "P (w_env w) (w_db w)" using that(1) by (simp add: tables_sat_def)
    note moved = resent [OF this that(2,3), of h ex sent]
    show ?thesis
      using that(1) moved by (auto simp: invitations_Resend_def on_auth_def post_db_call set_invitations_def [symmetric]
          intro!: sat_write split: option.split sum.splits if_splits)
  qed
  then have "post (obind (invitations_Resend (inv_id r) h ex sent) (\<lambda>x. sendInvitationEmail x link)) (\<lambda>_. tables_sat P) (\<lambda>_. tables_sat P) w"
    if "tables_sat P w" "r \<in> set (invitations (w_db w))" "inv_status r = InvitationPending" for w r h ex sent link
    using that by (intro sat_bind mail_kept) blast
  then have "maintains P (resend_tx i now raw h)" for i now raw h
    unfolding resend_tx_def invitations_GetForUpdateByID_def
    by (intro found_kept) (auto simp: EffectiveStatus_def split: invitation_status.split)
  then show ?thesis by (auto simp: invitation_Resend_def intro!: maintain_rules)
qed

lemma revoke_invitation_kept: "maintains P (invitation_Revoke cmd)"
proof -
  have "post (obind UTCNow (\<lambda>now. osequel (SetRevoked (inv_id r) now) (ret x))) (\<lambda>_. tables_sat P) (\<lambda>_. tables_sat P) w"
    if "tables_sat P w" "r \<in> set (invitations (w_db w))" "invitation_next (inv_status r) InvitationRevoked" for w r and x :: "invitation_row option"
    by (rule sat_off_bind [OF off_tables_base(1) that(1)])
      (use that(2,3) in \<open>auto simp: same_tables_def intro: revoke_kept\<close>)
  then have "maintains P (revoke_invitation_tx i)" for i
    unfolding revoke_invitation_tx_def invitations_GetForUpdateByID_def
    by (intro found_kept) (auto simp: post_obind split: invitation_status.split)
  then show ?thesis by (auto simp: invitation_Revoke_def intro!: maintain_rules)
qed

lemma invitation_sweeps_kept: "maintains P (invitation_Rotate limit)" "maintains P (invitation_Prune retention limit)"
  by (auto simp: invitation_Rotate_def invitation_Prune_def Let_def intro!: maintain_rules maintains_drain sweep_kept)

lemma invitation_reads_kept: "maintains P (invitation_Preview raw)" "maintains P (invitation_List st)" "maintains P (PrepareHandle handle raw)"
  "maintains P (ResolveForIdentity handle claims)" "maintains P (ResolveByToken raw)"
  by (auto simp: invitation_Preview_def invitation_List_def PrepareHandle_def ResolveForIdentity_def ResolveByToken_def intro!: maintain_rules)

lemma claim_kept: "maintains P (ClaimForUser invite uid)"
  by (auto simp: ClaimForUser_def claim_tx_def intro!: maintain_rules accept_kept roles_kept)

lemma consume_kept: "maintains P (ConsumeOTP i)"
proof -
  have "maintains P (update_credentials (\<lambda>c. cr_id c = i \<and> live_code c)
      (\<lambda>e c. c\<lparr>cr_consumed_at := Some (pg_time e now), cr_updated_at := pg_time e now\<rparr>))" for now
    unfolding update_credentials_def
    by (rule maintains_auth) (use spent [unfolded consumed_def] in \<open>auto simp: set_credentials_def\<close>)
  then show ?thesis by (auto simp: ConsumeOTP_def intro!: maintain_rules)
qed

lemma guess_kept:
  assumes "\<And>x. maintains P (k x)"
  shows "maintains P (obind (read_cfg MaxAttempts) (\<lambda>m. obind (ClaimOTPAttempt i m) k))"
proof -
  have "post (ClaimOTPAttempt i (MaxAttempts (au_cfg (e_auth (w_env w))))) (\<lambda>_. tables_sat P) (\<lambda>_. tables_sat P) w" if "tables_sat P w" for w
  proof -
    have "P (w_env w) (w_db w)" using that by (simp add: tables_sat_def)
    from guessed [OF this, unfolded attempted_def, of i] that show ?thesis
      by (auto simp: ClaimOTPAttempt_def update_credentials_def post_now on_auth_def post_db_call set_credentials_def
          intro!: sat_write [of P "tick w", simplified] split: option.split)
  qed
  then have "post (obind (read_cfg MaxAttempts) (\<lambda>m. obind (ClaimOTPAttempt i m) k)) (\<lambda>_. tables_sat P) (\<lambda>_. tables_sat P) w" if "tables_sat P w" for w
    using that sat_bind [where f = k] assms by (simp add: read_cfg_def del: post_obind) (simp)
  then show ?thesis by (simp add: maintains_def keeps_post)
qed

lemma upsert_kept: "maintains P (UpsertPassword uid phc)"
  unfolding UpsertPassword_def
  by (rule maintains_call) (use passworded [unfolded repassword_def is_password_def] first_password in
    \<open>auto simp: Let_def set_credentials_def is_password_def split: if_splits\<close>)

lemma request_code_kept: "maintains P (otp_Request email purpose)" "maintains P (RequestPasswordReset email)"
proof -
  have "maintains P (credentials_Create (new_code uid ch ex nonce))" for uid ch ex nonce
    unfolding credentials_Create_def by (auto intro!: maintain_rules intro: code_issued)
  then have "maintains P (otp_issue u nonce purpose)" for u nonce purpose
    by (auto simp: otp_issue_def issue_tx_def claimSlot_def GetUnconsumedOTPByUserIDForUpdate_def
        intro!: maintain_rules consume_kept queue_kept)
  then show request: "maintains P (otp_Request email purpose)" for purpose
    by (auto simp: otp_Request_def intro!: maintain_rules)
  show "maintains P (RequestPasswordReset email)"
    by (auto simp: RequestPasswordReset_def intro!: maintain_rules request)
qed

lemma verify_kept: "maintains P (otp_Verify cmd)"
proof -
  have "maintains P (redeem u c cmd)" for u c
    by (auto simp: redeem_def intro!: maintain_rules consume_kept guess_kept)
  then show ?thesis
    by (auto simp: otp_Verify_def GetUnconsumedOTPByUserID_def intro!: maintain_rules)
qed

lemma prune_codes_kept: "maintains P (otp_Prune retention limit)"
proof -
  have "maintains P (PruneOTPExpiredBefore cutoff l)" for cutoff l
    unfolding PruneOTPExpiredBefore_def
    by (rule maintains_auth) (use codes_dropped in \<open>auto simp: Let_def set_credentials_def split: if_splits\<close>)
  then show ?thesis by (auto simp: otp_Prune_def Let_def intro!: maintain_rules maintains_drain)
qed

lemma audits_kept: "maintains P (publishLoginFailure u meta reason)" "maintains P (publishLoginSuccess u meta pair)"
  "maintains P (publishOTPLoginFailure email ip agent uo reason)" "maintains P (publishPasswordLoginFailure cmd m)"
  "maintains P (auth_publishAudit a)" "maintains P (methodOffered name)" "maintains P (password_allowed pw)"
  by (auto simp: publishLoginFailure_def publishLoginSuccess_def publishOTPLoginFailure_def publishPasswordLoginFailure_def
      auth_publishAudit_def methodOffered_def password_allowed_def intro!: maintain_rules)

lemma issue_audited_kept: "maintains P (issue_or_audit u ip meta)"
  by (auto simp: issue_or_audit_def intro!: maintain_rules issue_kept audits_kept)

lemmas flow_rules = maintain_rules audits_kept issue_audited_kept verify_kept consume_kept

lemma sign_ins_kept: "maintains P (LoginWithOTP cmd)" "maintains P (LoginWithPassword pcmd)"
  "maintains P (SignInWithVerifiedClaims provider claims pol meta)"
proof -
  show "maintains P (LoginWithOTP cmd)"
    by (auto simp: LoginWithOTP_def intro!: flow_rules split: verify_result.split)
  show "maintains P (LoginWithPassword pcmd)"
    by (auto simp: LoginWithPassword_def loginWithPassword_def loginWithStoredPassword_def refusePassword_def
        GetPasswordByUserID_def intro!: flow_rules)
  show "maintains P (SignInWithVerifiedClaims provider claims pol meta)"
    by (auto simp: SignInWithVerifiedClaims_def resolveSignInUser_def issueSignInPair_def intro!: flow_rules accounts_kept)
qed

lemma passwords_kept: "maintains P (ChangePassword ccmd)" "maintains P (ResetPassword rcmd)"
proof -
  have install: "maintains P (installPassword uid new revoke)" if "maintains P revoke" for uid new revoke
    using that by (auto simp: installPassword_def intro!: maintain_rules upsert_kept)
  have lookups: "maintains P (GetRefreshToken raw)" "maintains P (FamilyByRefreshToken raw uid)" for raw uid
    by (auto simp: GetRefreshToken_def FamilyByRefreshToken_def GetRefreshTokenByHash_def intro!: maintain_rules)
  have "maintains P (verifyCurrentPassword ccmd)"
    by (auto simp: verifyCurrentPassword_def requireFreshSession_def GetPasswordByUserID_def intro!: flow_rules lookups)
  moreover have "maintains P (revokeOtherSessions ccmd)"
    by (auto simp: revokeOtherSessions_def intro!: flow_rules lookups tokens.revocations_kept)
  ultimately show "maintains P (ChangePassword ccmd)"
    by (auto simp: ChangePassword_def intro!: flow_rules install)
  show "maintains P (ResetPassword rcmd)"
    by (auto simp: ResetPassword_def intro!: flow_rules install tokens.revocations_kept split: verify_result.split)
qed

lemma accept_invitation_kept: "maintains P (AcceptInvitationWithPassword cmd)"
  by (auto simp: AcceptInvitationWithPassword_def accept_tx_def Let_def intro!: flow_rules invitation_reads_kept
      without_identity_kept upsert_kept claim_kept)

lemma disconnect_kept: "maintains P (DisconnectProvider uid provider)"
  by (auto simp: DisconnectProvider_def hasBuiltinSignIn_def HasPassword_def ListConnectedProviders_def ListMethodsByUserID_def GetPasswordByUserID_def
      intro!: flow_rules linking_kept)

lemma dance_parts_kept: "maintains P (DanceProvider segment)" "maintains P (danceGatewayFor provider)"
  "maintains P (verifyLinkTicket ticket provider)" "maintains P (mintInvitationHandle token)" "maintains P (isOurDance cb)"
  "maintains P (verifyDanceOrigin cb meta)" "maintains P (verifyProviderCredential provider credential)"
  "maintains P (resolveInvitation handle claims meta)" "maintains P (parkLink provider ticket claims binding meta)"
  by (auto simp: DanceProvider_def danceGatewayFor_def verifyLinkTicket_def mintInvitationHandle_def isOurDance_def verifyDanceOrigin_def
      refuseDance_def verifyProviderCredential_def methods_Get_def resolveInvitation_def parkLink_def publishLinkRefused_def publishLinkRefusedFor_def
      Let_def intro!: flow_rules invitation_reads_kept)

lemma dances_kept: "maintains P (StartDance segment token ticket binding)" "maintains P (CompleteDance cb meta)"
  "maintains P (RedeemDanceCode code proof_nonce)" "maintains P (MintLinkTicket uid segment)" "maintains P (CompleteLink lcmd)"
proof -
  show "maintains P (StartDance segment token ticket binding)" "maintains P (RedeemDanceCode code proof_nonce)" "maintains P (MintLinkTicket uid segment)"
    by (auto simp: StartDance_def RedeemDanceCode_def MintLinkTicket_def intro!: flow_rules dance_parts_kept)
  have "maintains P (claim_or_refuse invitation u claims meta)" for invitation u claims
    by (auto simp: claim_or_refuse_def intro!: flow_rules claim_kept)
  then have "maintains P (issueDanceCode provider credential cb meta)" for provider credential
    by (auto simp: issueDanceCode_def resolveSignInUser_def issueSignInPair_def intro!: flow_rules dance_parts_kept accounts_kept)
  then show "maintains P (CompleteDance cb meta)"
    by (auto simp: CompleteDance_def intro!: flow_rules dance_parts_kept)
  show "maintains P (CompleteLink lcmd)"
    by (auto simp: CompleteLink_def refuseLink_def publishLinked_def publishLinkRefused_def publishLinkRefusedFor_def
        intro!: flow_rules linking_kept)
qed

lemmas access_kept = dances_kept sessions_kept create_invitation_kept resend_kept revoke_invitation_kept invitation_sweeps_kept
  invitation_reads_kept claim_kept accept_invitation_kept request_code_kept prune_codes_kept sign_ins_kept passwords_kept disconnect_kept

lemma guarded_access_kept: "\<not> break_glass r \<Longrightarrow> maintains P (serve_access r)"
  by (cases r) (auto simp: maintains_forget break_glass_def intro!: access_kept guarded_requests_kept)

end

text \<open>With the break-glass sign-in, for a predicate that does not depend on the seats cap.\<close>

locale uncapped_access = access_invariant P reg + uncapped_invariant P reg for P :: "env \<Rightarrow> db \<Rightarrow> bool" and reg :: "integration_row list"
begin

lemma all_access_kept: "maintains P (serve_access r)"
proof (cases "break_glass r")
  case True
  have account: "maintains P (EnsureBreakGlassAccount em nm)" for em nm
    using requests_kept [of "ReqBreakGlass em nm"] by (simp add: maintains_forget)
  then have "maintains P (LoginWithBreakGlass pw ip agent)" for pw ip agent
    by (auto simp: LoginWithBreakGlass_def Let_def intro!: flow_rules)
  with True show ?thesis
    by (auto simp: break_glass_def maintains_forget intro!: account split: access_request.splits user_request.splits)
qed (rule guarded_access_kept)

lemma access_sequences_kept: "w_tx w = None \<Longrightarrow> P (w_env w) (w_db w) \<Longrightarrow> tables_sat P (serve_all rs w)"
  by (rule serve_all_keeps) (simp_all add: all_access_kept tables_sat_top)

end

section \<open>Accounts under every request\<close>

lemma invitation_insert_frame: "invitation_insert e t d i = Inr (row, d') \<Longrightarrow>
    d' = set_invitations d (invitations d @ [row]) \<and> inv_status row = inv_status i"
  by (auto simp: invitation_insert_def Let_def set_invitations_def split: if_splits)

lemma credential_insert_frame: "credential_insert e t d c = Inr (row, d') \<Longrightarrow> d' = set_credentials d (credentials d @ [row])"
  by (auto simp: credential_insert_def Let_def set_credentials_def split: if_splits)

lemma identity_insert_frame: "identity_insert e t d r = Inr (i, d') \<Longrightarrow> d_users d' = d_users d
    \<and> a_integrations (d_auth d') = a_integrations (d_auth d) \<and> invitations d' = invitations d \<and> credentials d' = credentials d"
  by (auto simp: identity_insert_def Let_def split: if_splits)

lemma distinct_filter_map:
  assumes "distinct (map g (filter p xs))" "\<And>x. x \<in> set xs \<Longrightarrow> p (h x) \<Longrightarrow> p x" "\<And>x. x \<in> set xs \<Longrightarrow> g (h x) = g x"
  shows "distinct (map g (filter p (map h xs)))"
proof -
  have "filter p (map h xs) = map h (filter (\<lambda>x. p (h x)) (filter p xs))"
    using assms(2) by (auto simp: filter_map comp_def intro!: arg_cong [where f = "map h"] filter_cong)
  moreover have "map g (map h ys) = map g ys" if "set ys \<subseteq> set xs" for ys
    using that assms(3) by auto
  ultimately show ?thesis
    using distinct_map_filtered [OF assms(1), of "\<lambda>x. p (h x)"] by (simp add: subset_eq del: map_map filter_filter)
qed

lemma tables_seats [simp]: "seats_taken (d\<lparr>d_tasks := ts\<rparr>) = seats_taken d" "active_admins (d\<lparr>d_tasks := ts\<rparr>) = active_admins d"
  by (simp_all add: seats_taken_def active_admins_def)

interpretation admin_access: uncapped_access "admin_inv reg" reg for reg
  by unfold_locales (auto simp: admin_inv_def users_distinct_def dest!: invitation_insert_frame credential_insert_frame)

interpretation seat_access: access_invariant "seats_inv cap reg" reg for cap reg
  by unfold_locales (auto simp: seats_inv_def users_distinct_def dest!: invitation_insert_frame credential_insert_frame)

interpretation identity_access: uncapped_access "identities_inv reg" reg for reg
  by unfold_locales (auto simp: identities_inv_def dest!: invitation_insert_frame credential_insert_frame)

section \<open>Properties\<close>

text \<open>C4. An organization never loses its last active administrator: from tables with unique
  account identifiers and an active administrator, any sequence of access requests (role
  changes, blocking, profile edits, linking, invitations, codes, passwords, sign-ins of
  every kind, browser dances, sessions), whichever of them fail and however the database misbehaves, leaves
  an active administrator.\<close>

theorem last_admin_never_lost:
  assumes "w_tx w = None" "users_distinct (w_db w)" "\<exists>u \<in> set (d_users (w_db w)). IsActiveAdmin u"
  shows "\<exists>u \<in> set (d_users (w_db (serve_all rs w))). IsActiveAdmin u"
proof -
  let ?reg = "a_integrations (d_auth (w_db w))"
  have "filter IsActiveAdmin (d_users (w_db w)) \<noteq> []" using assms(3) by (auto simp: filter_empty_conv)
  then have "admin_inv ?reg (w_env w) (w_db w)"
    using assms(2) by (auto simp: admin_inv_def active_admins_def Suc_le_eq)
  from admin_access.access_sequences_kept [OF assms(1) this, of rs] show ?thesis
    by (auto simp: tables_sat_def admin_inv_def active_admins_def Suc_le_eq filter_empty_conv)
qed

theorem last_admin_never_lost_witness:
  "\<exists>u \<in> set (d_users (w_db (serve_all [OnAccount (ReqBlockUser \<lparr>bc_actor = None, bc_user_id = 1\<rparr>),
      OnAccount (ReqRevokeRole \<lparr>rv_actor = None, rv_user_id = 1, rv_role = RoleAdmin\<rparr>)] (quiet_world sample_accounts)))). IsActiveAdmin u"
  by (rule last_admin_never_lost)
    (simp_all add: account_samples users_distinct_def IsActiveAdmin_def IsAdmin_def IsBlocked_def)


definition capped_world :: "int \<Rightarrow> db \<Rightarrow> world" where
  "capped_world cap d = (quiet_world d)\<lparr>w_env := quiet_env\<lparr>e_auth := quiet_auth\<lparr>au_seats := (\<lambda>_. Some cap)\<rparr>\<rparr>\<rparr>"


text \<open>C36. Identities stay attributable: after any sequence of access requests each provider
  subject belongs to one account, each account has at most one identity per provider, and
  every identity names an existing account and a login provider of the registry.\<close>

theorem identities_well_formed:
  assumes "w_tx w = None" "identities_inv reg (w_env w) (w_db w)"
  shows "identities_inv reg (w_env (serve_all rs w)) (w_db (serve_all rs w))"
  using identity_access.access_sequences_kept [OF assms] by (simp add: tables_sat_def)

theorem identities_well_formed_witness:
  "identities_inv sample_registry
     (w_env (serve_all [OnAccount (ReqLinkIdentity 2 ''google'' \<lparr>pi_subject = ''x'', pi_email = [], pi_name = []\<rparr>)] (quiet_world sample_accounts)))
     (w_db (serve_all [OnAccount (ReqLinkIdentity 2 ''google'' \<lparr>pi_subject = ''x'', pi_email = [], pi_name = []\<rparr>)] (quiet_world sample_accounts)))"
  by (rule identities_well_formed) (simp_all add: sample_identities quiet_world_def)

end
