(* ===== verification/InvitationInvariant.thy ===== *)
theory InvitationInvariant
  imports AccessInvariant SessionBehaviour
begin

text \<open>
  Invitations under every request: one live invitation per address, tokens that name one
  row, rows that only move forward; and the claim, which spends an invitation once, grants
  its roles and finds the seat the invitation had reserved.
\<close>

section \<open>Well-formed tables\<close>

definition pending :: "invitation_row \<Rightarrow> bool" where
  "pending r \<longleftrightarrow> inv_status r = InvitationPending"

definition invitations_inv :: "integration_row list \<Rightarrow> env \<Rightarrow> db \<Rightarrow> bool" where
  "invitations_inv reg e d \<longleftrightarrow> a_integrations (d_auth d) = reg \<and> distinct (map inv_id (invitations d))
     \<and> distinct (map inv_token_hash (invitations d))
     \<and> distinct (map (\<lambda>r. au_pg_lower (e_auth e) (inv_email r)) (filter pending (invitations d)))
     \<and> (\<forall>r \<in> set (invitations d). inv_invited_by r \<in> u_id ` set (d_users d))"

text \<open>Rows rewritten in place, none of them back to pending, keep what is unique about them.\<close>

lemma rewritten_inv:
  assumes "invitations_inv reg e d"
    "\<And>r. inv_id (f r) = inv_id r \<and> inv_email (f r) = inv_email r \<and> inv_invited_by (f r) = inv_invited_by r"
    "\<And>r. r \<in> set (invitations d) \<Longrightarrow> pending (f r) \<Longrightarrow> pending r"
    "distinct (map inv_token_hash (map f (invitations d)))"
  shows "invitations_inv reg e (set_invitations d (map f (invitations d)))"
  using assms distinct_filter_map [of "\<lambda>r. au_pg_lower (e_auth e) (inv_email r)" pending "invitations d" f]
  by (auto simp: invitations_inv_def comp_def)

lemma inserted_inv:
  assumes "invitations_inv reg e d" "invitation_insert e t d i = Inr (row, d')"
  shows "invitations_inv reg e d'"
  using assms by (auto simp: invitations_inv_def invitation_insert_def Let_def same_email_def pending_def split: if_splits; blast)

lemma same_invitation:
  "invitations_inv reg e d \<Longrightarrow> r \<in> set (invitations d) \<Longrightarrow> q \<in> set (invitations d) \<Longrightarrow> inv_id q = inv_id r \<Longrightarrow> q = r"
  by (auto simp: invitations_inv_def distinct_map dest: inj_onD)

lemma moved_fields:
  assumes "restatus s f"
  shows "inv_id (f r) = inv_id r" "inv_email (f r) = inv_email r" "inv_roles (f r) = inv_roles r" "inv_invited_by (f r) = inv_invited_by r"
    "inv_token_hash (f r) = inv_token_hash r" "inv_created_at (f r) = inv_created_at r" "inv_status (f r) = s"
proof -
  obtain a b where "f r = r\<lparr>inv_status := s, inv_accepted_at := a, inv_revoked_at := b\<rparr>"
    using assms unfolding restatus_def by blast
  then show "inv_id (f r) = inv_id r" "inv_email (f r) = inv_email r" "inv_roles (f r) = inv_roles r" "inv_invited_by (f r) = inv_invited_by r"
    "inv_token_hash (f r) = inv_token_hash r" "inv_created_at (f r) = inv_created_at r" "inv_status (f r) = s" by simp_all
qed

lemma next_not_pending: "invitation_next a b \<Longrightarrow> b \<noteq> InvitationPending"
  by (cases a; cases b) auto

lemma moved_inv:
  assumes "invitations_inv reg e d" "restatus s f"
    "\<And>r. r \<in> set (invitations d) \<Longrightarrow> p r \<Longrightarrow> \<exists>q \<in> set (invitations d). inv_id q = inv_id r \<and> invitation_next (inv_status q) s"
  shows "invitations_inv reg e (set_invitations d (map (\<lambda>r. if p r then f r else r) (invitations d)))"
proof (rule rewritten_inv [OF assms(1)])
  note same = moved_fields [OF assms(2)]
  have "map inv_token_hash (map (\<lambda>r. if p r then f r else r) (invitations d)) = map inv_token_hash (invitations d)"
    by (simp add: same)
  then show "distinct (map inv_token_hash (map (\<lambda>r. if p r then f r else r) (invitations d)))"
    using assms(1) by (simp add: invitations_inv_def del: map_map)
  show "pending r" if "r \<in> set (invitations d)" "pending (if p r then f r else r)" for r
    using that assms(3) [OF that(1)] by (auto simp: pending_def same dest: next_not_pending split: if_splits)
qed (simp add: moved_fields [OF assms(2)])

lemma resent_inv:
  assumes "invitations_inv reg e d" "r \<in> set (invitations d)"
    "\<And>q. q \<in> set (invitations d) \<Longrightarrow> inv_token_hash q = h \<Longrightarrow> inv_id q = inv_id r"
  shows "invitations_inv reg e (set_invitations d (map (\<lambda>q. if inv_id q = inv_id r then resend_row e h ex sent q else q) (invitations d)))"
proof (rule rewritten_inv [OF assms(1)])
  let ?f = "\<lambda>q. if inv_id q = inv_id r then resend_row e h ex sent q else q"
  have "inj_on (inv_token_hash \<circ> ?f) (set (invitations d))"
    using assms(1) assms(3) unfolding invitations_inv_def distinct_map
    by (auto simp: inj_on_def resend_row_def)
  then show "distinct (map inv_token_hash (map ?f (invitations d)))"
    using assms(1) by (simp add: invitations_inv_def distinct_map del: comp_apply)
qed (auto simp: resend_row_def pending_def split: if_splits)

lemma dropped_inv: "invitations_inv reg e d \<Longrightarrow> invitations_inv reg e (set_invitations d (filter q (invitations d)))"
  using distinct_map_filtered [of "\<lambda>r. au_pg_lower (e_auth e) (inv_email r)" "filter pending (invitations d)" q]
  by (auto simp: invitations_inv_def distinct_map_filtered conj_commute)

interpretation invites: uncapped_access "invitations_inv reg" reg for reg
proof unfold_locales
  show "invitations_inv reg e d'" if "invitations_inv reg e d" "invitation_insert e t d (new_invitation cmd actor h ttl now) = Inr (row, d')"
    for e d t cmd actor h ttl now row d'
    using that by (rule inserted_inv)
  show "invitations_inv reg e (set_invitations d (map (\<lambda>r. if p r then f r else r) (invitations d)))"
    if "invitations_inv reg e d" "restatus s f"
      "\<And>r. r \<in> set (invitations d) \<Longrightarrow> p r \<Longrightarrow> \<exists>q \<in> set (invitations d). inv_id q = inv_id r \<and> invitation_next (inv_status q) s" for e d s f p
    using that by (rule moved_inv)
  show "invitations_inv reg e (set_invitations d (map (\<lambda>q. if inv_id q = inv_id r then resend_row e h ex sent q else q) (invitations d)))"
    if "invitations_inv reg e d" "r \<in> set (invitations d)"
      "\<And>q. q \<in> set (invitations d) \<Longrightarrow> inv_token_hash q = h \<Longrightarrow> inv_id q = inv_id r" for e d r h ex sent
    using that by (rule resent_inv)
  show "invitations_inv reg e d'" if "invitations_inv reg e d" "identity_insert e t d (new_identity uid iid s m) = Inr (i, d')"
    for e d t uid iid s m i d'
    using that identity_insert_frame [OF that(2)] by (simp add: invitations_inv_def)
  show "invitations_inv reg e (set_invitations d (filter (\<lambda>r. inv_id r \<notin> ids) (invitations d)))" if "invitations_inv reg e d" for e d ids
    using that by (rule dropped_inv)
  show "invitations_inv reg e (d\<lparr>d_users := d_users d @ [row]\<rparr>)" if "invitations_inv reg e d" for e d row
    using that by (auto simp: invitations_inv_def)
qed (auto simp: invitations_inv_def written_users dest!: credential_insert_frame)

section \<open>History\<close>

text \<open>What a row may have become: what was sent stays, the status moves forward, and an accepted or revoked row is final.\<close>

definition later :: "invitation_row \<Rightarrow> invitation_row \<Rightarrow> bool" where
  "later r0 r \<longleftrightarrow> inv_id r = inv_id r0 \<and> inv_email r = inv_email r0 \<and> inv_roles r = inv_roles r0 \<and> inv_invited_by r = inv_invited_by r0
     \<and> inv_created_at r = inv_created_at r0 \<and> (inv_status r = inv_status r0 \<or> invitation_next (inv_status r0) (inv_status r))
     \<and> (inv_status r0 \<in> {InvitationAccepted, InvitationRevoked} \<longrightarrow> r = r0)"

definition history_inv :: "invitation_row list \<Rightarrow> integration_row list \<Rightarrow> env \<Rightarrow> db \<Rightarrow> bool" where
  "history_inv rows reg e d \<longleftrightarrow> invitations_inv reg e d \<and> (\<forall>t. gen e t 0 \<notin> inv_id ` set rows)
     \<and> (\<forall>r0 \<in> set rows. \<forall>r \<in> set (invitations d). inv_id r = inv_id r0 \<longrightarrow> later r0 r)"

lemma later_refl: "later r r"
  by (simp add: later_def)

lemma later_moved:
  assumes "later r0 r" "restatus s f" "invitation_next (inv_status r) s"
  shows "later r0 (f r)"
proof -
  have "invitation_next a b \<Longrightarrow> invitation_next b c \<Longrightarrow> invitation_next a c" for a b c
    by (cases a; cases b; cases c) simp_all
  moreover have "inv_status r0 \<notin> {InvitationAccepted, InvitationRevoked}"
    using assms(1,3) by (auto simp: later_def)
  ultimately show ?thesis
    using assms(1,3) moved_fields [OF assms(2), of r] by (auto simp: later_def)
qed

lemma resend_id [simp]: "inv_id (resend_row e h ex sent r) = inv_id r"
  by (simp add: resend_row_def)

lemma later_resent: "later r0 r \<Longrightarrow> inv_status r = InvitationPending \<Longrightarrow> later r0 (resend_row e h ex sent r)"
  by (auto simp: later_def resend_row_def)

interpretation past_invites: uncapped_access "history_inv rows reg" reg for rows reg
proof unfold_locales
  show "history_inv rows reg e d'" if "history_inv rows reg e d" "invitation_insert e t d (new_invitation cmd actor h ttl now) = Inr (row, d')"
    for e d t cmd actor h ttl now row d'
  proof -
    have "inv_id row = gen e t 0" using that(2) by (auto simp: invitation_insert_def Let_def split: if_splits)
    with that show ?thesis
      using invites.invited invitation_insert_frame [OF that(2)] by (force simp: history_inv_def)
  qed
  show "history_inv rows reg e (set_invitations d (map (\<lambda>r. if p r then f r else r) (invitations d)))"
    if inv: "history_inv rows reg e d" and f: "restatus s f"
      and p: "\<And>r. r \<in> set (invitations d) \<Longrightarrow> p r \<Longrightarrow> \<exists>q \<in> set (invitations d). inv_id q = inv_id r \<and> invitation_next (inv_status q) s" for e d s f p
  proof -
    have wf: "invitations_inv reg e d" using inv by (simp add: history_inv_def)
    have "invitation_next (inv_status r) s" if "r \<in> set (invitations d)" "p r" for r
      using p [OF that] same_invitation [OF wf that(1)] by blast
    then show ?thesis
      using inv moved_inv [OF wf f p] f
      by (auto simp: history_inv_def moved_fields intro: later_moved)
  qed
  show "history_inv rows reg e (set_invitations d (map (\<lambda>q. if inv_id q = inv_id r then resend_row e h ex sent q else q) (invitations d)))"
    if inv: "history_inv rows reg e d" and r: "r \<in> set (invitations d)" "inv_status r = InvitationPending"
      and h: "\<And>q. q \<in> set (invitations d) \<Longrightarrow> inv_token_hash q = h \<Longrightarrow> inv_id q = inv_id r" for e d r h ex sent
  proof -
    have wf: "invitations_inv reg e d" using inv by (simp add: history_inv_def)
    have "q = r" if "q \<in> set (invitations d)" "inv_id q = inv_id r" for q
      using same_invitation [OF wf r(1) that] by simp
    then show ?thesis
      using inv resent_inv [OF wf r(1) h] r(2)
      by (auto simp: history_inv_def intro!: later_resent)
  qed
qed (auto simp: history_inv_def intro: invites.sessions invites.created invites.written invites.unlinked invites.queued dropped_inv
    invites.guessed invites.spent invites.passworded invites.first_password invites.codes_dropped invites.uncapped
    dest: invites.registry invites.linked invites.code_issued identity_insert_frame credential_insert_frame)

lemma history_start:
  assumes "invitations_inv reg e d" "\<forall>t. gen e t 0 \<notin> inv_id ` set (invitations d)"
  shows "history_inv (invitations d) reg e d"
proof -
  have "later r0 r" if "r0 \<in> set (invitations d)" "r \<in> set (invitations d)" "inv_id r = inv_id r0" for r0 r
    using same_invitation [OF assms(1) that] by (simp add: later_refl)
  with assms show ?thesis by (simp add: history_inv_def)
qed

section \<open>Samples\<close>

definition sample_invitation :: "uuid \<Rightarrow> string \<Rightarrow> role list \<Rightarrow> invitation_row" where
  "sample_invitation i email roles = \<lparr>inv_id = i, inv_email = email, inv_roles = roles, inv_token_hash = CHR 0x74 # email,
     inv_status = InvitationPending, inv_invited_by = 1, inv_expires_at = 1000 * minute, inv_sent_at = 0,
     inv_accepted_at = None, inv_revoked_at = None, inv_created_at = 0\<rparr>"

definition sample_invited :: db where
  "sample_invited = empty_db\<lparr>d_users := [sample_user 1 [RoleAdmin], sample_user 2 [RoleGuest]],
     d_auth := empty_auth\<lparr>a_integrations := sample_registry, a_invitations := [sample_invitation 7 ''g'' [RoleEditor]]\<rparr>\<rparr>"

text \<open>A world whose identifiers are not those of the sample rows, with a seats cap.\<close>

definition invited_world :: "int \<Rightarrow> world" where
  "invited_world cap = (quiet_world sample_invited)\<lparr>w_env := quiet_env\<lparr>gen := (\<lambda>_ _. 99), e_auth := quiet_auth\<lparr>au_seats := (\<lambda>_. Some cap)\<rparr>\<rparr>\<rparr>"

lemmas invitation_samples = sample_invitation_def sample_invited_def invited_world_def account_samples

lemma sample_invitations_inv: "invitations_inv sample_registry e sample_invited"
  by (simp add: invitations_inv_def invitation_samples pending_def)

lemma invited_world_simps [simp]: "w_db (invited_world cap) = sample_invited" "w_tx (invited_world cap) = None"
  "gen (w_env (invited_world cap)) t i = 99" "invitations sample_invited = [sample_invitation 7 ''g'' [RoleEditor]]"
  "inv_id (sample_invitation j email roles) = j"
  by (simp_all add: invited_world_def quiet_world_def sample_invited_def sample_invitation_def)

section \<open>Properties\<close>

text \<open>C25. Invitations stay well formed: after any sequence of access requests identifiers and
  token hashes name one invitation each, an address has at most one pending invitation
  whatever its case, and every invitation names an existing inviter.\<close>

theorem one_pending_invitation:
  assumes "w_tx w = None" "invitations_inv reg (w_env w) (w_db w)"
  shows "invitations_inv reg (w_env (serve_all rs w)) (w_db (serve_all rs w))"
  using invites.access_sequences_kept [OF assms] by (simp add: tables_sat_def)

theorem one_pending_invitation_witness:
  "invitations_inv sample_registry
     (w_env (serve_all [CreateInvitation \<lparr>ci_actor = Some (sample_user 1 [RoleAdmin]), ci_email = ''g'', ci_roles = [RoleEditor]\<rparr>] (invited_world 5)))
     (w_db (serve_all [CreateInvitation \<lparr>ci_actor = Some (sample_user 1 [RoleAdmin]), ci_email = ''g'', ci_roles = [RoleEditor]\<rparr>] (invited_world 5)))"
  by (rule one_pending_invitation) (simp_all add: sample_invitations_inv)

text \<open>An invitation only moves forward: while new identifiers do not repeat those of stored
  rows, any sequence of access requests leaves the address, roles, inviter and creation time
  of an invitation as they were sent; its status stays, or goes from pending to accepted,
  revoked or expired, or from expired to revoked; and an accepted or revoked invitation
  never changes again.\<close>

theorem invitation_moves_forward:
  assumes "w_tx w = None" "invitations_inv reg (w_env w) (w_db w)" "\<forall>t. gen (w_env w) t 0 \<notin> inv_id ` set (invitations (w_db w))"
    "r \<in> set (invitations (w_db w))" "r' \<in> set (invitations (w_db (serve_all rs w)))" "inv_id r' = inv_id r"
  shows "inv_email r' = inv_email r \<and> inv_roles r' = inv_roles r \<and> inv_invited_by r' = inv_invited_by r
    \<and> inv_created_at r' = inv_created_at r \<and> (inv_status r' = inv_status r \<or> invitation_next (inv_status r) (inv_status r'))
    \<and> (inv_status r \<in> {InvitationAccepted, InvitationRevoked} \<longrightarrow> r' = r)"
  using past_invites.access_sequences_kept [OF assms(1) history_start [OF assms(2,3)], of rs] assms(4-6)
  by (auto simp: tables_sat_def history_inv_def later_def)

theorem invitation_moves_forward_witness:
  "(let r = sample_invitation 7 ''g'' [RoleEditor];
       r' = hd (invitations (w_db (serve_all [RevokeInvitation \<lparr>ic_actor = None, ic_id = 7\<rparr>] (invited_world 5)))) in
    inv_status r' = InvitationRevoked \<and> inv_roles r' = inv_roles r \<and> invitation_next (inv_status r) (inv_status r'))"
proof -
  let ?w = "invited_world 5" and ?rs = "[RevokeInvitation \<lparr>ic_actor = None, ic_id = 7\<rparr>]" and ?r = "sample_invitation 7 ''g'' [RoleEditor]"
  define r' where "r' = hd (invitations (w_db (serve_all ?rs ?w)))"
  have run: "inv_status r' = InvitationRevoked" "inv_id r' = 7" "invitations (w_db (serve_all ?rs ?w)) \<noteq> []"
    unfolding r'_def by code_simp+
  then have mem: "r' \<in> set (invitations (w_db (serve_all ?rs ?w)))" by (simp add: r'_def)
  have start: "invitations_inv sample_registry (w_env ?w) (w_db ?w)" "w_tx ?w = None"
    "\<forall>t. gen (w_env ?w) t 0 \<notin> inv_id ` set (invitations (w_db ?w))" "?r \<in> set (invitations (w_db ?w))"
    by (simp_all add: sample_invitations_inv)
  from invitation_moves_forward [OF start(2,1,3,4) mem] run show ?thesis
    unfolding Let_def r'_def [symmetric] by (simp add: sample_invitation_def)
qed

end
