(* ===== verification/InvitationClaims.thy ===== *)
theory InvitationClaims
  imports InvitationInvariant
begin

text \<open>
  Claiming an invitation (\<open>ClaimForUser\<close>): it succeeds only on a pending, unexpired row, marks
  that row and grants its roles; it works once; and because the row is marked before the
  roles are granted, the seat it had reserved is free for the account.
\<close>

section \<open>The claim\<close>

definition accepted :: "env \<Rightarrow> uuid \<Rightarrow> time \<Rightarrow> invitation_row \<Rightarrow> invitation_row" where
  "accepted e i now r = (if claimable i now e r then r\<lparr>inv_status := InvitationAccepted, inv_accepted_at := Some (pg_time e now)\<rparr> else r)"

lemma accepted_id [simp]: "inv_id (accepted e i now r) = inv_id r"
  by (simp add: accepted_def)

lemma mark_post: "post (MarkAccepted i) (\<lambda>ok w'. w_env w' = w_env w \<and> w_tx w' = w_tx w
      \<and> ok = (\<exists>r \<in> set (invitations (w_db w)). claimable i (clock (w_env w) (w_tick w)) (w_env w) r)
      \<and> w_db w' = set_invitations (w_db w) (map (accepted (w_env w) i (clock (w_env w) (w_tick w))) (invitations (w_db w))))
    (\<lambda>_ _. True) w"
  by (auto simp: MarkAccepted_def post_update_invitations accepted_def [abs_def] filter_empty_conv split: option.split cong: if_cong)

text \<open>Granting roles: on success the account has them, and only the users table was written.\<close>

definition holds_roles :: "uuid \<Rightarrow> role list \<Rightarrow> db \<Rightarrow> bool" where
  "holds_roles uid roles d \<longleftrightarrow> (\<exists>u. find_user d uid = Some u \<and> set roles \<subseteq> set (u_roles u))"

lemma ensure_seat_error:
  "driver_errors w \<Longrightarrow> post EnsureSeatAvailable (\<lambda>_. same_tables w) (\<lambda>er w'. er \<noteq> ErrNotChanged) w"
  by (auto simp: EnsureSeatAvailable_def License_cap_def post_def [of License_cap] AdvisoryXactLock_def ListActiveRoles_def
      ListPendingRoles_def post_db_query post_auth_query same_tables_def driver_errors_def split: option.split)

lemma assign_apply_post:
  assumes "driver_errors w"
  shows "post (assign_apply g roles u) (\<lambda>(u', _) w'. same_tables w w' \<and> u_id u' = u_id u \<and> set roles \<subseteq> set (u_roles u'))
     (\<lambda>er w'. er = ErrNotChanged \<longrightarrow> same_tables w w' \<and> set roles \<subseteq> set (u_roles u)) w"
proof -
  have none: "filter (\<lambda>r. r \<notin> set (u_roles u)) roles = [] \<Longrightarrow> set roles \<subseteq> set (u_roles u)"
    by (auto simp: filter_empty_conv)
  show ?thesis
    by (auto simp: assign_apply_def Let_def none intro!: post_weaken [OF ensure_seat_error [OF assms]])
qed

lemma assign_update_post:
  assumes "driver_errors w"
  shows "post (user_update_tx uid (assign_apply g roles)) (\<lambda>_ w'. w_env w' = w_env w \<and> d_auth (w_db w') = d_auth (w_db w) \<and> holds_roles uid roles (w_db w'))
     (\<lambda>er w'. er = ErrNotChanged \<longrightarrow> same_tables w w' \<and> holds_roles uid roles (w_db w)) w"
proof -
  have "post (obind (assign_apply g roles u) (\<lambda>(u', x). osequel (users_Update u') (ret (u', x))))
      (\<lambda>_ w'. w_env w' = w_env w \<and> d_auth (w_db w') = d_auth (w_db w) \<and> holds_roles uid roles (w_db w'))
      (\<lambda>er w'. er = ErrNotChanged \<longrightarrow> same_tables w w' \<and> holds_roles uid roles (w_db w)) (tick w)"
    if u: "find_user (w_db w) uid = Some u" for u
  proof -
    have uid: "u_id u = uid" using find_user_Some [OF u] by simp
    have errs: "driver_errors (tick w)" using assms by (simp add: driver_errors_def)
    have stored: "post (users_Update u') (\<lambda>_ w'. w_env w' = w_env w \<and> d_auth (w_db w') = d_auth (w_db w) \<and> holds_roles uid roles (w_db w'))
        (\<lambda>er w'. er = ErrNotChanged \<longrightarrow> same_tables w w' \<and> holds_roles uid roles (w_db w)) w1"
      if "same_tables (tick w) w1" "u_id u' = u_id u" "set roles \<subseteq> set (u_roles u')" for u' w1
      using that find_user_own [of "w_db w" u' u "w_env w"] u uid assms
      by (auto simp: users_Update_write post_db_call same_tables_def holds_roles_def driver_errors_def set_user_def pg_user_def
          split: option.split)
    show ?thesis
      unfolding post_obind
    proof (rule post_weaken [OF assign_apply_post [OF errs, of g roles u]])
      fix p :: "user \<times> role list" and w1
      assume "(case p of (u', _) \<Rightarrow> \<lambda>w'. same_tables (tick w) w' \<and> u_id u' = u_id u \<and> set roles \<subseteq> set (u_roles u')) w1"
      then show "post (case p of (u', x) \<Rightarrow> osequel (users_Update u') (ret (u', x)))
          (\<lambda>_ w'. w_env w' = w_env w \<and> d_auth (w_db w') = d_auth (w_db w) \<and> holds_roles uid roles (w_db w'))
          (\<lambda>er w'. er = ErrNotChanged \<longrightarrow> same_tables w w' \<and> holds_roles uid roles (w_db w)) w1"
        by (cases p) (simp add: stored)
    qed (use u in \<open>auto simp: same_tables_def holds_roles_def\<close>)
  qed
  then show ?thesis
    using assms by (auto simp: user_update_tx_def GetForUpdateByID_def user_or_not_found_def post_db_query driver_errors_def split: option.split)
qed

lemma assign_roles_post:
  assumes "driver_errors w" "w_tx w = Some d"
  shows "post (AssignRoles \<lparr>rc_actor = actor, rc_user_id = uid, rc_roles = roles\<rparr>)
     (\<lambda>_ w'. d_auth (w_db w') = d_auth (w_db w) \<and> holds_roles uid roles (w_db w')) (\<lambda>_ _. True) w"
proof -
  have join: "post (user_updateWithApply uid (assign_apply True roles)) Q R w = post (user_update_tx uid (assign_apply True roles)) Q R w" for Q R
    by (simp add: post_def user_updateWithApply_def WithinTx_nested [OF assms(2)])
  have audit: "post (user_publishAudit a) Q R w1 = Q () (snd (user_publishAudit a w1))" for a Q R w1
    by (simp add: post_def user_publishAudit_def split: option.split)
  have same: "w_db (snd (user_publishAudit a w1)) = w_db w1" for a w1
    by (simp add: user_publishAudit_def split: option.split)
  show ?thesis
    by (auto simp: AssignRoles_def unchanged_ok_def join audit same split: prod.split
        intro!: post_weaken [OF assign_update_post [OF assms(1)]] post_weaken [OF user_lookup_post])
      (auto simp: same_tables_def)
qed

lemma claim_post:
  assumes "driver_errors w" "w_tx w = None"
  shows "post (ClaimForUser invite uid) (\<lambda>_ w'. (\<exists>r \<in> set (invitations (w_db w)). claimable (ri_id invite) (clock (w_env w) (Suc (w_tick w))) (w_env w) r)
       \<and> invitations (w_db w') = map (accepted (w_env w) (ri_id invite) (clock (w_env w) (Suc (w_tick w)))) (invitations (w_db w))
       \<and> holds_roles uid (ri_roles invite) (w_db w') \<and> w_tx w' = None) (\<lambda>_ _. True) w"
proof -
  let ?w1 = "(tick w)\<lparr>w_tx := Some (w_db w)\<rparr>"
  let ?rows = "map (accepted (w_env w) (ri_id invite) (clock (w_env w) (Suc (w_tick w)))) (invitations (w_db w))"
  have assign: "post (AssignRoles \<lparr>rc_actor = Some SystemUser, rc_user_id = uid, rc_roles = ri_roles invite\<rparr>)
      (\<lambda>_ w'. invitations (w_db w') = ?rows \<and> holds_roles uid (ri_roles invite) (w_db w')) (\<lambda>_ _. True) w2"
    if "w_env w2 = w_env w" "w_tx w2 = Some (w_db w)" "w_db w2 = set_invitations (w_db w) ?rows" for w2
    by (rule post_weaken [OF assign_roles_post]) (use that assms in \<open>auto simp: driver_errors_def\<close>)
  have "post (claim_tx invite uid) (\<lambda>_ w'. (\<exists>r \<in> set (invitations (w_db w)). claimable (ri_id invite) (clock (w_env w) (Suc (w_tick w))) (w_env w) r)
      \<and> invitations (w_db w') = ?rows \<and> holds_roles uid (ri_roles invite) (w_db w')) (\<lambda>_ _. True) ?w1"
    unfolding claim_tx_def post_obind
    by (rule post_weaken [OF mark_post]) (auto intro!: post_weaken [OF assign])
  then have "post (WithinTx (claim_tx invite uid)) (\<lambda>_ w'. (\<exists>r \<in> set (invitations (w_db w)). claimable (ri_id invite) (clock (w_env w) (Suc (w_tick w))) (w_env w) r)
      \<and> invitations (w_db w') = ?rows \<and> holds_roles uid (ri_roles invite) (w_db w') \<and> w_tx w' = None) (\<lambda>_ _. True) w"
    by (auto simp: post_WithinTx [OF assms(2)] elim!: post_weaken split: option.split)
  then show ?thesis
    by (auto simp: post_def ClaimForUser_def WithinTx_outbox_def split: prod.splits sum.splits)
qed

lemma claim_refused:
  assumes "\<And>r. r \<in> set (invitations (w_db w)) \<Longrightarrow> inv_id r = ri_id invite \<Longrightarrow> \<not> pending r"
  shows "\<exists>er. fst (ClaimForUser invite uid w) = Inl er"
proof -
  have refused: "post (claim_tx invite uid) (\<lambda>_ _. False) (\<lambda>_ _. True) w1" if "w_db w1 = w_db w" for w1
    unfolding claim_tx_def post_obind
    by (rule post_weaken [OF mark_post]) (use assms that in \<open>auto simp: claimable_def pending_def\<close>)
  have "post (WithinTx (claim_tx invite uid)) (\<lambda>_ _. False) (\<lambda>_ _. True) w"
  proof (cases "w_tx w")
    case None
    with refused [of "(tick w)\<lparr>w_tx := Some (w_db w)\<rparr>"] show ?thesis
      by (auto simp: post_WithinTx elim!: post_weaken split: option.split)
  next
    case (Some d)
    with refused [of w] show ?thesis by (simp add: post_def WithinTx_nested)
  qed
  then show ?thesis
    by (auto simp: post_def ClaimForUser_def WithinTx_outbox_def split: prod.splits sum.splits)
qed

section \<open>The reserved seat\<close>

text \<open>The seats the guard counts at a time: active accounts, and invitations pending at that time.\<close>

definition reserves :: "env \<Rightarrow> time \<Rightarrow> invitation_row \<Rightarrow> bool" where
  "reserves e now i \<longleftrightarrow> inv_status i = InvitationPending \<and> inv_expires_at i \<ge> pg_time e now"

definition occupied :: "env \<Rightarrow> db \<Rightarrow> time \<Rightarrow> int" where
  "occupied e d now = SeatsOccupied (BucketSeats (map u_roles (filter (\<lambda>u. u_blocked_at u = None) (d_users d)))
     (map inv_roles (filter (reserves e now) (invitations d))))"

lemma count_dropped:
  assumes "r \<in> set xs" "p r" "\<not> q (f r)" "\<And>x. x \<in> set xs \<Longrightarrow> q (f x) \<Longrightarrow> p x"
  shows "length (filter q (map f xs)) + 1 \<le> length (filter p xs)"
proof -
  obtain ys zs where xs: "xs = ys @ r # zs" using assms(1) by (meson split_list)
  have le: "length (filter q (map f as)) \<le> length (filter p as)" if "set as \<subseteq> set xs" for as
    using that assms(4) by (induction as) auto
  have "length (filter q (map f ys)) \<le> length (filter p ys)" "length (filter q (map f zs)) \<le> length (filter p zs)"
    by (rule le; simp add: xs subset_insertI2)+
  then show ?thesis using xs assms(2,3) by simp
qed

text \<open>Accepting a paid invitation frees its place for any later count.\<close>

lemma claim_frees_seat:
  assumes "r \<in> set (invitations d)" "claimable i now e r" "seated (inv_roles r)" "pg_time e now \<le> pg_time e later_on"
  shows "occupied e (set_invitations d (map (accepted e i now) (invitations d))) later_on + 1 \<le> occupied e d now"
proof -
  have "length (filter (\<lambda>x. seated (inv_roles x) \<and> reserves e later_on x) (map (accepted e i now) (invitations d))) + 1
      \<le> length (filter (\<lambda>x. seated (inv_roles x) \<and> reserves e now x) (invitations d))"
    using assms by (intro count_dropped [of r]) (auto simp: reserves_def claimable_def accepted_def split: if_splits)
  then show ?thesis
    by (simp add: occupied_def SeatsOccupied_BucketSeats filter_map comp_def conj_commute del: filter_map)
qed

lemma seat_available:
  assumes "fault_free w" "w_tx w \<noteq> None" "\<And>t cap. w_tick w \<le> t \<Longrightarrow> au_seats (e_auth (w_env w)) (w_tick w) = Some cap \<Longrightarrow> occupied (w_env w) (w_db w) (clock (w_env w) t) + 1 \<le> cap"
  shows "post EnsureSeatAvailable (\<lambda>_. same_tables w) (\<lambda>_ _. False) w"
proof -
  have ok: "post License_cap Q R w = Q (au_seats (e_auth (w_env w)) (w_tick w)) (tick w)" for Q R
    by (simp add: post_def License_cap_def)
  show ?thesis
    using assms(3) [of "Suc (Suc (Suc (w_tick w)))"] assms(1,2)
    by (auto simp: EnsureSeatAvailable_def ok AdvisoryXactLock_def ListActiveRoles_def ListPendingRoles_def post_db_query
        post_auth_query same_tables_def occupied_def reserves_def [abs_def] split: option.split)
qed

text \<open>The environment itself is constant.\<close>

interpretation same_env: users_invariant "\<lambda>e _. e = e0" for e0
  by unfold_locales

lemma assign_succeeds:
  assumes ff: "fault_free w" and tx: "w_tx w = Some d0" and u: "find_user (w_db w) uid = Some u" and "tags_ok u"
    and "list_all Role_Valid roles" "uid \<noteq> nil_uuid"
    and seats: "\<And>t t' cap. seated roles \<Longrightarrow> w_tick w \<le> t \<Longrightarrow> au_seats (e_auth (w_env w)) t' = Some cap \<Longrightarrow>
      occupied (w_env w) (w_db w) (clock (w_env w) t) + 1 \<le> cap"
  shows "post (AssignRoles \<lparr>rc_actor = Some SystemUser, rc_user_id = uid, rc_roles = roles\<rparr>) (\<lambda>_ w'. w_env w' = w_env w) (\<lambda>_ _. False) w"
proof -
  let ?unchanged = "\<lambda>er w'. er = ErrNotChanged \<and> same_tables w w'"
  have ok: "post (users_Update u') (\<lambda>_ _. True) (\<lambda>_ _. False) w1" if "same_tables w w1" "tags_ok u'" for u' w1
    using that ff by (auto simp: users_Update_write post_db_call same_tables_def fault_free_def)
  have seat: "post EnsureSeatAvailable (\<lambda>_. same_tables w) ?unchanged (tick w)"
    if "\<not> seated (u_roles u)" "seated (u_roles u @ filter (\<lambda>r. r \<notin> set (u_roles u)) roles)"
  proof -
    have "seated roles" using that by (auto simp: seated_iff)
    with seats have "post EnsureSeatAvailable (\<lambda>_. same_tables (tick w)) (\<lambda>_ _. False) (tick w)"
      using ff tx by (intro seat_available) (auto simp: fault_free_def)
    then show ?thesis by (rule post_weaken) (auto simp: same_tables_def)
  qed
  have "post (assign_apply True roles u) (\<lambda>(u', _) w'. same_tables w w' \<and> tags_ok u') ?unchanged (tick w)"
    using assms(4) seat
    by (auto simp: assign_apply_def Let_def seated_def tags_ok_def intro!: post_weaken [OF seat])
  then have "post (obind (assign_apply True roles u) (\<lambda>(u', x). osequel (users_Update u') (ret (u', x)))) (\<lambda>_ _. True) ?unchanged (tick w)"
    by (auto elim!: post_weaken split: prod.split intro!: post_weaken [OF ok])
  then have "post (user_update_tx uid (assign_apply True roles)) (\<lambda>_ _. True) ?unchanged w"
    using ff u by (simp add: user_update_tx_def GetForUpdateByID_def user_or_not_found_def post_db_query fault_free_def)
  then have upd: "post (user_updateWithApply uid (assign_apply True roles)) (\<lambda>_ _. True) ?unchanged w"
    by (simp add: post_def user_updateWithApply_def WithinTx_nested [OF tx])
  have granted: "post (AssignRoles \<lparr>rc_actor = Some SystemUser, rc_user_id = uid, rc_roles = roles\<rparr>) (\<lambda>_ _. True) (\<lambda>_ _. False) w"
    using assms(5,6) u ff
    by (auto simp: AssignRoles_def self_action_def SystemUser_def unchanged_ok_def post_def [of "user_publishAudit a" for a]
        user_publishAudit_def user_GetByID_def users_GetByID_def user_or_not_found_def post_db_query same_tables_def fault_free_def
        split: prod.split option.split intro!: post_weaken [OF upd])
  have "tables_sat (\<lambda>e _. e = w_env w) w" by (simp add: tables_sat_def)
  from sat_maintained [OF same_env.roles_kept(1) this, of "\<lparr>rc_actor = Some SystemUser, rc_user_id = uid, rc_roles = roles\<rparr>"] granted
  show ?thesis by (auto simp: post_def tables_sat_def split: prod.splits sum.splits)
qed

section \<open>Properties\<close>

text \<open>A claim that succeeds found a pending invitation whose expiry lay after the time the
  claim read, marked exactly that row as accepted and left the account holding every role
  of the invitation.\<close>

theorem claim_spends_invitation:
  assumes "ClaimForUser invite uid w = (Inr u, w')" "w_tx w = None" "driver_errors w" "invitations_inv reg (w_env w) (w_db w)"
  shows "let e = w_env w; now = clock e (Suc (w_tick w)) in
    \<exists>r \<in> set (invitations (w_db w)). inv_id r = ri_id invite \<and> inv_status r = InvitationPending \<and> pg_time e now < inv_expires_at r
      \<and> invitations (w_db w') = map (\<lambda>q. if q = r then r\<lparr>inv_status := InvitationAccepted, inv_accepted_at := Some (pg_time e now)\<rparr> else q)
          (invitations (w_db w))
      \<and> (\<exists>x. find_user (w_db w') uid = Some x \<and> set (ri_roles invite) \<subseteq> set (u_roles x))"
proof -
  let ?now = "clock (w_env w) (Suc (w_tick w))"
  from post_InrD [OF claim_post [OF assms(3,2)] assms(1)]
  obtain r where r: "r \<in> set (invitations (w_db w))" "claimable (ri_id invite) ?now (w_env w) r"
    and rows: "invitations (w_db w') = map (accepted (w_env w) (ri_id invite) ?now) (invitations (w_db w))"
    and roles: "holds_roles uid (ri_roles invite) (w_db w')" by blast
  have "claimable (ri_id invite) ?now (w_env w) q \<longleftrightarrow> q = r" if "q \<in> set (invitations (w_db w))" for q
    using r same_invitation [OF assms(4) r(1) that] by (auto simp: claimable_def)
  then have "invitations (w_db w') = map (\<lambda>q. if q = r then r\<lparr>inv_status := InvitationAccepted, inv_accepted_at := Some (pg_time (w_env w) ?now)\<rparr> else q)
      (invitations (w_db w))"
    unfolding rows by (intro map_cong) (auto simp: accepted_def)
  with r roles show ?thesis by (auto simp: Let_def claimable_def holds_roles_def)
qed

definition sample_claim :: resolved_invitation where
  "sample_claim = \<lparr>ri_id = 7, ri_roles = [RoleEditor]\<rparr>"

lemma sample_claimed: "\<exists>u. ClaimForUser sample_claim 2 (invited_world 2) = (Inr u, snd (ClaimForUser sample_claim 2 (invited_world 2)))"
proof -
  have "isl (fst (ClaimForUser sample_claim 2 (invited_world 2))) = False" by code_simp
  then show ?thesis by (metis isl_def prod.collapse sum.exhaust_sel)
qed

lemma sample_claim_start:
  "driver_errors (invited_world cap)" "invitations_inv sample_registry (w_env (invited_world cap)) (w_db (invited_world cap))"
  by (simp_all add: sample_invitations_inv) (simp add: driver_errors_def invited_world_def quiet_world_def quiet_env_def)

theorem claim_spends_invitation_witness:
  "(let w' = snd (ClaimForUser sample_claim 2 (invited_world 2)) in
    map inv_status (invitations (w_db w')) = [InvitationAccepted]
    \<and> (\<exists>x. find_user (w_db w') 2 = Some x \<and> set (ri_roles sample_claim) \<subseteq> set (u_roles x)))"
proof -
  obtain u where run: "ClaimForUser sample_claim 2 (invited_world 2) = (Inr u, snd (ClaimForUser sample_claim 2 (invited_world 2)))"
    using sample_claimed by blast
  from claim_spends_invitation [OF run _ sample_claim_start] show ?thesis by (auto simp: Let_def)
qed

text \<open>C11. An invitation is spent once: after a claim has succeeded, and whatever requests follow
  it, every further claim of the same invitation fails, for any account.\<close>

theorem invitation_single_use:
  assumes "ClaimForUser invite uid w = (Inr u, w')" "w_tx w = None" "driver_errors w" "invitations_inv reg (w_env w) (w_db w)"
    "\<forall>t. gen (w_env w) t 0 \<notin> inv_id ` set (invitations (w_db w))" "ri_id again = ri_id invite"
  shows "\<exists>er. fst (ClaimForUser again uid' (serve_all rs w')) = Inl er"
proof -
  let ?now = "clock (w_env w) (Suc (w_tick w))"
  let ?rows = "invitations (w_db w')"
  from post_InrD [OF claim_post [OF assms(3,2)] assms(1)]
  obtain r where r: "r \<in> set (invitations (w_db w))" "claimable (ri_id invite) ?now (w_env w) r"
    and rows: "?rows = map (accepted (w_env w) (ri_id invite) ?now) (invitations (w_db w))" and top: "w_tx w' = None" by blast
  have r': "accepted (w_env w) (ri_id invite) ?now r \<in> set ?rows" using r(1) rows by simp
  have "serve_all [ClaimInvitation invite uid] w = w'"
    using assms(1) by (simp add: forget_def osequel_def obind_def ret_def)
  with past_invites.access_sequences_kept [OF assms(2) history_start [OF assms(4,5)], of "[ClaimInvitation invite uid]"]
  have "history_inv (invitations (w_db w)) reg (w_env w') (w_db w')" by (simp add: tables_sat_def)
  moreover have "inv_id ` set ?rows = inv_id ` set (invitations (w_db w))"
    by (simp add: rows image_image)
  ultimately have "history_inv ?rows reg (w_env w') (w_db w')"
    by (intro history_start) (auto simp: history_inv_def)
  from past_invites.access_sequences_kept [OF top this, of rs]
  have "later (accepted (w_env w) (ri_id invite) ?now r) q" if "q \<in> set (invitations (w_db (serve_all rs w')))" "inv_id q = ri_id invite" for q
    using that r r' by (auto simp: tables_sat_def history_inv_def claimable_def accepted_def)
  then show ?thesis
    using r(2) assms(6) by (intro claim_refused) (auto simp: later_def accepted_def pending_def)
qed

theorem invitation_single_use_witness:
  "\<exists>er. fst (ClaimForUser sample_claim 1 (serve_all [PruneInvitations 1 10, RotateInvitations 10]
     (snd (ClaimForUser sample_claim 2 (invited_world 2))))) = Inl er"
proof -
  obtain u where run: "ClaimForUser sample_claim 2 (invited_world 2) = (Inr u, snd (ClaimForUser sample_claim 2 (invited_world 2)))"
    using sample_claimed by blast
  have "\<forall>t. gen (w_env (invited_world 2)) t 0 \<notin> inv_id ` set (invitations (w_db (invited_world 2)))" by simp
  from run _ sample_claim_start this refl show ?thesis by (rule invitation_single_use) simp
qed

text \<open>C13. A reserved seat is honoured: without database failures, with a clock that does not go
  back and a license whose cap is not below the seats counted when the claim starts (the
  invitation's own reservation included), claiming a live invitation for an existing
  account succeeds, even when every seat is taken.\<close>

theorem reserved_seat_honoured:
  assumes "fault_free w" "w_tx w = None" "mono (clock (w_env w))" "mono (pg_time (w_env w))"
    "r \<in> set (invitations (w_db w))" "claimable (inv_id r) (clock (w_env w) (Suc (w_tick w))) (w_env w) r"
    "list_all Role_Valid (inv_roles r)" "find_user (w_db w) uid = Some u" "tags_ok u" "uid \<noteq> nil_uuid"
    "\<forall>t cap. au_seats (e_auth (w_env w)) t = Some cap \<longrightarrow> occupied (w_env w) (w_db w) (clock (w_env w) (Suc (w_tick w))) \<le> cap"
  shows "\<exists>x. fst (ClaimForUser \<lparr>ri_id = inv_id r, ri_roles = inv_roles r\<rparr> uid w) = Inr x"
proof -
  let ?e = "w_env w" and ?now = "clock (w_env w) (Suc (w_tick w))" and ?w1 = "(tick w)\<lparr>w_tx := Some (w_db w)\<rparr>"
  let ?d = "set_invitations (w_db w) (map (accepted ?e (inv_id r) ?now) (invitations (w_db w)))"
  have assign: "post (AssignRoles \<lparr>rc_actor = Some SystemUser, rc_user_id = uid, rc_roles = inv_roles r\<rparr>) (\<lambda>_ w'. w_env w' = ?e) (\<lambda>_ _. False)
      ((tick (tick ?w1))\<lparr>w_db := ?d\<rparr>)"
  proof (rule post_weaken [OF assign_succeeds])
    fix t t' cap
    assume "seated (inv_roles r)" "w_tick ((tick (tick ?w1))\<lparr>w_db := ?d\<rparr>) \<le> t"
      and cap: "au_seats (e_auth (w_env ((tick (tick ?w1))\<lparr>w_db := ?d\<rparr>))) t' = Some cap"
    moreover from this have "pg_time ?e ?now \<le> pg_time ?e (clock ?e t)"
      using monoD [OF assms(4)] monoD [OF assms(3)] by simp
    ultimately have "occupied ?e ?d (clock ?e t) + 1 \<le> occupied ?e (w_db w) ?now"
      using assms(5,6) by (intro claim_frees_seat)
    also have "\<dots> \<le> cap" using assms(11) cap by simp
    finally show "occupied (w_env ((tick (tick ?w1))\<lparr>w_db := ?d\<rparr>)) (w_db ((tick (tick ?w1))\<lparr>w_db := ?d\<rparr>))
        (clock (w_env ((tick (tick ?w1))\<lparr>w_db := ?d\<rparr>)) t) + 1 \<le> cap" by simp
  qed (use assms in \<open>simp_all add: fault_free_def find_user_def\<close>)
  have "post (claim_tx \<lparr>ri_id = inv_id r, ri_roles = inv_roles r\<rparr> uid) (\<lambda>_ w'. w_env w' = ?e) (\<lambda>_ _. False) ?w1"
    using assms(1,5,6) assign
    by (auto simp: claim_tx_def MarkAccepted_def post_update_invitations fault_free_def filter_empty_conv accepted_def [abs_def] cong: if_cong)
  then have "post (WithinTx (claim_tx \<lparr>ri_id = inv_id r, ri_roles = inv_roles r\<rparr> uid)) (\<lambda>_ _. True) (\<lambda>_ _. False) w"
    using assms(1) by (auto simp: post_WithinTx [OF assms(2)] fault_free_def elim!: post_weaken)
  then show ?thesis
    by (auto simp: post_def ClaimForUser_def WithinTx_outbox_def split: prod.splits sum.splits)
qed

theorem reserved_seat_honoured_witness:
  "occupied (w_env (invited_world 2)) (w_db (invited_world 2)) (clock (w_env (invited_world 2)) (Suc (w_tick (invited_world 2)))) = 2
   \<and> (\<exists>x. fst (ClaimForUser \<lparr>ri_id = 7, ri_roles = [RoleEditor]\<rparr> 2 (invited_world 2)) = Inr x)"
proof -
  let ?w = "invited_world 2" and ?r = "sample_invitation 7 ''g'' [RoleEditor]"
  have full: "occupied (w_env ?w) (w_db ?w) (clock (w_env ?w) (Suc (w_tick ?w))) = 2" by code_simp
  have "\<exists>x. fst (ClaimForUser \<lparr>ri_id = inv_id ?r, ri_roles = inv_roles ?r\<rparr> 2 ?w) = Inr x"
  proof (rule reserved_seat_honoured)
    show "mono (clock (w_env ?w))" "mono (pg_time (w_env ?w))" "fault_free ?w"
      by (auto simp: mono_def fault_free_def invited_world_def quiet_world_def quiet_env_def second_def)
    show "find_user (w_db ?w) 2 = Some (sample_user 2 [RoleGuest])" "tags_ok (sample_user 2 [RoleGuest])"
      "claimable (inv_id ?r) (clock (w_env ?w) (Suc (w_tick ?w))) (w_env ?w) ?r" "list_all Role_Valid (inv_roles ?r)" by code_simp+
    show "\<forall>t cap. au_seats (e_auth (w_env ?w)) t = Some cap \<longrightarrow> occupied (w_env ?w) (w_db ?w) (clock (w_env ?w) (Suc (w_tick ?w))) \<le> cap"
      unfolding full by (simp add: invited_world_def)
  qed simp_all
  with full show ?thesis by (simp add: sample_invitation_def)
qed

end
