(* ===== verification/CodeInvariant.thy ===== *)
theory CodeInvariant
  imports AccessInvariant SessionBehaviour
begin

text \<open>
  One-time codes and passwords: what the credentials table keeps under every request, that
  code generation is unbiased, exactly when a code is redeemed and what that leaves, and
  that resetting a password ends the account's sessions.
\<close>

section \<open>Generation\<close>

definition digits :: "string \<Rightarrow> bool" where
  "digits s \<longleftrightarrow> (\<forall>c \<in> set s. of_char c \<in> {48..57::nat})"

definition digits_value :: "string \<Rightarrow> nat" where
  "digits_value s = foldl (\<lambda>a c. a * 10 + (of_char c - 48)) 0 s"

lemma digits_value_snoc: "digits_value (s @ [c]) = digits_value s * 10 + (of_char c - 48)"
  by (simp add: digits_value_def)

lemma digits_value_show: "digits_value (show_nat n) = n"
  unfolding digits_value_def by (rule show_nat_value)

lemma digits_value_bound: "digits s \<Longrightarrow> digits_value s < 10 ^ length s"
proof (induction s rule: rev_induct)
  case (snoc c s)
  then have "digits_value s < 10 ^ length s" "of_char c \<le> (57::nat)" by (auto simp: digits_def)
  then show ?case by (auto simp: digits_value_snoc)
qed (simp add: digits_value_def)

lemma digits_value_inj: "digits s \<Longrightarrow> digits t \<Longrightarrow> length s = length t \<Longrightarrow> digits_value s = digits_value t \<Longrightarrow> s = t"
proof (induction s arbitrary: t rule: rev_induct)
  case (snoc c s)
  then obtain d t' where t: "t = t' @ [d]" by (metis length_0_conv rev_exhaust snoc_eq_iff_butlast)
  have c: "of_char c \<in> {48..57::nat}" "of_char d \<in> {48..57::nat}" using snoc.prems t by (auto simp: digits_def)
  have v: "digits_value s * 10 + (of_char c - 48) = digits_value t' * 10 + (of_char d - 48)"
    using snoc.prems(4) by (simp add: t digits_value_snoc)
  have unique: "a = b \<and> x = y" if "a * 10 + x = b * 10 + y" "x < 10" "y < 10" for a b x y :: nat
    using that by presburger
  have "digits_value s = digits_value t' \<and> of_char c - 48 = (of_char d - 48 :: nat)"
    using v c by (intro unique) auto
  then have vals: "digits_value s = digits_value t'" and off: "of_char c - 48 = (of_char d - 48 :: nat)" by simp_all
  have same: "of_char c = (of_char d :: nat)" using off c unfolding atLeastAtMost_iff by presburger
  from vals have "s = t'" using snoc by (auto simp: t digits_def)
  moreover from same have "c = d" by (metis char_of_char)
  ultimately show ?case by (simp add: t)
qed simp

lemma pad_zeros_value: "digits_value (pad_zeros k s) = digits_value s"
proof -
  have "foldl (\<lambda>a c. a * 10 + (of_char c - 48)) 0 (replicate n (CHR 0x30)) = (0::nat)" for n
    by (induction n) simp_all
  then show ?thesis by (simp add: pad_zeros_def digits_value_def)
qed

lemma show_nat_length: "n < 10 ^ Suc k \<Longrightarrow> length (show_nat n) \<le> Suc k"
proof (induction k arbitrary: n)
  case (Suc k)
  then show ?case by (cases "n < 10") (simp_all add: show_nat.simps [of n])
qed (simp add: show_nat.simps)

lemma pad_zeros_digits: "k < 10 ^ 6 \<Longrightarrow> length (pad_zeros 6 (show_nat k)) = 6 \<and> digits (pad_zeros 6 (show_nat k))"
  using show_nat_length [of k 5] show_nat_digits [of k] by (auto simp: pad_zeros_def digits_def)

lemma code_of_value:
  assumes "length code = 6" "digits code" "k < 10 ^ 6"
  shows "pad_zeros 6 (show_nat k) = code \<longleftrightarrow> k = digits_value code"
proof
  assume "k = digits_value code"
  then show "pad_zeros 6 (show_nat k) = code"
    using assms pad_zeros_digits [of k] by (intro digits_value_inj) (simp_all add: pad_zeros_value digits_value_show)
qed (auto simp: pad_zeros_value digits_value_show)

lemma accepted_values: "generateOTPCode [n] er = Inr code \<longleftrightarrow> unat n < 4294000000 \<and> code = pad_zeros 6 (show_nat (unat n mod 1000000))"
  by (auto simp: otpRejectionCeiling_def otpCodeSpace_def otpCodeDigits_def)

lemma card_residues:
  assumes "k < 1000000"
  shows "card {n :: 32 word. unat n < 4294000000 \<and> unat n mod 1000000 = k} = 4294"
proof -
  let ?f = "\<lambda>j :: nat. word_of_nat (j * 1000000 + k) :: 32 word"
  have unat: "unat (?f j) = j * 1000000 + k" if "j < 4294" for j
    using that assms by (subst unat_of_nat) simp
  have "{n :: 32 word. unat n < 4294000000 \<and> unat n mod 1000000 = k} = ?f ` {..<4294}"
  proof (rule set_eqI, rule iffI)
    fix n :: "32 word" assume "n \<in> {n. unat n < 4294000000 \<and> unat n mod 1000000 = k}"
    then have n: "unat n = (unat n div 1000000) * 1000000 + k" "unat n div 1000000 < 4294" by auto
    then have "n = ?f (unat n div 1000000)" by (metis unat word_unat_eq_iff)
    with n(2) show "n \<in> ?f ` {..<4294}" by blast
  qed (use unat assms in auto)
  moreover have "inj_on ?f {..<4294}"
  proof (rule inj_onI)
    fix i j assume "i \<in> {..<4294}" "j \<in> {..<4294}" "?f i = ?f j"
    then have "i * 1000000 + k = j * 1000000 + k" using unat [of i] unat [of j] by simp
    then show "i = j" by simp
  qed
  ultimately show ?thesis by (simp add: card_image)
qed

section \<open>The table\<close>

abbreviation password_credential :: "credential_row \<Rightarrow> bool" where
  "password_credential c \<equiv> cr_kind c = CredentialPassword"

lemma MaxAttempts_bounds: "1 \<le> MaxAttempts cfg" "MaxAttempts cfg \<le> 10"
  by (auto simp: MaxAttempts_def i16_def maxAllowedAttempts_def defaultMaxAttempts_def Let_def)

definition codes_inv :: "integration_row list \<Rightarrow> env \<Rightarrow> db \<Rightarrow> bool" where
  "codes_inv reg e d \<longleftrightarrow> a_integrations (d_auth d) = reg \<and> distinct (map cr_id (credentials d))
     \<and> distinct (map cr_user (filter live_code (credentials d)))
     \<and> distinct (map cr_user (filter password_credential (credentials d)))
     \<and> (\<forall>c \<in> set (credentials d). 0 \<le> cr_attempts c \<and> cr_attempts c \<le> MaxAttempts (au_cfg (e_auth e)))"

text \<open>Rows rewritten in place, none of them back to a live code.\<close>

lemma rewritten_codes:
  assumes "codes_inv reg e d"
    "\<And>c. cr_id (f c) = cr_id c \<and> cr_user (f c) = cr_user c \<and> cr_kind (f c) = cr_kind c \<and> (live_code (f c) \<longrightarrow> live_code c)"
    "\<And>c. c \<in> set (credentials d) \<Longrightarrow> 0 \<le> cr_attempts (f c) \<and> cr_attempts (f c) \<le> MaxAttempts (au_cfg (e_auth e))"
  shows "codes_inv reg e (set_credentials d (map f (credentials d)))"
  using assms distinct_filter_map [of cr_user live_code "credentials d" f] distinct_filter_map [of cr_user password_credential "credentials d" f]
  by (auto simp: codes_inv_def comp_def)

lemma appended_code:
  assumes "codes_inv reg e d" "\<not> (\<exists>c \<in> set (credentials d). credential_clash c row)" "cr_attempts row = 0"
  shows "codes_inv reg e (set_credentials d (credentials d @ [row]))"
  using assms MaxAttempts_bounds(1) [of "au_cfg (e_auth e)"] by (auto simp: codes_inv_def credential_clash_def)

interpretation codes: uncapped_access "codes_inv reg" reg for reg
proof unfold_locales
  show "codes_inv reg e d'" if "codes_inv reg e d" "credential_insert e t d (new_code uid ch ex nonce) = Inr (c, d')" for e d t uid ch ex nonce c d'
  proof -
    have "\<not> (\<exists>r \<in> set (credentials d). credential_clash r c) \<and> cr_attempts c = 0"
      using that(2) by (auto simp: credential_insert_def new_code_def Let_def split: if_splits)
    with appended_code [OF that(1)] credential_insert_frame [OF that(2)] show ?thesis by simp
  qed
  show "codes_inv reg e (set_credentials d (credentials d @ [password_row e t uid phc]))"
    if "codes_inv reg e d" "\<not> (\<exists>c \<in> set (credentials d). is_password uid c \<or> cr_id c = gen e t 0)" for e d t uid phc
    using that by (intro appended_code) (auto simp: credential_clash_def is_password_def password_row_def live_code_def)
  show "codes_inv reg e (set_credentials d (map (attempted e i stamp) (credentials d)))" if "codes_inv reg e d" for e d i stamp
    using that by (rule rewritten_codes) (use that in \<open>auto simp: attempted_def live_code_def codes_inv_def\<close>)
  show "codes_inv reg e (set_credentials d (map (consumed i stamp) (credentials d)))" if "codes_inv reg e d" for e d i stamp
    using that by (rule rewritten_codes) (use that in \<open>auto simp: consumed_def live_code_def codes_inv_def\<close>)
  show "codes_inv reg e (set_credentials d (map (repassword uid phc stamp) (credentials d)))" if "codes_inv reg e d" for e d uid phc stamp
    using that MaxAttempts_bounds(1) [of "au_cfg (e_auth e)"]
    by (intro rewritten_codes) (auto simp: repassword_def live_code_def is_password_def codes_inv_def)
  show "codes_inv reg e (set_credentials d (filter (\<lambda>c. cr_id c \<notin> ids) (credentials d)))" if "codes_inv reg e d" for e d ids
    using that distinct_map_filtered [of cr_user "filter live_code (credentials d)" "\<lambda>c. cr_id c \<notin> ids"]
      distinct_map_filtered [of cr_user "filter password_credential (credentials d)" "\<lambda>c. cr_id c \<notin> ids"]
    by (auto simp: codes_inv_def distinct_map_filtered conj_commute)
  show "codes_inv reg e d'" if "codes_inv reg e d" "identity_insert e t d (new_identity uid iid s m) = Inr (i, d')"
    for e d t uid iid s m i d'
    using that identity_insert_frame [OF that(2)] by (simp add: codes_inv_def)
qed (auto simp: codes_inv_def dest!: invitation_insert_frame)

section \<open>Redeeming\<close>

definition owner_of :: "env \<Rightarrow> db \<Rightarrow> string \<Rightarrow> user option" where
  "owner_of e d email = find (\<lambda>u. au_pg_lower (e_auth e) (u_email u) = au_pg_lower (e_auth e) email) (d_users d)"

definition code_of :: "db \<Rightarrow> uuid \<Rightarrow> credential_row option" where
  "code_of d uid = find (\<lambda>c. cr_user c = uid \<and> live_code c) (credentials d)"

text \<open>
  The verdict on a presented code as a function of the tables and of the tick at which the
  code has been looked up: what is answered, and what becomes of each row. A guess counts
  from the moment the session nonce matches.
\<close>

definition verdict_on :: "env \<Rightarrow> nat \<Rightarrow> verify_cmd \<Rightarrow> user \<Rightarrow> credential_row \<Rightarrow> verify_result \<times> (credential_row \<Rightarrow> credential_row)" where
  "verdict_on e t cmd u c = (let stamp = (\<lambda>k. pg_time e (clock e (t + k))); guess = attempted e (cr_id c) (stamp 1) in
     if \<not> after_now (cr_expires_at c) (clock e t) then
       (Refused (Some u) FailureCodeExpired ErrInvalidCredentials, consumed (cr_id c) (stamp (if cr_expires_at c = None then 0 else 1)))
     else if cr_nonce c \<noteq> Some (vc_nonce cmd) then (Refused (Some u) FailureSessionMismatch ErrOTPSessionMismatch, id)
     else if cr_attempts c \<ge> MaxAttempts (au_cfg (e_auth e)) then (Refused (Some u) FailureAttemptsExhausted ErrInvalidCredentials, id)
     else if cr_secret c \<noteq> sha256_hex e (vc_code cmd) then (Refused (Some u) FailureInvalidCode ErrInvalidCredentials, guess)
     else (Verified u, consumed (cr_id c) (stamp 3) \<circ> guess))"

definition verdict :: "env \<Rightarrow> db \<Rightarrow> nat \<Rightarrow> verify_cmd \<Rightarrow> verify_result \<times> (credential_row \<Rightarrow> credential_row)" where
  "verdict e d t cmd = (case owner_of e d (vc_email cmd) of None \<Rightarrow> (Refused None FailureInvalidCode ErrInvalidCredentials, id)
     | Some u \<Rightarrow> (case code_of d (u_id u) of None \<Rightarrow> (Refused (Some u) FailureInvalidCode ErrInvalidCredentials, id)
         | Some c \<Rightarrow> verdict_on e (t + 2) cmd u c))"

lemma post_update_credentials: "post (update_credentials p f) Q R w = (case fault (w_env w) (w_tick w) of Some er \<Rightarrow> R er (tick w)
    | None \<Rightarrow> Q (\<exists>c \<in> set (credentials (w_db w)). p c)
        ((tick w)\<lparr>w_db := set_credentials (w_db w) (map (\<lambda>c. if p c then f (w_env w) c else c) (credentials (w_db w)))\<rparr>))"
  by (simp add: update_credentials_def on_auth_def post_db_call set_credentials_def split: option.split)

lemma post_consume: "post (ConsumeOTP i) Q R w = (case fault (w_env w) (Suc (w_tick w)) of Some er \<Rightarrow> R er (tick (tick w))
    | None \<Rightarrow> Q (\<exists>c \<in> set (credentials (w_db w)). cr_id c = i \<and> live_code c)
        ((tick (tick w))\<lparr>w_db := set_credentials (w_db w) (map (consumed i (pg_time (w_env w) (clock (w_env w) (w_tick w)))) (credentials (w_db w)))\<rparr>))"
  by (simp add: ConsumeOTP_def post_update_credentials consumed_def [abs_def] split: option.split cong: if_cong)

lemma post_guess: "post (ClaimOTPAttempt i (MaxAttempts (au_cfg (e_auth (w_env w))))) Q R w = (case fault (w_env w) (Suc (w_tick w)) of Some er \<Rightarrow> R er (tick (tick w))
    | None \<Rightarrow> Q (\<exists>c \<in> set (credentials (w_db w)). cr_id c = i \<and> live_code c \<and> cr_attempts c < MaxAttempts (au_cfg (e_auth (w_env w))))
        ((tick (tick w))\<lparr>w_db := set_credentials (w_db w) (map (attempted (w_env w) i (pg_time (w_env w) (clock (w_env w) (w_tick w)))) (credentials (w_db w)))\<rparr>))"
  by (simp add: ClaimOTPAttempt_def post_update_credentials attempted_def [abs_def] split: option.split cong: if_cong)

lemma post_owner: "post (user_GetByEmail email) Q R w = (case fault (w_env w) (w_tick w) of Some er \<Rightarrow> R er (tick w)
    | None \<Rightarrow> (case owner_of (w_env w) (w_db w) email of None \<Rightarrow> R ErrUserNotFound (tick w) | Some u \<Rightarrow> Q u (tick w)))"
  by (simp add: user_GetByEmail_def users_GetByEmail_def owner_of_def post_db_call user_or_not_found_def split: option.split)

lemma post_code: "post (GetUnconsumedOTPByUserID uid) Q R w = (case fault (w_env w) (w_tick w) of Some er \<Rightarrow> R er (tick w)
    | None \<Rightarrow> (case code_of (w_db w) uid of None \<Rightarrow> R ErrAuthCredentialNotFound (tick w) | Some c \<Rightarrow> Q c (tick w)))"
  by (simp add: GetUnconsumedOTPByUserID_def credentials_get_def code_of_def post_auth_query split: option.split)

lemma same_code: "codes_inv reg e d \<Longrightarrow> c \<in> set (credentials d) \<Longrightarrow> b \<in> set (credentials d) \<Longrightarrow> cr_id b = cr_id c \<Longrightarrow> b = c"
  by (auto simp: codes_inv_def distinct_map dest: inj_onD)

lemma code_of_Some: "code_of d uid = Some c \<Longrightarrow> c \<in> set (credentials d) \<and> cr_user c = uid \<and> live_code c"
  by (auto simp: code_of_def dest: find_member)

lemma redeem_run:
  assumes "\<And>t. fault (w_env w) t = None" "codes_inv reg (w_env w) (w_db w)" "c \<in> set (credentials (w_db w))" "live_code c"
  shows "post (redeem u c cmd) (\<lambda>r w'. r = fst (verdict_on (w_env w) (w_tick w) cmd u c)
      \<and> credentials (w_db w') = map (snd (verdict_on (w_env w) (w_tick w) cmd u c)) (credentials (w_db w))) (\<lambda>_ _. False) w"
proof -
  let ?max = "MaxAttempts (au_cfg (e_auth (w_env w)))"
  have one: "(\<exists>b \<in> set (credentials (w_db w)). cr_id b = cr_id c \<and> q b) \<longleftrightarrow> q c" for q
    using same_code [OF assms(2,3)] assms(3) by blast
  have guess: "live_code (attempted e i s b) = live_code b" "cr_id (attempted e i s b) = cr_id b" for e i s b
    by (simp_all add: attempted_def live_code_def)
  have idle: "map (attempted (w_env w) (cr_id c) s) (credentials (w_db w)) = credentials (w_db w)" if "\<not> cr_attempts c < ?max" for s
    using that same_code [OF assms(2,3)] by (intro map_idI) (auto simp: attempted_def)
  note defs = redeem_def code_expired_def verdict_on_def Let_def after_now_def otp_matches_def read_cfg_def post_consume post_guess
    guess one assms(1,4) numeral_3_eq_3
  show ?thesis
  proof (cases "cr_expires_at c")
    case None
    then show ?thesis by (simp add: defs)
  next
    case (Some x)
    consider "\<not> clock (w_env w) (w_tick w) < x" | "clock (w_env w) (w_tick w) < x" "cr_nonce c \<noteq> Some (vc_nonce cmd)"
      | "clock (w_env w) (w_tick w) < x" "cr_nonce c = Some (vc_nonce cmd)" by blast
    then show ?thesis
    proof cases
      case 3
      then show ?thesis
        using Some by (cases "cr_attempts c < ?max"; cases "cr_secret c = sha256_hex (w_env w) (vc_code cmd)") (simp_all add: defs idle)
    qed (simp_all add: defs Some)
  qed
qed

lemma redeem_verified:
  assumes "codes_inv reg (w_env w) (w_db w)" "c \<in> set (credentials (w_db w))" "live_code c"
  shows "post (redeem u c cmd) (\<lambda>r w'. \<forall>v. r = Verified v \<longrightarrow> v = u \<and> cr_nonce c = Some (vc_nonce cmd) \<and> cr_secret c = sha256_hex (w_env w) (vc_code cmd)
      \<and> after_now (cr_expires_at c) (clock (w_env w) (w_tick w)) \<and> cr_attempts c < MaxAttempts (au_cfg (e_auth (w_env w)))
      \<and> (\<exists>s s'. credentials (w_db w') = map (consumed (cr_id c) s \<circ> attempted (w_env w) (cr_id c) s') (credentials (w_db w)))) (\<lambda>_ _. True) w"
proof -
  have one: "b \<in> set (credentials (w_db w)) \<Longrightarrow> cr_id b = cr_id c \<Longrightarrow> b = c" for b
    using same_code [OF assms(1,2)] .
  show ?thesis
    using assms(2,3) one
    by (cases "cr_expires_at c")
      (auto simp: redeem_def code_expired_def after_now_def otp_matches_def read_cfg_def post_consume post_guess split: option.split)
qed

lemma verify_post:
  assumes "codes_inv reg (w_env w) (w_db w)"
  shows "post (otp_Verify cmd) (\<lambda>r w'. \<forall>u. r = Verified u \<longrightarrow> owner_of (w_env w) (w_db w) (vc_email cmd) = Some u
      \<and> (\<exists>c. code_of (w_db w) (u_id u) = Some c \<and> cr_nonce c = Some (vc_nonce cmd) \<and> cr_secret c = sha256_hex (w_env w) (vc_code cmd)
        \<and> after_now (cr_expires_at c) (clock (w_env w) (w_tick w + 2)) \<and> cr_attempts c < MaxAttempts (au_cfg (e_auth (w_env w)))
        \<and> (\<exists>s s'. credentials (w_db w') = map (consumed (cr_id c) s \<circ> attempted (w_env w) (cr_id c) s') (credentials (w_db w))))) (\<lambda>_ _. True) w"
  using assms
  by (auto simp: otp_Verify_def optional_def post_owner post_code split: option.split dest: code_of_Some
      intro!: post_weaken [OF redeem_verified [of reg "tick (tick w)", simplified]])

text \<open>A redeemed code leaves its owner without a live code.\<close>

lemma redeemed_code_of:
  assumes "codes_inv reg e d" "code_of d uid = Some c"
    "credentials d' = map (consumed (cr_id c) s \<circ> attempted e (cr_id c) s') (credentials d)"
  shows "code_of d' uid = None"
proof -
  have c: "c \<in> set (credentials d)" "cr_user c = uid" "live_code c" using code_of_Some [OF assms(2)] by auto
  have "b = c" if "b \<in> set (credentials d)" "cr_user b = uid" "live_code b" for b
    using assms(1) c that by (auto simp: codes_inv_def distinct_map dest: inj_onD)
  moreover have "cr_user (consumed i s (attempted e j s' b)) = cr_user b" "live_code (consumed i s b') \<longleftrightarrow> live_code b' \<and> cr_id b' \<noteq> i"
    "live_code (attempted e j s' b) = live_code b" "cr_id (attempted e j s' b) = cr_id b" for i j b b'
    by (auto simp: consumed_def attempted_def live_code_def)
  ultimately have "\<not> (cr_user x = uid \<and> live_code x)" if "x \<in> set (credentials d')" for x
    using that unfolding assms(3) by fastforce
  then show ?thesis by (simp add: code_of_def find_None_iff)
qed

end
