(* ===== verification/CodeSafety.thy ===== *)
theory CodeSafety
  imports CodeInvariant
begin

text \<open>
  What one-time codes and passwords guarantee: uniform codes, a well-formed table, the exact
  verdict on a presented code, single use, a bound on guesses that a new request does not
  lift, and a password reset that ends the account's sessions.
\<close>

section \<open>A code whose guesses are spent\<close>

definition guesses_spent :: "env \<Rightarrow> credential_row \<Rightarrow> bool" where
  "guesses_spent e c \<longleftrightarrow> MaxAttempts (au_cfg (e_auth e)) \<le> cr_attempts c"

abbreviation untouched :: "'a op \<Rightarrow> world \<Rightarrow> bool" where
  "untouched m w \<equiv> post m (\<lambda>_. same_tables w) (\<lambda>_. same_tables w) w"

lemma same_tables_trans: "same_tables w w1 \<Longrightarrow> same_tables w1 w2 \<Longrightarrow> same_tables w w2"
  by (simp add: same_tables_def)

lemma untouched_from: "untouched m w1 \<Longrightarrow> same_tables w w1 \<Longrightarrow> post m (\<lambda>_. same_tables w) (\<lambda>_. same_tables w) w1"
  by (erule post_weaken) (auto dest: same_tables_trans)

lemma untouched_bind:
  assumes "off_tables m" "\<And>a w1. same_tables w w1 \<Longrightarrow> untouched (f a) w1"
  shows "untouched (obind m f) w"
proof -
  have "untouched m w" using assms(1) by (simp add: off_tables_post)
  then show ?thesis unfolding post_obind by (rule post_weaken) (auto intro: untouched_from assms(2))
qed

lemma untouched_tx:
  assumes "w_tx w = None" "\<And>w1. w_db w1 = w_db w \<Longrightarrow> w_env w1 = w_env w \<Longrightarrow> untouched fn w1"
  shows "untouched (WithinTx fn) w"
proof -
  have "untouched fn ((tick w)\<lparr>w_tx := Some (w_db w)\<rparr>)" by (rule assms(2)) simp_all
  then show ?thesis
    using assms(1) by (auto simp: post_WithinTx same_tables_def tx_rollback_def elim!: post_weaken split: option.split)
qed

lemma slot_untouched:
  assumes "code_of (w_db w) uid = Some c" "guesses_spent (w_env w) c" "\<And>t. after_now (cr_expires_at c) (clock (w_env w) t)"
    "\<And>t. fault (w_env w) t \<noteq> Some ErrAuthCredentialNotFound"
  shows "post (claimSlot uid) (\<lambda>held w'. same_tables w w' \<and> held \<noteq> None) (\<lambda>_. same_tables w) w"
  using assms
  by (auto simp: claimSlot_def optional_def GetUnconsumedOTPByUserIDForUpdate_def credentials_get_def post_auth_query code_of_def
      read_cfg_def slot_held_def guesses_spent_def same_tables_def split: option.split)

lemma request_untouched:
  assumes "w_tx w = None" "owner_of (w_env w) (w_db w) email = Some u" "code_of (w_db w) (u_id u) = Some c" "guesses_spent (w_env w) c"
    "\<And>t. after_now (cr_expires_at c) (clock (w_env w) t)"
    "\<And>t. fault (w_env w) t \<noteq> Some ErrAuthCredentialNotFound"
  shows "untouched (otp_Request email purpose) w"
proof -
  have issue: "untouched (issue_tx u nonce purpose code h) w1" if "w_db w1 = w_db w" "w_env w1 = w_env w" for w1 nonce code h
    unfolding issue_tx_def post_obind
    by (rule post_weaken [OF slot_untouched [of w1 "u_id u" c]]) (use assms(3-6) that in auto)
  have slot: "untouched (otp_issue u nonce purpose) w1" if "same_tables w w1" for w1 nonce
    unfolding otp_issue_def
    by (rule untouched_bind [OF off_tables_access(13)])
      (use assms(1) that in \<open>auto simp: same_tables_def intro!: untouched_tx issue\<close>)
  have found: "untouched (obind (optional ErrUserNotFound (user_GetByEmail email)) (\<lambda>found. case found of None \<Rightarrow> ret nonce
       | Some u \<Rightarrow> if IsBlocked u then ret nonce else osequel (otp_issue u nonce purpose) (ret nonce))) w1" if "same_tables w w1" for w1 and nonce :: string
    using that untouched_from [OF slot [of "tick w1"], of w1] assms(2)
    by (auto simp: optional_def post_owner split: option.split) (simp_all add: same_tables_def)
  show ?thesis
    unfolding otp_Request_def
    by (rule untouched_bind [OF off_tables_access(7)]) (auto intro: found simp del: post_obind)
qed

section \<open>A password reset\<close>

lemma find_map_same: "(\<And>x. q (f x) = q x) \<Longrightarrow> (\<And>x. q x \<Longrightarrow> f x = x) \<Longrightarrow> find q (map f xs) = find q xs"
  by (induction xs) auto

lemma UpsertPassword_eq: "UpsertPassword uid h = db_call (\<lambda>e t d.
    if \<exists>c \<in> set (credentials d). is_password uid c then Inr ((), set_credentials d (map (repassword uid h (pg_time e (clock e t))) (credentials d)))
    else if \<exists>c \<in> set (credentials d). cr_id c = gen e t 0 then Inl PgUniqueViolation
    else if uid \<notin> u_id ` set (d_users d) then Inl PgForeignKeyViolation
    else Inr ((), set_credentials d (credentials d @ [password_row e t uid h])))"
  unfolding UpsertPassword_def Let_def is_password_def repassword_def [abs_def] set_credentials_def by (rule refl)

lemma code_of_password:
  "find (\<lambda>c. cr_user c = x \<and> live_code c) (map (repassword uid h s) cs) = find (\<lambda>c. cr_user c = x \<and> live_code c) cs"
  "find (\<lambda>c. cr_user c = x \<and> live_code c) (cs @ [password_row e t uid h]) = find (\<lambda>c. cr_user c = x \<and> live_code c) cs"
proof -
  show "find (\<lambda>c. cr_user c = x \<and> live_code c) (map (repassword uid h s) cs) = find (\<lambda>c. cr_user c = x \<and> live_code c) cs"
    by (rule find_map_same) (auto simp: live_code_def repassword_def is_password_def)
  show "find (\<lambda>c. cr_user c = x \<and> live_code c) (cs @ [password_row e t uid h]) = find (\<lambda>c. cr_user c = x \<and> live_code c) cs"
    by (induction cs) (simp_all add: live_code_def password_row_def)
qed

lemma upsert_post:
  "post (UpsertPassword uid h) (\<lambda>_ w'. w_env w' = w_env w \<and> w_tx w' = w_tx w \<and> token_rows (w_db w') = token_rows (w_db w)
     \<and> (\<forall>x. code_of (w_db w') x = code_of (w_db w) x) \<and> (\<exists>p \<in> set (credentials (w_db w')). is_password uid p \<and> cr_secret p = h)) (\<lambda>_ _. True) w"
proof -
  have renewed: "\<exists>p \<in> set (map (repassword uid h s) cs). is_password uid p \<and> cr_secret p = h" if "\<exists>c \<in> set cs. is_password uid c" for s cs
  proof -
    from that obtain c where "c \<in> set cs" "is_password uid c" by blast
    then have "repassword uid h s c \<in> set (map (repassword uid h s) cs)" "is_password uid (repassword uid h s c)" "cr_secret (repassword uid h s c) = h"
      by (simp_all add: repassword_def is_password_def)
    then show ?thesis by blast
  qed
  have tokens: "token_rows (set_credentials d rows) = token_rows d" for d rows by (simp add: set_credentials_def)
  show ?thesis
    unfolding UpsertPassword_eq
    using renewed [of "credentials (w_db w)" "pg_time (w_env w) (clock (w_env w) (w_tick w))"]
    by (simp add: post_db_call code_of_def code_of_password tokens del: set_map split: option.split)
      (simp add: is_password_def password_row_def)
qed

lemma revoke_nested_post:
  assumes "w_tx w = Some d0"
  shows "post (RevokeRefreshTokenByUserID uid) (\<lambda>_ w'. \<exists>t. w_db w' = revoke_rows (w_env w) t (\<lambda>r. rt_user r = uid) (w_db w)) (\<lambda>_ _. True) w"
proof -
  have join: "post (WithinTx m) Q R w = post m Q R w" for Q R and m :: "uuid list op"
    by (simp add: post_def WithinTx_nested [OF assms])
  have "post (withUserSessionsLocked uid (RevokeByUserID uid)) (\<lambda>_ w'. \<exists>t. w_db w' = revoke_rows (w_env w) t (\<lambda>r. rt_user r = uid) (w_db w)) (\<lambda>_ _. True) w"
    unfolding withUserSessionsLocked_def join
    by (auto simp: LockUserSessions_def AdvisoryXactLock_def RevokeByUserID_def token_revoke_eq post_db_call post_db_query split: option.split)
  moreover have marks: "post (revokeSessionAccessTokens ids) (\<lambda>_ w'. w_db w' = w_db w1) (\<lambda>_ _. True) w1" for ids w1
    by (rule post_weaken [OF off_tables_marks [unfolded off_tables_post, rule_format]]) (simp_all add: same_tables_def)
  ultimately show ?thesis
    unfolding RevokeRefreshTokenByUserID_def post_obind
    by (elim post_weaken) (auto intro!: post_weaken [OF marks])
qed

lemma install_post:
  assumes "w_tx w = None"
  shows "post (installPassword uid new (RevokeRefreshTokenByUserID uid)) (\<lambda>_ w'. (\<forall>r \<in> set (token_rows (w_db w')). rt_user r = uid \<longrightarrow> rt_revoked r)
     \<and> (\<forall>x. code_of (w_db w') x = code_of (w_db w) x)
     \<and> (\<exists>h. au_hash_password (e_auth (w_env w)) (w_tick w) new = Inr h \<and> (\<exists>p \<in> set (credentials (w_db w')). is_password uid p \<and> cr_secret p = h))) (\<lambda>_ _. True) w"
proof -
  have revoke: "post (RevokeRefreshTokenByUserID uid) (\<lambda>_ w'. (\<forall>r \<in> set (token_rows (w_db w')). rt_user r = uid \<longrightarrow> rt_revoked r)
      \<and> credentials (w_db w') = credentials (w_db w1)) (\<lambda>_ _. True) w1" if "w_tx w1 = Some d" for w1 d
  proof (rule post_weaken [OF revoke_nested_post [OF that, of uid]])
    fix w2 :: world assume "\<exists>t. w_db w2 = revoke_rows (w_env w1) t (\<lambda>r. rt_user r = uid) (w_db w1)"
    then obtain t where "w_db w2 = revoke_rows (w_env w1) t (\<lambda>r. rt_user r = uid) (w_db w1)" by blast
    then have creds: "credentials (w_db w2) = credentials (w_db w1)"
      and rows: "token_rows (w_db w2) = map (\<lambda>r. if rt_user r = uid then revoked_row (w_env w1) t r else r) (token_rows (w_db w1))"
      by (simp_all add: revoke_rows_def set_rows_def)
    have revoked: "rt_user x = uid \<longrightarrow> rt_revoked x" if "x \<in> set (map (\<lambda>r. if rt_user r = uid then revoked_row e t r else r) rs)" for x e t rs
      using that by (induction rs) (auto simp: revoked_row_def split: if_splits)
    show "(\<forall>r \<in> set (token_rows (w_db w2)). rt_user r = uid \<longrightarrow> rt_revoked r) \<and> credentials (w_db w2) = credentials (w_db w1)"
      unfolding rows creds by (intro conjI ballI refl) (rule revoked)
  qed simp
  have "post (osequel (UpsertPassword uid h) (RevokeRefreshTokenByUserID uid)) (\<lambda>_ w'. (\<forall>r \<in> set (token_rows (w_db w')). rt_user r = uid \<longrightarrow> rt_revoked r)
      \<and> (\<forall>x. code_of (w_db w') x = code_of (w_db w1) x) \<and> (\<exists>p \<in> set (credentials (w_db w')). is_password uid p \<and> cr_secret p = h)) (\<lambda>_ _. True) w1"
    if "w_tx w1 = Some d" for w1 h d
    unfolding post_osequel
  proof (rule post_weaken [OF upsert_post [of uid h w1]])
    fix w2 :: world assume up: "w_env w2 = w_env w1 \<and> w_tx w2 = w_tx w1 \<and> token_rows (w_db w2) = token_rows (w_db w1)
      \<and> (\<forall>x. code_of (w_db w2) x = code_of (w_db w1) x) \<and> (\<exists>p \<in> set (credentials (w_db w2)). is_password uid p \<and> cr_secret p = h)"
    then have "w_tx w2 = Some d" using that by simp
    from revoke [OF this] show "post (RevokeRefreshTokenByUserID uid) (\<lambda>_ w'. (\<forall>r \<in> set (token_rows (w_db w')). rt_user r = uid \<longrightarrow> rt_revoked r)
      \<and> (\<forall>x. code_of (w_db w') x = code_of (w_db w1) x) \<and> (\<exists>p \<in> set (credentials (w_db w')). is_password uid p \<and> cr_secret p = h)) (\<lambda>_ _. True) w2"
      by (rule post_weaken) (use up in \<open>simp_all add: code_of_def\<close>)
  qed simp
  note body = this
  have hash: "post (HashPassword new) Q R w = (case au_hash_password (e_auth (w_env w)) (w_tick w) new of Inl er \<Rightarrow> R er (tick w) | Inr h \<Rightarrow> Q h (tick w))" for Q R
    by (simp add: post_def HashPassword_def)
  show ?thesis
  proof (cases "au_hash_password (e_auth (w_env w)) (w_tick w) new")
    case (Inr h)
    have "post (WithinTx (osequel (UpsertPassword uid h) (RevokeRefreshTokenByUserID uid))) (\<lambda>_ w'. (\<forall>r \<in> set (token_rows (w_db w')). rt_user r = uid \<longrightarrow> rt_revoked r)
        \<and> (\<forall>x. code_of (w_db w') x = code_of (w_db w) x) \<and> (\<exists>p \<in> set (credentials (w_db w')). is_password uid p \<and> cr_secret p = h)) (\<lambda>_ _. True) (tick w)"
      using body [of "(tick (tick w))\<lparr>w_tx := Some (w_db w)\<rparr>" "w_db w" h] assms
      by (auto simp: post_WithinTx simp del: post_osequel split: option.split elim!: post_weaken)
    with Inr show ?thesis by (simp add: installPassword_def hash del: post_osequel)
  qed (simp add: installPassword_def hash)
qed

lemma verify_db_only: "db_only (otp_Verify cmd)"
proof -
  have [db_only_rules]: "db_only (user_GetByEmail email)" "db_only (credentials_get q)" "db_only (ConsumeOTP i)" "db_only (ClaimOTPAttempt i m)"
    "db_only (code_expired c)" for email q i m c
    by (auto simp: user_GetByEmail_def users_GetByEmail_def user_or_not_found_def credentials_get_def auth_query_def ConsumeOTP_def
        ClaimOTPAttempt_def update_credentials_def code_expired_def intro!: db_only_rules)
  show ?thesis
    by (auto simp: otp_Verify_def optional_def redeem_def read_cfg_def GetUnconsumedOTPByUserID_def intro!: db_only_rules)
qed

text \<open>What a completed reset has done for the account.\<close>

definition reset_done :: "world \<Rightarrow> reset_password_cmd \<Rightarrow> user \<Rightarrow> db \<Rightarrow> bool" where
  "reset_done w cmd u d \<longleftrightarrow> owner_of (w_env w) (w_db w) (rp_email cmd) = Some u \<and> \<not> IsBlocked u
    \<and> (\<forall>r \<in> set (token_rows d). rt_user r = u_id u \<longrightarrow> rt_revoked r) \<and> code_of d (u_id u) = None
    \<and> (\<exists>t h. au_hash_password (e_auth (w_env w)) t (rp_new cmd) = Inr h \<and> (\<exists>p \<in> set (credentials d). is_password (u_id u) p \<and> cr_secret p = h))"

lemma reset_post:
  assumes "w_tx w = None" "codes_inv reg (w_env w) (w_db w)"
  shows "post (ResetPassword cmd) (\<lambda>_ w'. \<exists>u. reset_done w cmd u (w_db w')) (\<lambda>_ _. True) w"
proof -
  let ?v = "\<lparr>vc_email = rp_email cmd, vc_code = rp_code cmd, vc_nonce = rp_nonce cmd, vc_ip = rp_ip cmd, vc_user_agent = rp_user_agent cmd\<rparr>"
  have audit: "post (auth_publishAudit a) (\<lambda>_ w'. w_db w' = w_db w1) (\<lambda>_ _. True) w1" for a w1
    by (simp add: post_def auth_publishAudit_def user_publishAudit_def split: option.split)
  have verified: "post (otp_Verify ?v) (\<lambda>r w1. same_frame w w1 \<and> (\<forall>u. r = Verified u \<longrightarrow> owner_of (w_env w) (w_db w) (rp_email cmd) = Some u
      \<and> code_of (w_db w1) (u_id u) = None)) (\<lambda>_ _. True) w"
    by (rule post_mono [OF verify_post [OF assms(2)]])
      (use db_onlyD [OF verify_db_only] redeemed_code_of [OF assms(2)] in \<open>fastforce+\<close>)
  have install: "post (osequel (installPassword (u_id u) (rp_new cmd) (RevokeRefreshTokenByUserID (u_id u))) (auth_publishAudit a))
      (\<lambda>_ w'. \<exists>u. reset_done w cmd u (w_db w')) (\<lambda>_ _. True) w1"
    if "same_frame w w1" "owner_of (w_env w) (w_db w) (rp_email cmd) = Some u" "\<not> IsBlocked u" "code_of (w_db w1) (u_id u) = None" for u w1 a
    unfolding post_osequel
  proof (rule post_weaken [OF install_post])
    show "w_tx w1 = None" using that(1) assms(1) by (simp add: same_frame_def)
  next
    fix w2 :: world
    assume "(\<forall>r \<in> set (token_rows (w_db w2)). rt_user r = u_id u \<longrightarrow> rt_revoked r) \<and> (\<forall>x. code_of (w_db w2) x = code_of (w_db w1) x)
      \<and> (\<exists>h. au_hash_password (e_auth (w_env w1)) (w_tick w1) (rp_new cmd) = Inr h \<and> (\<exists>p \<in> set (credentials (w_db w2)). is_password (u_id u) p \<and> cr_secret p = h))"
    with that have "reset_done w cmd u (w_db w2)" by (auto simp: reset_done_def same_frame_def)
    then show "post (auth_publishAudit a) (\<lambda>_ w'. \<exists>u. reset_done w cmd u (w_db w')) (\<lambda>_ _. True) w2"
      by (intro post_weaken [OF audit]) auto
  qed simp
  have "post (obind (otp_Verify ?v) (\<lambda>r. case r of
      Refused u reason err \<Rightarrow> osequel (publishOTPLoginFailure (rp_email cmd) (rp_ip cmd) (rp_user_agent cmd) u (or_unknown reason)) (raise err)
    | Verified u \<Rightarrow> if IsBlocked u then raise ErrUserBlocked else
        osequel (installPassword (u_id u) (rp_new cmd) (RevokeRefreshTokenByUserID (u_id u)))
          (auth_publishAudit (AuditPasswordReset u (meta_of (rp_ip cmd) (rp_user_agent cmd) LoginNone)))))
      (\<lambda>_ w'. \<exists>u. reset_done w cmd u (w_db w')) (\<lambda>_ _. True) w"
    unfolding post_obind
    by (rule post_weaken [OF verified]) (auto simp del: post_osequel split: verify_result.split intro!: install, simp_all)
  then show ?thesis
    unfolding ResetPassword_def post_obind [of "password_allowed p" for p]
    by (cases "ValidatePasswordPolicy (rules (w_env w)) (rp_new cmd)") (simp_all add: password_allowed_def del: post_obind)
qed

section \<open>Samples\<close>

definition sample_code :: "int \<Rightarrow> credential_row" where
  "sample_code n = (new_code 2 ''123456'' (5 * minute) ''nonce'')\<lparr>cr_id := 9, cr_attempts := n\<rparr>"

definition sample_codes :: "int \<Rightarrow> db" where
  "sample_codes n = empty_db\<lparr>d_users := [sample_user 1 [RoleAdmin]\<lparr>u_email := ''a''\<rparr>, sample_user 2 [RoleGuest]\<lparr>u_email := ''g''\<rparr>],
     d_auth := empty_auth\<lparr>a_integrations := sample_registry, a_credentials := [sample_code n],
       a_refresh := [new_refresh_row ''h'' 2 50 (1000 * minute) [] 0]\<rparr>\<rparr>"

definition sample_guess :: "string \<Rightarrow> verify_cmd" where
  "sample_guess code = \<lparr>vc_email = ''g'', vc_code = code, vc_nonce = ''nonce'', vc_ip = [], vc_user_agent = []\<rparr>"

definition sample_reset :: reset_password_cmd where
  "sample_reset = \<lparr>rp_email = ''g'', rp_code = ''123456'', rp_nonce = ''nonce'', rp_new = replicate 12 (CHR 0x70), rp_ip = [], rp_user_agent = []\<rparr>"

lemma sample_codes_inv: "0 \<le> n \<Longrightarrow> n \<le> 1 \<Longrightarrow> codes_inv sample_registry (w_env (quiet_world (sample_codes n))) (w_db (quiet_world (sample_codes n)))"
  using MaxAttempts_bounds(1) [of "au_cfg (e_auth (w_env (quiet_world (sample_codes n))))"]
  by (simp add: codes_inv_def sample_codes_def sample_code_def quiet_world_def new_code_def live_code_def)

lemma sample_codes_quiet [simp]: "w_tx (quiet_world d) = None" "fault_free (quiet_world d)"
  by (simp_all add: quiet_world_def fault_free_def quiet_env_def)

section \<open>Properties\<close>

text \<open>C29. One-time codes are uniform: of the 32-bit values the generator may draw, exactly 4294
  give each string of six digits, and none gives any other string; every other value is
  drawn again.\<close>

theorem otp_code_unbiased:
  "card {n :: 32 word. generateOTPCode [n] er = Inr code} = (if length code = 6 \<and> digits code then 4294 else 0)
   \<and> (\<forall>n ns. generateOTPCode (n # ns) er = (case generateOTPCode [n] er of Inl _ \<Rightarrow> generateOTPCode ns er | Inr c \<Rightarrow> Inr c))"
proof
  have drawn: "generateOTPCode [n] er = Inr code \<longleftrightarrow> unat n < 4294000000 \<and> unat n mod 1000000 = digits_value code"
    if "length code = 6" "digits code" for n
    using code_of_value [OF that, of "unat n mod 1000000"] by (auto simp: accepted_values simp del: generateOTPCode.simps)
  have range: "generateOTPCode [n] er \<noteq> Inr code" if "\<not> (length code = 6 \<and> digits code)" for n
    using that pad_zeros_digits [of "unat n mod 1000000"] by (auto simp: accepted_values simp del: generateOTPCode.simps)
  show "card {n :: 32 word. generateOTPCode [n] er = Inr code} = (if length code = 6 \<and> digits code then 4294 else 0)"
    using card_residues [of "digits_value code"] digits_value_bound [of code] range by (auto simp: drawn simp del: generateOTPCode.simps)
qed simp

text \<open>C28. The credentials table stays well formed: after any sequence of access requests an
  account has at most one live code and at most one password, and no code has been guessed
  at more often than the configured maximum, which is at most ten.\<close>

theorem one_live_code:
  assumes "w_tx w = None" "codes_inv reg (w_env w) (w_db w)"
  shows "codes_inv reg (w_env (serve_all rs w)) (w_db (serve_all rs w)) \<and> MaxAttempts (au_cfg (e_auth (w_env (serve_all rs w)))) \<le> 10"
  using codes.access_sequences_kept [OF assms] by (simp add: tables_sat_def MaxAttempts_bounds)

theorem one_live_code_witness:
  "codes_inv sample_registry
     (w_env (serve_all [SignInWithCode (sample_guess ''000000''), RequestCode ''g'' PurposeSignIn] (quiet_world (sample_codes 0))))
     (w_db (serve_all [SignInWithCode (sample_guess ''000000''), RequestCode ''g'' PurposeSignIn] (quiet_world (sample_codes 0))))"
  using one_live_code [OF sample_codes_quiet(1) sample_codes_inv [of 0], simplified] by blast

text \<open>C12. Verification is exact: without database failures the answer to a presented code, and
  the rows it leaves, are those of the reference verdict: an unknown address and an absent
  code are refused alike, an expired code is spent, a foreign session costs no guess, a
  code whose guesses are spent is refused, a wrong guess is counted, and the right code is
  counted and spent.\<close>

theorem otp_verify_exact:
  assumes "fault_free w" "codes_inv reg (w_env w) (w_db w)"
  shows "fst (otp_Verify cmd w) = Inr (fst (verdict (w_env w) (w_db w) (w_tick w) cmd))
    \<and> credentials (w_db (snd (otp_Verify cmd w))) = map (snd (verdict (w_env w) (w_db w) (w_tick w) cmd)) (credentials (w_db w))"
proof -
  have "post (otp_Verify cmd) (\<lambda>r w'. r = fst (verdict (w_env w) (w_db w) (w_tick w) cmd)
      \<and> credentials (w_db w') = map (snd (verdict (w_env w) (w_db w) (w_tick w) cmd)) (credentials (w_db w))) (\<lambda>_ _. False) w"
    using assms
    by (auto simp: otp_Verify_def optional_def post_owner post_code verdict_def fault_free_def split: option.split dest!: code_of_Some
        intro!: post_weaken [OF redeem_run [of "tick (tick w)" reg, simplified]])
  then show ?thesis by (auto simp: post_def split: prod.splits sum.splits)
qed

theorem otp_verify_exact_witness:
  "fst (otp_Verify (sample_guess ''123456'') (quiet_world (sample_codes 1))) = Inr (Verified (sample_user 2 [RoleGuest]\<lparr>u_email := ''g''\<rparr>))"
proof -
  let ?w = "quiet_world (sample_codes 1)"
  have "fst (verdict (w_env ?w) (w_db ?w) (w_tick ?w) (sample_guess ''123456'')) = Verified (sample_user 2 [RoleGuest]\<lparr>u_email := ''g''\<rparr>)"
    by code_simp
  with otp_verify_exact [OF sample_codes_quiet(2) sample_codes_inv [of 1]] show ?thesis by simp
qed

text \<open>A code is redeemed once: whatever fails, a verification answers with an account only
  for the live code of the account with the presented address, requested by the same
  session, unexpired, with guesses left and with the presented digits; and it leaves that
  account without a live code.\<close>

theorem verified_code_is_spent:
  assumes "otp_Verify cmd w = (Inr (Verified u), w')" "codes_inv reg (w_env w) (w_db w)"
  shows "owner_of (w_env w) (w_db w) (vc_email cmd) = Some u \<and> code_of (w_db w') (u_id u) = None
    \<and> (\<exists>c. code_of (w_db w) (u_id u) = Some c \<and> cr_nonce c = Some (vc_nonce cmd) \<and> cr_secret c = sha256_hex (w_env w) (vc_code cmd)
        \<and> after_now (cr_expires_at c) (clock (w_env w) (w_tick w + 2)) \<and> cr_attempts c < MaxAttempts (au_cfg (e_auth (w_env w))))"
  using post_InrD [OF verify_post [OF assms(2)] assms(1)] redeemed_code_of [OF assms(2)] by blast

theorem verified_code_is_spent_witness:
  "code_of (w_db (snd (otp_Verify (sample_guess ''123456'') (quiet_world (sample_codes 1))))) 2 = None"
proof -
  let ?v = "otp_Verify (sample_guess ''123456'') (quiet_world (sample_codes 1))" and ?u = "sample_user 2 [RoleGuest]\<lparr>u_email := ''g''\<rparr>"
  have "fst ?v = Inr (Verified ?u)" by code_simp
  then have "?v = (Inr (Verified ?u), snd ?v)" by (metis prod.collapse)
  from verified_code_is_spent [OF this sample_codes_inv [of 1]] show ?thesis by (simp add: sample_user_def)
qed

text \<open>C26. Spent guesses are not renewed: while a code whose guesses are used up has not expired,
  requesting another one, for signing in or for a reset, changes nothing, so that code stays
  the account's only live one until it expires.\<close>

theorem spent_code_not_renewed:
  assumes "w_tx w = None" "owner_of (w_env w) (w_db w) email = Some u" "code_of (w_db w) (u_id u) = Some c" "guesses_spent (w_env w) c"
    "\<forall>t. after_now (cr_expires_at c) (clock (w_env w) t)" "\<forall>t. fault (w_env w) t \<noteq> Some ErrAuthCredentialNotFound"
  shows "w_db (snd (otp_Request email purpose w)) = w_db w"
  using request_untouched [OF assms(1-4), of purpose] assms(5,6)
  by (auto simp: post_def same_tables_def split: prod.splits sum.splits)

definition frozen_world :: "db \<Rightarrow> world" where
  "frozen_world d = (quiet_world d)\<lparr>w_env := quiet_env\<lparr>clock := (\<lambda>_. 0)\<rparr>\<rparr>"

theorem spent_code_not_renewed_witness:
  "w_db (snd (otp_Request ''g'' PurposePasswordReset (frozen_world (sample_codes 5)))) = sample_codes 5"
proof -
  let ?w = "frozen_world (sample_codes 5)"
  have w: "w_tx ?w = None" "w_db ?w = sample_codes 5" by (simp_all add: frozen_world_def quiet_world_def)
  have "owner_of (w_env ?w) (w_db ?w) ''g'' = Some (sample_user 2 [RoleGuest]\<lparr>u_email := ''g''\<rparr>)"
    "code_of (w_db ?w) (u_id (sample_user 2 [RoleGuest]\<lparr>u_email := ''g''\<rparr>)) = Some (sample_code 5)" "guesses_spent (w_env ?w) (sample_code 5)"
    by code_simp+
  moreover have "\<forall>t. after_now (cr_expires_at (sample_code 5)) (clock (w_env ?w) t)" "\<forall>t. fault (w_env ?w) t \<noteq> Some ErrAuthCredentialNotFound"
    by (simp_all add: frozen_world_def quiet_world_def quiet_env_def sample_code_def new_code_def after_now_def minute_def second_def)
  ultimately show ?thesis using spent_code_not_renewed [OF w(1)] w(2) by metis
qed



end
