(* ===== verification/DanceStore.thy ===== *)
theory DanceStore
  imports AccessInvariant
begin

text \<open>
  The store of the browser dance under every request: which operations leave its entries
  alone while the ticks advance, and the contract of a predicate on them that all requests maintain, one law for
  each statement that writes or takes an entry.
\<close>

section \<open>Operations apart from the store\<close>

definition same_store :: "world \<Rightarrow> world \<Rightarrow> bool" where
  "same_store w w' \<longleftrightarrow> w_tick w \<le> w_tick w' \<and> w_env w' = w_env w \<and> w_codes w' = w_codes w \<and> w_tickets w' = w_tickets w \<and> w_links w' = w_links w"

definition apart :: "'a op \<Rightarrow> bool" where
  "apart m \<longleftrightarrow> (\<forall>w. same_store w (snd (m w)))"

named_theorems apart_rules \<open>operations that leave the dance store alone\<close>

lemma same_store_refl: "same_store a a"
  and same_store_trans: "same_store a b \<Longrightarrow> same_store b c \<Longrightarrow> same_store a c"
  by (simp_all add: same_store_def)

lemma apart_keeps: "apart m \<longleftrightarrow> (\<forall>w0. keeps (same_store w0) m)"
  unfolding apart_def keeps_def using same_store_trans same_store_refl by blast

lemma apartD: "apart m \<Longrightarrow> m w = (r, w') \<Longrightarrow> same_store w w'"
  unfolding apart_def by (metis snd_conv)

lemma apart_ops [apart_rules]:
  "apart (ret a)" "apart (raise e)" "apart (read_world f)" "apart (guard_or b e)"
  "apart m \<Longrightarrow> (\<And>a. apart (g a)) \<Longrightarrow> apart (obind m g)"
  "apart m \<Longrightarrow> apart n \<Longrightarrow> apart (osequel m n)"
  "apart n \<Longrightarrow> (\<And>e. apart (h e)) \<Longrightarrow> apart (ocatch n h)"
  "apart m \<Longrightarrow> apart (best_effort m)"
  "apart m \<Longrightarrow> apart k \<Longrightarrow> apart (if b then m else k)"
  "apart m \<Longrightarrow> (\<And>x. apart (k' x)) \<Longrightarrow> apart (case xo of None \<Rightarrow> m | Some x \<Rightarrow> k' x)"
  "(\<And>x. apart (q x)) \<Longrightarrow> apart (for_each xs q)"
  for m k :: "'b op" and n :: "'c op" and q :: "'x \<Rightarrow> unit op"
  unfolding apart_keeps by (auto intro!: keep_rules)

lemma apart_cases [apart_rules]: "(\<And>a b. apart (f a b)) \<Longrightarrow> apart (case x of (a, b) \<Rightarrow> f a b)"
  "(\<And>e. apart (k e)) \<Longrightarrow> (\<And>a. apart (k' a)) \<Longrightarrow> apart (case s of Inl e \<Rightarrow> k e | Inr a \<Rightarrow> k' a)"
  by (cases x; simp) (cases s; simp)

lemma apart_call [apart_rules]: "apart (db_call f)"
  by (auto simp: apart_def same_store_def db_call_def split: option.split sum.split)

lemma apart_WithinTx [apart_rules]:
  assumes "apart fn"
  shows "apart (WithinTx fn)" "apart (WithinTx_outbox fn)"
proof -
  have ends: "apart tx_begin" "apart tx_commit"
    by (auto simp: apart_def same_store_def tx_begin_def tx_commit_def op_defs db_query_def db_call_def split: option.split)
  have undone: "same_store w (tx_rollback w') = same_store w w'" for w w'
    by (simp add: tx_rollback_def same_store_def split: option.split)
  show tx: "apart (WithinTx fn)"
  proof -
    have "same_store w (snd (WithinTx fn w))" for w
    proof (cases "w_tx w")
      case None
      obtain r1 w1 where b: "tx_begin w = (r1, w1)" by fastforce
      obtain r2 w2 where f: "fn w1 = (r2, w2)" by fastforce
      obtain r3 w3 where c: "tx_commit w2 = (r3, w3)" by fastforce
      note run = apartD [OF ends(1) b] apartD [OF assms f] apartD [OF ends(2) c]
      then have "same_store w w2" "same_store w w3" by (meson same_store_trans)+
      with run(1) None b f c show ?thesis
        by (cases r1; cases r2; cases r3) (simp_all add: WithinTx_def undone)
    qed (use assms in \<open>simp add: WithinTx_def apart_def\<close>)
    then show ?thesis by (simp add: apart_def)
  qed
  have "same_store w (snd (WithinTx_outbox fn w))" for w
    using tx unfolding apart_def WithinTx_outbox_def same_store_def
    by (cases "WithinTx fn w"; cases "fst (WithinTx fn w)") (auto dest: spec [of _ w])
  then show "apart (WithinTx_outbox fn)" by (simp add: apart_def)
qed

lemma apart_readings [apart_rules]:
  "apart License_cap" "apart UTCNow" "apart (user_publishAudit act)" "apart (valkey_set keys ttl)" "apart new_uuid" "apart GenerateRefreshToken"
  "apart locker_Acquire" "apart (VerifyAccessToken raw)" "apart GenerateToken" "apart (new_task ty pl key)" "apart (PutInvitationHandle handle i)"
  "apart (ConsumeInvitationHandle handle)" "apart (method_Enabled name)" "apart (HashPassword pw)" "apart GenerateOTPCode"
  "apart (sealForDelivery c target code purpose)" "apart (VerifyPassword stored pw)" "apart (bootstrap_Authenticate pw)"
  "apart snapshot_load" "apart newDanceSecret" "apart (AuthCodeURL provider state verifier)" "apart (Exchange provider code verifier)"
  "apart (Authenticate m credential)"
  by (auto simp: apart_def same_store_def License_cap_def UTCNow_def user_publishAudit_def valkey_set_def new_uuid_def GenerateRefreshToken_def
      locker_Acquire_def VerifyAccessToken_def GenerateToken_def new_task_def PutInvitationHandle_def ConsumeInvitationHandle_def method_Enabled_def
      HashPassword_def GenerateOTPCode_def sealForDelivery_def VerifyPassword_def bootstrap_Authenticate_def snapshot_load_def newDanceSecret_def
      AuthCodeURL_def Exchange_def Authenticate_def Let_def split: sum.split option.split prod.split)

lemma apart_statements [apart_rules]: "apart (db_query q)" "apart (on_auth f)" "apart (auth_query q')" "apart AdvisoryXactLock" "apart (read_cfg r)"
  "apart m \<Longrightarrow> apart (optional missing m)" "apart m \<Longrightarrow> apart (forget m)" "apart batch \<Longrightarrow> apart (drain n batch limit)"
  for m :: "'b op"
  by (induction n) (auto simp: db_query_def on_auth_def auth_query_def AdvisoryXactLock_def read_cfg_def optional_def forget_def intro!: apart_rules)

section \<open>Accounts and sessions\<close>

lemma apart_users [apart_rules]: "apart (GetForUpdateByID uid)" "apart (users_Update u)" "apart (user_GetByID uid)" "apart (users_GetByID uid)" "apart (users_Create u)"
  "apart (users_GetByEmail email)" "apart EnsureSeatAvailable" "apart (ensureNotLastActiveAdmin u)" "apart LockAdminMutations"
  "(\<And>u. apart (fn u)) \<Longrightarrow> apart (user_updateWithApply uid fn)" "apart m \<Longrightarrow> apart k \<Longrightarrow> apart (unchanged_ok m k)"
  for m k :: "'b op"
  by (auto simp: GetForUpdateByID_def users_Update_def user_GetByID_def users_GetByID_def users_Create_def users_GetByEmail_def user_or_not_found_def
      EnsureSeatAvailable_def ListActiveRoles_def ListPendingRoles_def ensureNotLastActiveAdmin_def LockAdminMutations_def CountActiveAdmins_def
      user_updateWithApply_def user_update_tx_def unchanged_ok_def intro!: apart_rules)

lemma apart_marks [apart_rules]: "apart (revokeSessionAccessTokens fs)" "apart (RevokeRefreshTokenByUserID uid)"
  "apart (RevokeRefreshTokenByFamily uid family)" "apart (RevokeRefreshTokenByUserIDExceptFamily uid family)" "apart (RevokeFamilyByRefreshToken raw claims)"
  "apart (GetRefreshTokenByHash h)" "apart (LockUserSessions uid)" "apart (FamilyByRefreshToken raw uid)"
  by (auto simp: revokeSessionAccessTokens_def AddSessions_def RevokeRefreshTokenByUserID_def RevokeRefreshTokenByFamily_def
      RevokeRefreshTokenByUserIDExceptFamily_def RevokeFamilyByRefreshToken_def withUserSessionsLocked_def LockUserSessions_def RevokeByUserID_def
      RevokeByUserIDExceptFamily_def RevokeFamily_def token_revoke_def GetRefreshTokenByHash_def GetByTokenHash_def FamilyByRefreshToken_def
      intro!: apart_rules)

lemma apart_roles [apart_rules]: "apart (AssignRoles rcmd)" "apart (RevokeRole rvcmd)" "apart (ReplaceRoles rcmd)" "apart (BlockUser bcmd)"
  "apart (UnblockUser bcmd)" "apart (UpdateUserTags tcmd)" "apart (UpdatePreferences uid prefs)" "apart (grantRolesUnguarded uid rs)"
  by (auto simp: AssignRoles_def assign_apply_def RevokeRole_def revoke_apply_def ReplaceRoles_def replace_apply_def BlockUser_def block_apply_def
      UnblockUser_def unblock_apply_def UpdateUserTags_def UpdatePreferences_def patch_field_def grantRolesUnguarded_def Let_def intro!: apart_rules)

lemma apart_identities [apart_rules]: "apart (LinkIdentity uid provider info)" "apart (UnlinkIdentity uid provider b)"
  "apart (GetOrCreateByAuthInfo provider info policy)" "apart (CreateWithoutIdentity email name)" "apart (EnsureBreakGlassAccount email name)"
  "apart (ListConnectedProviders uid)"
  by (auto simp: LinkIdentity_def link_tx_def UnlinkIdentity_def unlink_tx_def GetOrCreateByAuthInfo_def createByPolicy_def createWithIdentity_def
      createIdentity_def getUserByIdentity_def CreateWithoutIdentity_def EnsureBreakGlassAccount_def ensureBreakGlassAccount_def break_glass_tx_def
      ListConnectedProviders_def ListMethodsByUserID_def integrationID_def ResolveID_def GetByKindName_def identities_get_def GetByMethodSubject_def
      GetByUserAndMethod_def identities_Create_def CountProvidersByUserID_def DeleteUserIdentityByProviderName_def Let_def intro!: apart_rules)

lemma apart_accounts [apart_rules]: "apart (serve_user r)"
  by (cases r) (auto intro!: apart_rules)

lemma apart_pair [apart_rules]: "apart (IssueTokenPair u ip)" "apart (auth_publishAudit act)"
  by (auto simp: IssueTokenPair_def IssueAccessToken_def SaveRefreshToken_def token_Save_def auth_publishAudit_def intro!: apart_rules split: sum.split)

lemma apart_refresh [apart_rules]: "apart (Refresh raw ip agent)"
  by (auto simp: Refresh_def rotateRefreshToken_def rotate_tx_def RotateRefreshToken_def token_Rotate_def reuseRevoked_def publishSessionRevoked_def
      refreshWithinGrace_def issueAccessTokenByUserID_def sessionTTLsFor_def HasLiveRefreshToken_def HasLiveToken_def IssueAccessToken_def
      SaveRefreshToken_def token_Save_def Let_def intro!: apart_rules split: sum.split)

lemma apart_logout [apart_rules]: "apart (Logout access refresh)" "apart (LogoutAll access)" "apart (PruneRefreshTokens retention limit)"
proof -
  have "apart (prune_batches n cutoff l)" for n cutoff l
    by (induction n) (auto simp: PruneExpiredBefore_def intro!: apart_rules)
  then show "apart (PruneRefreshTokens retention limit)" by (auto simp: PruneRefreshTokens_def Let_def intro!: apart_rules)
  show "apart (Logout access refresh)" "apart (LogoutAll access)"
    by (auto simp: Logout_def LogoutAll_def auth_logout_def revokeAccessTokenSession_def blacklist_Add_def parse_or_def Let_def
        intro!: apart_rules split: option.split)
qed

lemma apart_sessions [apart_rules]: "apart (serve_session r)"
  by (cases r) (auto intro!: apart_rules)

section \<open>Invitations, codes and sign-ins\<close>

lemma apart_invitation_rows [apart_rules]: "apart (invitations_get p)" "apart (GetActivePendingByEmail email)" "apart (update_invitations p f)"
  "apart (invitations_Create i)" "apart (invitations_Resend x h ex sent)" "apart (invitations_GetByTokenHash h)" "apart (invitations_GetForUpdateByID x)"
  "apart (invitations_GetByID x)" "apart (invitations_List st)" "apart (ExpireOlderThan now limit)" "apart (PruneTerminalOlderThan now limit)"
  "apart (MarkAccepted x)" "apart (SetRevoked x now)" "apart (scheduler_Schedule ty pl key)"
  by (auto simp: invitations_get_def GetActivePendingByEmail_def update_invitations_def invitations_Create_def invitations_Resend_def
      invitations_GetByTokenHash_def invitations_GetForUpdateByID_def invitations_GetByID_def invitations_List_def ExpireOlderThan_def
      PruneTerminalOlderThan_def MarkAccepted_def SetRevoked_def scheduler_Schedule_def ScheduleDelayed_def Let_def intro!: apart_rules)

lemma apart_invitations [apart_rules]: "apart (invitation_Create cmd)" "apart (invitation_Resend icmd)" "apart (invitation_Revoke icmd)"
  "apart (invitation_Preview raw)" "apart (invitation_List st)" "apart (invitation_Rotate limit)" "apart (invitation_Prune retention limit)"
  "apart (PrepareHandle handle raw)" "apart (ResolveForIdentity handle claims)" "apart (ClaimForUser invite uid)" "apart (ResolveByToken raw)"
  "apart (user_GetByEmail email)"
  by (auto simp: invitation_Create_def invite_tx_def revokeActiveInvitation_def sendInvitationEmail_def SendAsync_def invitation_Resend_def resend_tx_def
      invitation_Revoke_def revoke_invitation_tx_def invitation_Preview_def invitation_List_def invitation_Rotate_def invitation_Prune_def
      PrepareHandle_def ResolveForIdentity_def ClaimForUser_def claim_tx_def ResolveByToken_def user_GetByEmail_def Let_def
      intro!: apart_rules split: invitation_status.split)

lemma apart_codes [apart_rules]: "apart (otp_Request email purpose)" "apart (otp_Prune retention limit)" "apart (otp_Verify cmd)"
  "apart (UpsertPassword uid h)" "apart (GetPasswordByUserID uid)"
  by (auto simp: otp_Request_def otp_issue_def issue_tx_def claimSlot_def otp_Prune_def otp_Verify_def redeem_def credentials_get_def
      GetUnconsumedOTPByUserIDForUpdate_def update_credentials_def ConsumeOTP_def credentials_Create_def PruneOTPExpiredBefore_def
      GetUnconsumedOTPByUserID_def code_expired_def ClaimOTPAttempt_def UpsertPassword_def GetPasswordByUserID_def Let_def
      intro!: apart_rules split: slot_hold.split)

lemma apart_audits [apart_rules]: "apart (publishLoginFailure u meta reason)" "apart (publishLoginSuccess u meta pair)"
  "apart (publishOTPLoginFailure email ip agent uo reason)" "apart (publishPasswordLoginFailure cmd m)" "apart (methodOffered name)"
  "apart (password_allowed pw)" "apart (issue_or_audit u ip meta)" "apart (resolveSignInUser provider claims policy meta)" "apart (issueSignInPair u meta)"
  by (auto simp: publishLoginFailure_def publishLoginSuccess_def publishOTPLoginFailure_def publishPasswordLoginFailure_def methodOffered_def
      password_allowed_def issue_or_audit_def resolveSignInUser_def issueSignInPair_def intro!: apart_rules)

lemma apart_sign_ins [apart_rules]: "apart (LoginWithOTP cmd)" "apart (LoginWithPassword pcmd)" "apart (SignInWithVerifiedClaims provider claims policy meta)"
  "apart (LoginWithBreakGlass pw ip agent)" "apart (AcceptInvitationWithPassword acmd)" "apart (RequestPasswordReset email)"
  by (auto simp: LoginWithOTP_def LoginWithPassword_def loginWithPassword_def loginWithStoredPassword_def refusePassword_def
      SignInWithVerifiedClaims_def LoginWithBreakGlass_def AcceptInvitationWithPassword_def accept_tx_def RequestPasswordReset_def Let_def
      intro!: apart_rules split: verify_result.split)

lemma apart_passwords [apart_rules]: "apart (ChangePassword ccmd)" "apart (ResetPassword rcmd)" "apart (DisconnectProvider uid provider)"
  by (auto simp: ChangePassword_def verifyCurrentPassword_def requireFreshSession_def GetRefreshToken_def installPassword_def revokeOtherSessions_def
      ResetPassword_def DisconnectProvider_def hasBuiltinSignIn_def HasPassword_def Let_def intro!: apart_rules split: verify_result.split)

lemma apart_dance_parts: "apart (PeekLinkTicket ticket)" "apart (DanceProvider segment)" "apart (danceGatewayFor provider)"
  "apart (verifyLinkTicket ticket provider)" "apart (mintInvitationHandle token)" "apart (isOurDance cb)" "apart (verifyDanceOrigin cb meta)"
  "apart (verifyProviderCredential provider credential)" "apart (resolveInvitation handle claims meta)" "apart (claim_or_refuse invitation u claims meta)"
  "apart (publishLinkRefused meta)" "apart (publishLinkRefusedFor uid meta reason)" "apart (publishLinked uid meta)"
proof -
  show peek: "apart (PeekLinkTicket ticket)" for ticket
    by (simp add: apart_def same_store_def PeekLinkTicket_def store_call_def split: option.split)
  show "apart (verifyLinkTicket ticket provider)" by (auto simp: verifyLinkTicket_def intro!: apart_rules peek)
qed (auto simp: DanceProvider_def danceGatewayFor_def mintInvitationHandle_def isOurDance_def verifyDanceOrigin_def refuseDance_def
    verifyProviderCredential_def methods_Get_def resolveInvitation_def claim_or_refuse_def publishLinkRefused_def publishLinkRefusedFor_def
    publishLinked_def Let_def intro!: apart_rules)

lemma apart_StartDance: "apart (StartDance segment token ticket binding)"
  by (auto simp: StartDance_def intro!: apart_rules apart_dance_parts)

section \<open>The contract\<close>

type_synonym 'v entries = "(string \<times> 'v \<times> time) list"

text \<open>A predicate on the entries, from a given tick on.\<close>

definition store_sat :: "nat \<Rightarrow> (env \<Rightarrow> dance_code entries \<Rightarrow> link_intent entries \<Rightarrow> pending_link entries \<Rightarrow> bool) \<Rightarrow> world \<Rightarrow> bool" where
  "store_sat n Q w \<longleftrightarrow> n \<le> w_tick w \<and> Q (w_env w) (w_codes w) (w_tickets w) (w_links w)"

lemma apart_sat: "apart m \<Longrightarrow> keeps (store_sat n Q) m"
  by (auto simp: apart_def keeps_def same_store_def store_sat_def intro: le_trans)

lemma post_secret: "post newDanceSecret R E w = (case au_dance_secret (e_auth (w_env w)) (w_tick w) of Inl err \<Rightarrow> E err (tick w) | Inr s \<Rightarrow> R s (tick w))"
  by (simp add: post_def newDanceSecret_def split: sum.split)

lemma post_store_call: "post (store_call f) R E w = (case fault (w_env w) (w_tick w) of Some err \<Rightarrow> E err (tick w)
    | None \<Rightarrow> R (fst (f (w_env w) (clock (w_env w) (w_tick w)) (tick w))) (snd (f (w_env w) (clock (w_env w) (w_tick w)) (tick w))))"
  by (simp add: post_def store_call_def split: option.split prod.split)

lemma post_DanceProvider: "post (DanceProvider segment) R E w = (let s = newSnapshot (w_env w) (au_builtins (e_auth (w_env w)))
      (map buildOne (au_providers (e_auth (w_env w)) (w_tick w))) in
    R (if nameable segment \<and> segment \<in> set (lg_methods s) \<and> segment \<in> set (lg_gateways s) then Some segment else None) (tick w))"
  by (simp add: DanceProvider_def snapshot_load_def obind_def ret_def post_def Let_def)

definition origin_ok :: "dance_callback \<Rightarrow> env \<Rightarrow> time \<Rightarrow> bool" where
  "origin_ok cb e now \<longleftrightarrow> cb_error cb = [] \<and> state_Verify e (cb_signature cb) (cb_provider cb) (cb_state cb) now
     \<and> cb_verifier cb \<noteq> [] \<and> cb_code cb \<noteq> [] \<and> cb_binding cb \<noteq> []"

lemma origin_post: "cb_error cb = [] \<Longrightarrow> post (verifyDanceOrigin cb meta)
    (\<lambda>p w'. p = cb_provider cb \<and> w' = tick (tick w) \<and> origin_ok cb (w_env w) (clock (w_env w) (Suc (w_tick w)))) (\<lambda>_ _. True) w"
  by (auto simp: verifyDanceOrigin_def refuseDance_def post_DanceProvider post_now origin_ok_def Let_def intro: postI)

locale dance_store =
  fixes n :: nat and Q :: "env \<Rightarrow> dance_code entries \<Rightarrow> link_intent entries \<Rightarrow> pending_link entries \<Rightarrow> bool"
  assumes code_put: "Q e cs ts ls \<Longrightarrow> n \<le> t \<Longrightarrow> au_dance_secret (e_auth e) t = Inr s \<Longrightarrow> dc_binding d \<noteq> [] \<Longrightarrow>
      Q e (kv_put (codeKey e s) d until cs) ts ls"
    and ticket_put: "Q e cs ts ls \<Longrightarrow> n \<le> t \<Longrightarrow> au_dance_secret (e_auth e) t = Inr s \<Longrightarrow> Q e cs (kv_put (linkKey e s) i until ts) ls"
    and link_put: "Q e cs ts ls \<Longrightarrow> n \<le> t \<Longrightarrow> au_dance_secret (e_auth e) t = Inr s \<Longrightarrow> pl_binding l \<noteq> [] \<Longrightarrow>
      Q e cs ts (kv_put (linkCodeKey e s) l until ls)"
    and taken: "Q e cs ts ls \<Longrightarrow> Q e (kv_del k cs) ts ls" "Q e cs ts ls \<Longrightarrow> Q e cs (kv_del k ts) ls"
      "Q e cs ts ls \<Longrightarrow> Q e cs ts (kv_del k ls)"
begin

lemma taken_kept: "keeps (store_sat n Q) (ConsumeCode c)" "keeps (store_sat n Q) (ConsumeLinkTicket c)" "keeps (store_sat n Q) (ConsumeLinkCode c)"
  by (auto simp: keeps_post ConsumeCode_def ConsumeLinkTicket_def ConsumeLinkCode_def post_store_call store_sat_def intro: taken split: option.split)

lemma put_kept:
  "dc_binding d \<noteq> [] \<Longrightarrow> keeps (store_sat n Q) (obind newDanceSecret (\<lambda>c. osequel (PutCode c d) (ret (f c))))"
  "pl_binding l \<noteq> [] \<Longrightarrow> keeps (store_sat n Q) (obind newDanceSecret (\<lambda>c. osequel (PutLinkCode c l) (ret (f c))))"
  "keeps (store_sat n Q) (obind newDanceSecret (\<lambda>c. osequel (PutLinkTicket c i) (ret (g c))))"
  by (auto simp: keeps_post post_secret PutCode_def PutLinkCode_def PutLinkTicket_def post_store_call store_sat_def
      intro: code_put link_put ticket_put split: option.split sum.split)

lemmas steps_kept = apart_dance_parts [THEN apart_sat] apart_readings [THEN apart_sat] apart_audits [THEN apart_sat] apart_identities [THEN apart_sat]

lemma park_kept: "binding \<noteq> [] \<Longrightarrow> keeps (store_sat n Q) (parkLink provider ticket claims binding meta)"
  by (auto simp: parkLink_def intro!: keep_rules steps_kept taken_kept put_kept)

lemma issue_code_kept: "cb_binding cb \<noteq> [] \<Longrightarrow> keeps (store_sat n Q) (issueDanceCode provider credential cb meta)"
  by (auto simp: issueDanceCode_def intro!: keep_rules steps_kept park_kept put_kept)

lemma complete_kept: "keeps (store_sat n Q) (CompleteDance cb meta)"
proof (cases "cb_error cb = []")
  case True
  have "keeps (store_sat n Q) (obind (verifyDanceOrigin cb meta) k)" if "cb_binding cb \<noteq> [] \<Longrightarrow> (\<And>p. keeps (store_sat n Q) (k p))" for k :: "string \<Rightarrow> dance_outcome op"
  proof (cases "cb_binding cb = []")
    case none: True
    have "post (verifyDanceOrigin cb meta) (\<lambda>a. post (k a) (\<lambda>_. store_sat n Q) (\<lambda>_. store_sat n Q)) (\<lambda>_. store_sat n Q) w" if "store_sat n Q w" for w
    proof -
      have "post (verifyDanceOrigin cb meta) (\<lambda>_. store_sat n Q) (\<lambda>_. store_sat n Q) w"
        using steps_kept(7) that by (simp add: keeps_post)
      then show ?thesis
        by (rule post_mono) (use post_InrD [OF origin_post [OF True]] none in \<open>auto simp: origin_ok_def\<close>)
    qed
    then show ?thesis by (simp add: keeps_post)
  qed (auto intro!: keep_rules steps_kept that)
  note origin = this
  show ?thesis
    using True unfolding CompleteDance_def
    by (simp, intro origin keep_rules steps_kept issue_code_kept) auto
qed (auto simp: CompleteDance_def intro!: keep_rules steps_kept)

lemma dances_kept: "keeps (store_sat n Q) (StartDance segment token ticket binding)" "keeps (store_sat n Q) (RedeemDanceCode code p)"
  "keeps (store_sat n Q) (MintLinkTicket uid segment)" "keeps (store_sat n Q) (CompleteLink lcmd)"
proof -
  show "keeps (store_sat n Q) (StartDance segment token ticket binding)" by (rule apart_sat [OF apart_StartDance])
  show "keeps (store_sat n Q) (RedeemDanceCode code p)"
    by (auto simp: RedeemDanceCode_def intro!: keep_rules taken_kept)
  show "keeps (store_sat n Q) (MintLinkTicket uid segment)"
    by (auto simp: MintLinkTicket_def intro!: keep_rules steps_kept put_kept)
  show "keeps (store_sat n Q) (CompleteLink lcmd)"
    by (auto simp: CompleteLink_def refuseLink_def intro!: keep_rules steps_kept taken_kept)
qed

lemma forget_kept: "keeps S m \<Longrightarrow> keeps S (forget m)" for m :: "'b op"
  by (auto simp: forget_def intro!: keep_rules)

lemma requests_kept: "keeps (store_sat n Q) (serve_access r)"
proof (cases "\<exists>segment token ticket binding cb meta code p uid lcmd. r \<in> {BeginDance segment token ticket binding, FinishDance cb meta,
    RedeemCode code p, MintTicket uid segment, RedeemLink lcmd}")
  case True
  then show ?thesis by (auto intro!: forget_kept dances_kept complete_kept)
next
  case False
  then have "apart (serve_access r)" by (cases r) (auto intro!: apart_rules)
  then show ?thesis by (rule apart_sat)
qed

lemma sequences_kept: "store_sat n Q w \<Longrightarrow> store_sat n Q (serve_all rs w)"
  using requests_kept by (induction rs arbitrary: w) (auto simp: keeps_def)

end

end
