(* ===== verification/DanceSafety.thy ===== *)
theory DanceSafety
  imports DanceStore
begin

text \<open>
  What makes the browser dance safe: the signed state names one provider and one attempt,
  a callback that is not the answer to a dance of this deployment changes nothing, a
  one-time code is spent once and only by the browser it was minted for, and an identity
  is attached to the account that asked for it and to no other.
\<close>

section \<open>The signed state\<close>

lemma field_cancel:
  assumes "show_nat (length f) @ stateSignatureSeparator # f @ u = show_nat (length g) @ stateSignatureSeparator # g @ v"
  shows "f = g \<and> u = v"
proof -
  have "\<forall>c \<in> set (show_nat m). of_char c \<in> {48..57::nat}" for m by (rule show_nat_digits)
  from span_cancel [OF assms this this] have "show_nat (length f) = show_nat (length g)" "f @ u = g @ v"
    by (auto simp: stateSignatureSeparator_def)
  then show ?thesis by (simp add: show_nat_inj)
qed

lemma signature_input_inj: "signature_input fs = signature_input gs \<longleftrightarrow> fs = gs"
proof
  assume "signature_input fs = signature_input gs"
  then show "fs = gs"
  proof (induction fs arbitrary: gs)
    case Nil
    then show ?case by (cases gs) (simp_all add: signature_input_def)
  next
    case (Cons f fs)
    then obtain g hs where gs: "gs = g # hs" by (cases gs) (auto simp: signature_input_def)
    with Cons.prems have "f = g \<and> signature_input fs = signature_input hs"
      by (intro field_cancel) (simp add: signature_input_def)
    with Cons.IH gs show ?case by simp
  qed
qed simp

lemma show_int_no_dot: "stateSignatureSeparator \<notin> set (show_int i)"
  using show_nat_digits [of "nat i"] show_nat_digits [of "nat (- i)"]
  by (auto simp: show_int_def stateSignatureSeparator_def split: if_splits)

lemma cut_first: "c \<notin> set a \<Longrightarrow> cut c (a @ c # b) = Some (a, b)"
  by (induction a) (auto simp: cut_def)

lemma show_nat_head: "\<exists>c cs. show_nat n = c # cs \<and> c \<noteq> CHR ''-'' \<and> c \<noteq> CHR ''+''"
proof -
  have "show_nat n \<noteq> []" by (simp add: show_nat.simps [of n])
  then obtain c cs where "show_nat n = c # cs" by (cases "show_nat n") auto
  with show_nat_digits [of n] show ?thesis by auto
qed

lemma parse_digits_show: "parse_digits (show_nat n) = Some n"
  using show_nat_digits [of n] show_nat_head [of n] by (auto simp: parse_digits_def show_nat_value list_all_iff)

lemma parse_int64_show: "- (2 ^ 63) \<le> i \<Longrightarrow> i < 2 ^ 63 \<Longrightarrow> parse_int64 (show_int i) = Some i"
proof (cases "i < 0")
  case False
  moreover obtain c cs where "show_nat (nat i) = c # cs" "c \<noteq> CHR ''-''" "c \<noteq> CHR ''+''" using show_nat_head by blast
  moreover have "parse_digits (show_nat (nat i)) = Some (nat i)" by (rule parse_digits_show)
  ultimately show "- (2 ^ 63) \<le> i \<Longrightarrow> i < 2 ^ 63 \<Longrightarrow> ?thesis" by (simp add: parse_int64_def show_int_def)
qed (simp add: parse_int64_def show_int_def parse_digits_show)

lemma time_Unix_in_range:
  "- (2 ^ 63) \<le> sec + unix_to_internal \<Longrightarrow> sec + unix_to_internal < 2 ^ 63 \<Longrightarrow> time_Unix sec = sec * second"
  by (simp add: time_Unix_def i64_id)

section \<open>Spent and bound entries\<close>

definition code_spent :: "nat \<Rightarrow> string \<Rightarrow> env \<Rightarrow> dance_code entries \<Rightarrow> link_intent entries \<Rightarrow> pending_link entries \<Rightarrow> bool" where
  "code_spent n k e cs ts ls \<longleftrightarrow> (\<forall>t s. n \<le> t \<longrightarrow> au_dance_secret (e_auth e) t = Inr s \<longrightarrow> codeKey e s \<noteq> k) \<and> k \<notin> fst ` set cs"

definition link_spent :: "nat \<Rightarrow> string \<Rightarrow> env \<Rightarrow> dance_code entries \<Rightarrow> link_intent entries \<Rightarrow> pending_link entries \<Rightarrow> bool" where
  "link_spent n k e cs ts ls \<longleftrightarrow> (\<forall>t s. n \<le> t \<longrightarrow> au_dance_secret (e_auth e) t = Inr s \<longrightarrow> linkCodeKey e s \<noteq> k) \<and> k \<notin> fst ` set ls"

lemma kv_simps: "fst ` set (kv_del k xs) = fst ` set xs - {k}" "k' \<noteq> k \<Longrightarrow> k \<notin> fst ` set xs \<Longrightarrow> k \<notin> fst ` set (kv_put k' v until xs)"
  "k \<notin> fst ` set xs \<Longrightarrow> kv_get k now xs = None"
  "kv_get k now (kv_put k v until xs) = (if now < until then Some v else None)"
  by (auto simp: kv_del_def kv_put_def kv_get_def find_None_iff) force

interpretation spent_code: dance_store n "code_spent n k" for n k
  by unfold_locales (auto simp: code_spent_def kv_simps)

interpretation spent_link: dance_store n "link_spent n k" for n k
  by unfold_locales (auto simp: link_spent_def kv_simps)

lemma dance_redeem_run: "RedeemDanceCode code p w = (case fault (w_env w) (w_tick w) of Some err \<Rightarrow> (Inl err, tick w)
   | None \<Rightarrow> (Inr (case kv_get (codeKey (w_env w) code) (clock (w_env w) (w_tick w)) (w_codes w) of None \<Rightarrow> None
       | Some d \<Rightarrow> if danceBindingProven (w_env w) (dc_binding d) p then Some (dc_pair d) else None),
       (tick w)\<lparr>w_codes := kv_del (codeKey (w_env w) code) (w_codes w)\<rparr>))"
  by (simp add: RedeemDanceCode_def ConsumeCode_def store_call_def op_defs split: option.split)

lemma post_then: "(\<And>a w1. post (f a) R (\<lambda>_ _. True) w1) \<Longrightarrow> post (obind m f) R (\<lambda>_ _. True) w"
  by (auto intro: postI)

text \<open>What a completed dance leaves in the store: the entry under the code it returned, bound to the browser of the callback.\<close>

definition stored_last :: "dance_callback \<Rightarrow> dance_outcome \<Rightarrow> world \<Rightarrow> bool" where
  "stored_last cb out w \<longleftrightarrow> (case out of
       DanceCode c \<Rightarrow> \<exists>pair rest t. w_tick w = Suc t \<and> w_codes w = kv_put (codeKey (w_env w) c) \<lparr>dc_pair = pair, dc_binding = cb_binding cb\<rparr> (clock (w_env w) t + codeTTL) rest
     | DanceLinkCode c \<Rightarrow> \<exists>uid claims rest t. w_tick w = Suc t \<and> w_links w = kv_put (linkCodeKey (w_env w) c)
         \<lparr>pl_user = uid, pl_provider = cb_provider cb, pl_claims = claims, pl_binding = cb_binding cb\<rparr> (clock (w_env w) t + codeTTL) rest)"

lemma put_stored:
  "post (obind newDanceSecret (\<lambda>c. osequel (PutCode c \<lparr>dc_pair = pair, dc_binding = cb_binding cb\<rparr>) (ret (DanceCode c)))) (stored_last cb) (\<lambda>_ _. True) w"
  "post (obind newDanceSecret (\<lambda>c. osequel (PutLinkCode c \<lparr>pl_user = uid, pl_provider = cb_provider cb, pl_claims = claims, pl_binding = cb_binding cb\<rparr>)
     (ret (DanceLinkCode c)))) (stored_last cb) (\<lambda>_ _. True) w"
  by (auto simp: post_secret PutCode_def PutLinkCode_def post_store_call stored_last_def split: option.split sum.split)

lemma park_stored: "post (parkLink (cb_provider cb) ticket claims (cb_binding cb) meta) (stored_last cb) (\<lambda>_ _. True) w"
proof -
  have "post (osequel (publishLinkRefused meta) (raise ErrLinkTicketUnusable)) (stored_last cb) (\<lambda>_ _. True) w" for w
    by (auto intro: postI)
  with put_stored(2) show ?thesis unfolding parkLink_def by (intro post_then) (auto split: option.split simp del: post_obind)
qed

lemma issue_stored: "post (issueDanceCode (cb_provider cb) credential cb meta) (stored_last cb) (\<lambda>_ _. True) w"
proof -
  have "post (obind a (\<lambda>i. obind (b i) (\<lambda>found. obind (c i found) (\<lambda>u. obind (d u) (\<lambda>pair. obind newDanceSecret (\<lambda>code.
      osequel (PutCode code \<lparr>dc_pair = pair, dc_binding = cb_binding cb\<rparr>) (ret (DanceCode code)))))))) (stored_last cb) (\<lambda>_ _. True) w"
    for a :: "resolved_invitation option op" and b :: "_ \<Rightarrow> user op" and c :: "_ \<Rightarrow> _ \<Rightarrow> user op" and d w
    by (rule post_then, rule post_then, rule post_then, rule post_then, rule put_stored)
  with park_stored show ?thesis
    unfolding issueDanceCode_def by (intro post_then) (simp del: post_obind)
qed

lemma complete_stored: "post (CompleteDance cb meta) (stored_last cb) (\<lambda>_ _. True) w"
proof (cases "cb_error cb = []")
  case True
  then have "post (CompleteDance cb meta) (stored_last cb) (\<lambda>_ _. True) w = post (verifyDanceOrigin cb meta) (\<lambda>p. post (osequel (danceGatewayFor p)
      (obind (ocatch (Exchange p (cb_code cb) (cb_verifier cb)) (\<lambda>_. osequel (publishLoginFailure (blank_user [] []) meta FailureProviderUnavailable)
        (raise ErrOAuthExchangeFailed))) (\<lambda>credential. issueDanceCode p credential cb meta))) (stored_last cb) (\<lambda>_ _. True)) (\<lambda>_ _. True) w"
    by (simp add: CompleteDance_def)
  also have \<dots>
    by (rule post_weaken [OF origin_post [OF True]]) (auto simp: osequel_def simp del: post_obind post_osequel intro!: post_then issue_stored)
  finally show ?thesis .
next
  case False
  then show ?thesis unfolding CompleteDance_def by (auto simp del: post_obind post_osequel simp: osequel_def intro!: post_then)
qed

section \<open>Refused callbacks and link callbacks\<close>

lemma off_tables_catch: "off_tables n \<Longrightarrow> (\<And>e. off_tables (h e)) \<Longrightarrow> off_tables (ocatch n h)"
  unfolding off_tables_keeps by (auto intro!: keep_rules)

lemma off_tables_parts: "off_tables (auth_publishAudit a)" "off_tables (publishLoginFailure u meta reason)" "off_tables (publishLinkRefusedFor uid meta reason)"
  "off_tables (publishLinkRefused meta)" "off_tables (publishLinked uid meta)" "off_tables (DanceProvider segment)" "off_tables (danceGatewayFor provider)"
  "off_tables (isOurDance cb)" "off_tables (verifyDanceOrigin cb meta)" "off_tables (verifyProviderCredential provider credential)"
  "off_tables (parkLink provider ticket claims binding meta)"
proof -
  show publish: "off_tables (auth_publishAudit a)" for a
    by (simp add: off_tables_def auth_publishAudit_def user_publishAudit_def split: option.split)
  show "off_tables (publishLoginFailure u meta reason)" "off_tables (publishLinkRefusedFor uid meta reason)" "off_tables (publishLinkRefused meta)"
    "off_tables (publishLinked uid meta)"
    by (auto simp: publishLoginFailure_def publishLinkRefusedFor_def publishLinkRefused_def publishLinked_def intro!: off_tables_ops publish)
  show "off_tables (DanceProvider segment)" "off_tables (danceGatewayFor provider)" "off_tables (isOurDance cb)" "off_tables (verifyDanceOrigin cb meta)"
    "off_tables (verifyProviderCredential provider credential)" "off_tables (parkLink provider ticket claims binding meta)"
    by (auto simp: DanceProvider_def danceGatewayFor_def isOurDance_def verifyDanceOrigin_def refuseDance_def verifyProviderCredential_def methods_Get_def
        parkLink_def publishLoginFailure_def publishLinkRefusedFor_def publishLinkRefused_def Let_def
        intro!: off_tables_ops off_tables_catch off_tables_base off_tables_dance publish)
qed

lemma untouched_post: "apart m \<Longrightarrow> off_tables m \<Longrightarrow> post m R (\<lambda>_ _. True) w \<Longrightarrow> post m R (\<lambda>_ w'. w_db w' = w_db w \<and> same_store w w') w"
  unfolding apart_def off_tables_def post_def by (auto split: prod.split sum.split) (metis snd_conv)+

lemma refused_post:
  assumes "\<not> origin_ok cb (w_env w) (clock (w_env w) (Suc (w_tick w)))"
  shows "post (CompleteDance cb meta) (\<lambda>_ _. False) (\<lambda>_ w'. w_db w' = w_db w \<and> same_store w w') w"
proof (cases "cb_error cb = []")
  case True
  have "post (verifyDanceOrigin cb meta) (\<lambda>_ _. False) (\<lambda>_ _. True) w"
    by (rule post_weaken [OF origin_post [OF True]]) (use assms in auto)
  from untouched_post [OF apart_dance_parts(7) off_tables_parts(9) this] show ?thesis
    using True by (auto simp: CompleteDance_def elim!: post_weaken)
next
  case False
  have "apart (CompleteDance cb meta)" "off_tables (CompleteDance cb meta)"
    using False by (auto simp: CompleteDance_def intro!: apart_rules apart_dance_parts off_tables_ops off_tables_parts)
  moreover have "post (CompleteDance cb meta) (\<lambda>_ _. False) (\<lambda>_ _. True) w"
    using False unfolding CompleteDance_def by (auto simp del: post_obind post_osequel simp: osequel_def intro!: post_then)
  ultimately show ?thesis by (rule untouched_post)
qed

lemma link_callback_off: "cb_ticket cb \<noteq> [] \<Longrightarrow> off_tables (CompleteDance cb meta)"
  by (auto simp: CompleteDance_def issueDanceCode_def intro!: off_tables_ops off_tables_catch off_tables_dance off_tables_parts)

lemma link_callback_codes: "cb_ticket cb \<noteq> [] \<Longrightarrow> keeps (\<lambda>w. w_codes w = cs) (CompleteDance cb meta)"
proof -
  have from_apart: "keeps (\<lambda>w. w_codes w = cs) m" if "apart m" for m :: "'b op"
    using that by (simp add: apart_def same_store_def keeps_def)
  have "keeps (\<lambda>w. w_codes w = cs) (ConsumeLinkTicket c)" "keeps (\<lambda>w. w_codes w = cs) (PutLinkCode c l)" for c l
    by (simp_all add: keeps_def ConsumeLinkTicket_def PutLinkCode_def store_call_def split: option.split)
  then have "keeps (\<lambda>w. w_codes w = cs) (parkLink provider ticket claims binding meta)" for provider ticket claims binding
    unfolding parkLink_def by (auto intro!: keep_rules apart_dance_parts [THEN from_apart] apart_readings [THEN from_apart])
  then show "cb_ticket cb \<noteq> [] \<Longrightarrow> ?thesis"
    unfolding CompleteDance_def issueDanceCode_def
    by (auto intro!: keep_rules apart_dance_parts [THEN from_apart] apart_readings [THEN from_apart] apart_audits [THEN from_apart])
qed

lemma link_callback_outcome: "cb_ticket cb \<noteq> [] \<Longrightarrow> post (CompleteDance cb meta) (\<lambda>out _. \<exists>c. out = DanceLinkCode c) (\<lambda>_ _. True) w"
proof -
  have "post (parkLink provider ticket claims binding meta) (\<lambda>out _. \<exists>c. out = DanceLinkCode c) (\<lambda>_ _. True) w" for provider ticket claims binding w
    by (auto simp: parkLink_def osequel_def simp del: post_obind post_osequel intro!: post_then split: option.split)
  then show "cb_ticket cb \<noteq> [] \<Longrightarrow> ?thesis"
    by (auto simp: CompleteDance_def issueDanceCode_def osequel_def simp del: post_obind post_osequel intro!: post_then)
qed

section \<open>Linking\<close>

lemma consume_link_run: "ConsumeLinkCode c w = (case fault (w_env w) (w_tick w) of Some err \<Rightarrow> (Inl err, tick w)
   | None \<Rightarrow> (Inr (kv_get (linkCodeKey (w_env w) c) (clock (w_env w) (w_tick w)) (w_links w)),
       (tick w)\<lparr>w_links := kv_del (linkCodeKey (w_env w) c) (w_links w)\<rparr>))"
  by (simp add: ConsumeLinkCode_def store_call_def split: option.split)

text \<open>The pending link a command may complete: live, bound to the browser that proves it, and asked for by the same account.\<close>

definition may_link :: "complete_link_cmd \<Rightarrow> world \<Rightarrow> pending_link option" where
  "may_link cmd w = (case kv_get (linkCodeKey (w_env w) (ck_code cmd)) (clock (w_env w) (w_tick w)) (w_links w) of None \<Rightarrow> None
     | Some l \<Rightarrow> if danceBindingProven (w_env w) (pl_binding l) (ck_proof cmd) \<and> pl_user l = ck_user cmd then Some l else None)"

lemma publish_refused_post: "post (osequel (publishLinkRefusedFor uid meta reason) (raise err)) (\<lambda>_ _. False)
    (\<lambda>x w'. x = err \<and> w_db w' = w_db w \<and> w_links w' = w_links w) w"
  by (simp add: publishLinkRefusedFor_def auth_publishAudit_def user_publishAudit_def post_def op_defs split: option.split)

lemma refused_link:
  assumes "fault (w_env w) (w_tick w) = None" "may_link cmd w = None"
  shows "post (CompleteLink cmd) (\<lambda>_ _. False) (\<lambda>err w'. err = ErrLinkCodeInvalid \<and> w_db w' = w_db w
    \<and> w_links w' = kv_del (linkCodeKey (w_env w) (ck_code cmd)) (w_links w)) w"
proof -
  let ?w1 = "(tick w)\<lparr>w_links := kv_del (linkCodeKey (w_env w) (ck_code cmd)) (w_links w)\<rparr>"
  have "post (osequel (publishLinkRefusedFor uid (ck_meta cmd) FailureLinkUnusable) (raise ErrLinkCodeInvalid)) (\<lambda>_ _. False)
      (\<lambda>err w'. err = ErrLinkCodeInvalid \<and> w_db w' = w_db w \<and> w_links w' = w_links ?w1) ?w1" for uid
    by (rule post_weaken [OF publish_refused_post]) simp_all
  then show ?thesis
    using assms by (auto simp: CompleteLink_def publishLinkRefused_def may_link_def post_def [of "ConsumeLinkCode (ck_code cmd)"] consume_link_run
        simp del: post_osequel split: option.splits if_splits)
qed

lemma insert_identity_post: "post (identities_Create r) (\<lambda>_ w'. \<exists>i \<in> set (a_identities (d_auth (w_db w'))).
    idn_user i = idn_user r \<and> idn_integration i = idn_integration r \<and> idn_subject i = idn_subject r) (\<lambda>_ _. True) w"
  by (auto simp: identities_Create_def post_db_call identity_insert_def Let_def split: option.split sum.split)

lemma link_tx_post: "post (link_tx uid iid info) (\<lambda>_ w'. \<exists>i \<in> set (a_identities (d_auth (w_db w'))).
    idn_user i = uid \<and> idn_integration i = iid \<and> idn_subject i = pi_subject info) (\<lambda>_ _. True) w"
proof -
  have "post (osequel (identities_Create (new_identity uid iid (pi_subject info) (pi_email info))) (ret ())) (\<lambda>_ w'. \<exists>i \<in> set (a_identities (d_auth (w_db w'))).
      idn_user i = uid \<and> idn_integration i = iid \<and> idn_subject i = pi_subject info) (\<lambda>_ _. True) w" for w
    using insert_identity_post [of "new_identity uid iid (pi_subject info) (pi_email info)" w] by (simp add: new_identity_def)
  then show ?thesis
    unfolding link_tx_def by (auto simp del: post_obind post_osequel intro!: post_then split: option.split)
qed

lemma link_tx_db_only: "db_only (link_tx uid iid info)"
  by (auto simp: link_tx_def GetForUpdateByID_def user_or_not_found_def optional_def GetByMethodSubject_def GetByUserAndMethod_def
      identities_get_def identities_Create_def auth_query_def intro!: db_only_rules)

lemma integration_post: "post (integrationID p) (\<lambda>iid w'. same_tables w w' \<and> (\<exists>g \<in> set (a_integrations (d_auth (w_db w))). itg_id g = iid \<and> itg_name g = p))
    (\<lambda>_ w'. same_tables w w') w"
  by (auto simp: integrationID_def ResolveID_def GetByKindName_def post_auth_query dest!: find_member split: option.split)

lemma link_identity_post:
  assumes "w_tx w = None"
  shows "post (LinkIdentity uid p info) (\<lambda>_ w'. w_links w' = w_links w \<and> (\<exists>i \<in> set (a_identities (d_auth (w_db w'))).
      idn_user i = uid \<and> idn_subject i = pi_subject info \<and> named (a_integrations (d_auth (w_db w))) p i)) (\<lambda>_ w'. w_links w' = w_links w \<and> w_db w' = w_db w) w"
proof (rule postI)
  have store: "same_store w w'" if "LinkIdentity uid p info w = (r, w')" for r w'
    using apartD [OF apart_identities(1) that] .
  {
    fix e w' assume run: "LinkIdentity uid p info w = (Inl e, w')"
    obtain r1 w1 where 1: "integrationID p w = (r1, w1)" by fastforce
    then have same: "same_tables w w1" using integration_post [of p w] by (cases r1) (auto dest: post_InrD post_InlD)
    have "w_db w' = w_db w"
    proof (cases r1)
      case (Inr iid)
      with run 1 have "WithinTx (link_tx uid iid info) w1 = (Inl e, w')" by (simp add: LinkIdentity_def obind_def)
      then show ?thesis
        by (rule WithinTx_cases [OF _ _ link_tx_db_only]) (use same assms in \<open>auto simp: same_tables_def\<close>)
    qed (use run 1 same in \<open>simp add: LinkIdentity_def obind_def same_tables_def\<close>)
    with store [OF run] show "w_links w' = w_links w \<and> w_db w' = w_db w" by (simp add: same_store_def)
  next
    fix a w' assume run: "LinkIdentity uid p info w = (Inr a, w')"
    then obtain iid w1 where 1: "integrationID p w = (Inr iid, w1)" and 2: "WithinTx (link_tx uid iid info) w1 = (Inr a, w')"
      by (auto simp: LinkIdentity_def obind_def split: prod.splits sum.splits)
    from post_InrD [OF integration_post 1] have same: "same_tables w w1"
      and reg: "\<exists>g \<in> set (a_integrations (d_auth (w_db w))). itg_id g = iid \<and> itg_name g = p" by auto
    from 2 have "\<exists>i \<in> set (a_identities (d_auth (w_db w'))). idn_user i = uid \<and> idn_integration i = iid \<and> idn_subject i = pi_subject info"
      by (rule WithinTx_cases [OF _ _ link_tx_db_only]) (use same assms post_InrD [OF link_tx_post] in \<open>auto simp: same_tables_def\<close>)
    with reg store [OF run] show "w_links w' = w_links w \<and> (\<exists>i \<in> set (a_identities (d_auth (w_db w'))).
        idn_user i = uid \<and> idn_subject i = pi_subject info \<and> named (a_integrations (d_auth (w_db w))) p i)"
      unfolding named_def same_store_def by (metis (no_types, lifting))
  }
qed

lemma allowed_link:
  assumes "w_tx w = None" "fault (w_env w) (w_tick w) = None" "may_link cmd w = Some l"
  shows "post (CompleteLink cmd) (\<lambda>_ w'. (\<exists>i \<in> set (a_identities (d_auth (w_db w'))). idn_user i = ck_user cmd
      \<and> idn_subject i = oc_subject (pl_claims l) \<and> named (a_integrations (d_auth (w_db w))) (pl_provider l) i)
      \<and> w_links w' = kv_del (linkCodeKey (w_env w) (ck_code cmd)) (w_links w))
    (\<lambda>_ w'. w_db w' = w_db w \<and> w_links w' = kv_del (linkCodeKey (w_env w) (ck_code cmd)) (w_links w)) w"
proof -
  let ?w1 = "(tick w)\<lparr>w_links := kv_del (linkCodeKey (w_env w) (ck_code cmd)) (w_links w)\<rparr>"
    and ?info = "\<lparr>pi_subject = oc_subject (pl_claims l), pi_email = oc_email (pl_claims l), pi_name = oc_name (pl_claims l)\<rparr>"
  from assms(3) have l: "kv_get (linkCodeKey (w_env w) (ck_code cmd)) (clock (w_env w) (w_tick w)) (w_links w) = Some l"
    "danceBindingProven (w_env w) (pl_binding l) (ck_proof cmd)" "pl_user l = ck_user cmd"
    by (auto simp: may_link_def split: option.splits if_splits)
  have refuse: "post (refuseLink uid meta err) R (\<lambda>_ w'. w_db w' = w_db v \<and> w_links w' = w_links v) v" for uid meta err R v
    by (simp add: refuseLink_def publishLinkRefused_def publishLinkRefusedFor_def auth_publishAudit_def user_publishAudit_def post_def op_defs split: option.split)
  have linked: "post (publishLinked uid meta) (\<lambda>_ w'. w_db w' = w_db v \<and> w_links w' = w_links v) (\<lambda>_ _. False) v" for uid meta v
    by (simp add: publishLinked_def auth_publishAudit_def user_publishAudit_def post_def split: option.split)
  have "post (LinkIdentity (pl_user l) (pl_provider l) ?info) (\<lambda>_ w'. w_links w' = w_links ?w1 \<and> (\<exists>i \<in> set (a_identities (d_auth (w_db w'))).
      idn_user i = pl_user l \<and> idn_subject i = oc_subject (pl_claims l) \<and> named (a_integrations (d_auth (w_db w))) (pl_provider l) i))
      (\<lambda>_ w'. w_links w' = w_links ?w1 \<and> w_db w' = w_db w) ?w1"
    using link_identity_post [of ?w1 "pl_user l" "pl_provider l" ?info] assms(1) by simp
  then show ?thesis
    using assms(2) l by (auto simp: CompleteLink_def post_def [of "ConsumeLinkCode (ck_code cmd)"] consume_link_run
        elim!: post_weaken intro!: post_weaken [OF refuse] post_weaken [OF linked])
qed

interpretation fixed_env: dance_store 0 "\<lambda>e _ _ _. e = e0" for e0
  by unfold_locales

lemma env_served: "w_env (serve_all rs w) = w_env w"
  using fixed_env.sequences_kept [of "w_env w" w rs] by (simp add: store_sat_def)

lemma env_danced: "w_env (snd (CompleteDance cb meta w)) = w_env w"
  using fixed_env.complete_kept [of "w_env w" cb meta] by (simp add: store_sat_def keeps_def)

section \<open>Properties\<close>

text \<open>C16. The signed state names one attempt: a state this deployment signed for a provider
  verifies exactly for that provider and that state, and until the second its lifetime
  ends, provided the two messages compared do not collide under the MAC and the expiry is
  an instant Go can represent. The three fields cannot be shifted into each other, because
  each travels behind its length.\<close>

theorem dance_state_exact:
  assumes "- (2 ^ 63) \<le> unix_seconds exp" "unix_seconds exp + unix_to_internal < 2 ^ 63"
    and "au_state_mac (e_auth e) (signature_input [provider', state', show_int (unix_seconds exp)])
        = au_state_mac (e_auth e) (signature_input [provider, state, show_int (unix_seconds exp)]) \<Longrightarrow>
      signature_input [provider', state', show_int (unix_seconds exp)] = signature_input [provider, state, show_int (unix_seconds exp)]"
  shows "state_Verify e (state_Sign e provider state exp) provider' state' now
    \<longleftrightarrow> provider' = provider \<and> state' = state \<and> now < unix_seconds exp * second"
proof -
  let ?u = "show_int (unix_seconds exp)"
  have "cut stateSignatureSeparator (state_Sign e provider state exp) = Some (?u, state_signature e provider state ?u)"
    by (simp add: state_Sign_def Let_def cut_first [OF show_int_no_dot])
  moreover have "parse_int64 ?u = Some (unix_seconds exp)"
    using assms(1,2) by (intro parse_int64_show) (simp_all add: unix_to_internal_def)
  moreover have "time_Unix (unix_seconds exp) = unix_seconds exp * second"
    using assms(1,2) by (intro time_Unix_in_range) (simp_all add: unix_to_internal_def)
  moreover have "state_signature e provider state ?u = state_signature e provider' state' ?u \<longleftrightarrow> provider' = provider \<and> state' = state"
    using assms(3) signature_input_inj by (auto simp: state_signature_def)
  ultimately show ?thesis by (auto simp: state_Verify_def)
qed

theorem dance_state_exact_witness:
  "state_Verify quiet_env (state_Sign quiet_env ''google'' ''st'' (7 * second)) ''google'' ''st'' 0
   \<and> \<not> state_Verify quiet_env (state_Sign quiet_env ''google'' ''st'' (7 * second)) ''googles'' ''t'' 0"
proof -
  have "unix_seconds (7 * second) = 7" by (simp add: unix_seconds_def second_def)
  then show ?thesis
    using dance_state_exact [of "7 * second" quiet_env "''google''" "''st''" "''google''" "''st''" 0]
      dance_state_exact [of "7 * second" quiet_env "''googles''" "''t''" "''google''" "''st''" 0]
    by (simp add: unix_to_internal_def quiet_env_def quiet_auth_def second_def)
qed

text \<open>C18. A callback that does not answer a dance of this deployment changes nothing: unless it
  carries no provider error, a state signed here for this provider and still valid, a
  verifier, a code and a browser binding, it is refused, and tables and dance store are as
  before.\<close>

theorem foreign_callback_changes_nothing:
  assumes "cb_error cb \<noteq> [] \<or> \<not> state_Verify (w_env w) (cb_signature cb) (cb_provider cb) (cb_state cb) (clock (w_env w) (Suc (w_tick w)))
      \<or> cb_verifier cb = [] \<or> cb_code cb = [] \<or> cb_binding cb = []"
  shows "(\<exists>err. fst (CompleteDance cb meta w) = Inl err) \<and> w_db (snd (CompleteDance cb meta w)) = w_db w
    \<and> w_codes (snd (CompleteDance cb meta w)) = w_codes w \<and> w_tickets (snd (CompleteDance cb meta w)) = w_tickets w
    \<and> w_links (snd (CompleteDance cb meta w)) = w_links w"
proof -
  have "\<not> origin_ok cb (w_env w) (clock (w_env w) (Suc (w_tick w)))" using assms by (auto simp: origin_ok_def)
  from refused_post [OF this, of meta] show ?thesis
    by (cases "CompleteDance cb meta w"; cases "fst (CompleteDance cb meta w)") (auto simp: post_def same_store_def)
qed

definition sample_callback :: dance_callback where
  "sample_callback = \<lparr>cb_provider = ''google'', cb_error = [], cb_state = ''st'', cb_code = ''s'', cb_signature = state_Sign quiet_env ''google'' ''st'' (100 * second),
     cb_verifier = ''v'', cb_ticket = [], cb_handle = [], cb_binding = ''b''\<rparr>"

definition sample_meta :: audit_meta where
  "sample_meta = meta_of [] [] LoginOIDC"

theorem foreign_callback_changes_nothing_witness:
  "\<exists>err. fst (CompleteDance (sample_callback\<lparr>cb_binding := []\<rparr>) sample_meta (quiet_world sample_accounts)) = Inl err"
  using foreign_callback_changes_nothing [of "sample_callback\<lparr>cb_binding := []\<rparr>" "quiet_world sample_accounts" sample_meta] by simp

text \<open>C15. A callback that carries a link ticket never signs anybody in: whatever happens, the
  tables and the stored sign-in codes are as before, and what it returns, if anything, is a
  link code.\<close>

theorem link_callback_never_signs_in:
  assumes "cb_ticket cb \<noteq> []"
  shows "w_db (snd (CompleteDance cb meta w)) = w_db w \<and> w_codes (snd (CompleteDance cb meta w)) = w_codes w
    \<and> fst (CompleteDance cb meta w) \<noteq> Inr (DanceCode c)"
proof -
  have "fst (CompleteDance cb meta w) \<noteq> Inr (DanceCode c)"
    using link_callback_outcome [OF assms, of meta w] by (auto simp: post_def split: prod.splits)
  with link_callback_off [OF assms, of meta] link_callback_codes [OF assms, of "w_codes w" meta] show ?thesis
    by (simp add: off_tables_def keeps_def)
qed

theorem link_callback_never_signs_in_witness:
  "fst (CompleteDance (sample_callback\<lparr>cb_ticket := ''t''\<rparr>) sample_meta (quiet_world sample_accounts)) \<noteq> Inr (DanceCode ''c'')"
  using link_callback_never_signs_in [of "sample_callback\<lparr>cb_ticket := ''t''\<rparr>" sample_meta "quiet_world sample_accounts" "''c''"] by simp

text \<open>C19. The code a completed dance returns is worth a session to one browser: while it lives, it
  redeems the pair it was stored with for the nonce whose digest is the binding of the
  callback, and nothing for any other.\<close>

theorem dance_code_redeems_for_its_browser:
  assumes "CompleteDance cb meta w = (Inr (DanceCode code), w')" "fault (w_env w') (w_tick w') = None"
    "clock (w_env w') (w_tick w') < clock (w_env w') (w_tick w' - 1) + codeTTL"
  shows "\<exists>pair. \<forall>p. fst (RedeemDanceCode code p w') = Inr (if p \<noteq> [] \<and> au_binding_of (e_auth (w_env w')) p = cb_binding cb then Some pair else None)"
proof -
  from post_InrD [OF complete_stored assms(1)] obtain pair rest t where t: "w_tick w' = Suc t"
    and "w_codes w' = kv_put (codeKey (w_env w') code) \<lparr>dc_pair = pair, dc_binding = cb_binding cb\<rparr> (clock (w_env w') t + codeTTL) rest"
    by (auto simp: stored_last_def)
  then have get: "kv_get (codeKey (w_env w') code) (clock (w_env w') (w_tick w')) (w_codes w') = Some \<lparr>dc_pair = pair, dc_binding = cb_binding cb\<rparr>"
    using assms(3) by (simp add: kv_simps)
  have "origin_ok cb (w_env w) (clock (w_env w) (Suc (w_tick w)))"
    using post_InrD [OF refused_post assms(1)] by blast
  then have "cb_binding cb \<noteq> []" by (simp add: origin_ok_def)
  with assms(2) get have "fst (RedeemDanceCode code p w') = Inr (if p \<noteq> [] \<and> au_binding_of (e_auth (w_env w')) p = cb_binding cb then Some pair else None)" for p
    by (simp add: dance_redeem_run danceBindingProven_def)
  then show ?thesis by blast
qed

theorem dance_code_redeems_for_its_browser_witness:
  "fst (RedeemDanceCode ''aaaaaaaaaaaaaaaaaa'' ''b'' (snd (CompleteDance sample_callback sample_meta (quiet_world sample_accounts)))) \<noteq> Inr None"
proof -
  let ?r = "CompleteDance sample_callback sample_meta (quiet_world sample_accounts)"
  have "fst ?r = Inr (DanceCode ''aaaaaaaaaaaaaaaaaa'')" by code_simp
  then have run: "?r = (Inr (DanceCode ''aaaaaaaaaaaaaaaaaa''), snd ?r)" by (metis prod.collapse)
  have "w_env (snd ?r) = quiet_env" by (simp add: env_danced quiet_world_def)
  moreover have "w_tick (snd ?r) = 20" by code_simp
  ultimately show ?thesis
    using dance_code_redeems_for_its_browser [OF run]
    by (auto simp: quiet_env_def quiet_auth_def codeTTL_def second_def sample_callback_def)
qed

text \<open>C14. A sign-in code is spent by its first presentation: after it was answered, with a pair
  or without, no sequence of requests makes the same code worth a pair again, provided no
  secret drawn from then on has the code's digest.\<close>

theorem dance_code_single_use:
  assumes "fst (RedeemDanceCode code p w) = Inr r"
    "\<forall>t secret. w_tick w \<le> t \<longrightarrow> au_dance_secret (e_auth (w_env w)) t = Inr secret \<longrightarrow> sha256_hex (w_env w) secret \<noteq> sha256_hex (w_env w) code"
  shows "fst (RedeemDanceCode code p' (serve_all rs (snd (RedeemDanceCode code p w)))) \<noteq> Inr (Some pair)"
proof -
  let ?w1 = "snd (RedeemDanceCode code p w)" and ?k = "codeKey (w_env w) code"
  have env: "w_env ?w1 = w_env w" by (simp add: dance_redeem_run split: option.split)
  have "store_sat (w_tick w) (code_spent (w_tick w) ?k) ?w1"
    using assms by (auto simp: store_sat_def code_spent_def codeKey_def dance_redeem_run kv_simps split: option.splits)
  then have "store_sat (w_tick w) (code_spent (w_tick w) ?k) (serve_all rs ?w1)" by (rule spent_code.sequences_kept)
  then have gone: "?k \<notin> fst ` set (w_codes (serve_all rs ?w1))" by (simp add: store_sat_def code_spent_def)
  with env have "kv_get (codeKey (w_env (serve_all rs ?w1)) code) now (w_codes (serve_all rs ?w1)) = None" for now
    by (simp add: env_served kv_simps(3))
  then show ?thesis by (simp add: dance_redeem_run [of code p' "serve_all rs ?w1"] split: option.split)
qed

definition sample_pair :: token_pair where
  "sample_pair = \<lparr>tp_access = ''x'', tp_refresh = ''y'', tp_expires_in = 300, tp_session = 5, tp_session_expires_at = 0\<rparr>"

definition dance_world :: world where
  "dance_world = (quiet_world sample_accounts)\<lparr>w_tick := 20, w_codes := [(''oauth:code:aaa'', \<lparr>dc_pair = sample_pair, dc_binding = ''b''\<rparr>, 60 * second)],
     w_links := [(''oauth:linkcode:zzz'', \<lparr>pl_user = 2, pl_provider = ''google'',
       pl_claims = \<lparr>oc_subject = ''new'', oc_email = [], oc_name = [], oc_email_verified = True\<rparr>, pl_binding = ''b''\<rparr>, 60 * second)]\<rparr>"

theorem dance_code_single_use_witness:
  "fst (RedeemDanceCode ''aaa'' ''b'' dance_world) = Inr (Some sample_pair)
   \<and> fst (RedeemDanceCode ''aaa'' ''b'' (serve_all [RedeemCode ''aaa'' ''x'', FinishDance sample_callback sample_meta]
     (snd (RedeemDanceCode ''aaa'' ''b'' dance_world)))) \<noteq> Inr (Some sample_pair)"
proof -
  have first: "fst (RedeemDanceCode ''aaa'' ''b'' dance_world) = Inr (Some sample_pair)" by code_simp
  have "sha256_hex (w_env dance_world) secret \<noteq> sha256_hex (w_env dance_world) ''aaa''"
    if "w_tick dance_world \<le> t" "au_dance_secret (e_auth (w_env dance_world)) t = Inr secret" for t secret
  proof -
    have "secret = replicate t (CHR 0x61)" "20 \<le> t" using that by (simp_all add: dance_world_def sample_defs)
    then have "length secret \<noteq> length ''aaa''" by simp
    then show ?thesis by (auto simp: dance_world_def sample_defs simp del: length_replicate)
  qed
  with first show ?thesis by (blast dest: dance_code_single_use)
qed

text \<open>C17. Linking is for the account that asked: a live link code attaches the verified identity
  to the account it was parked for, when that same account presents it from the browser
  that started the dance. Anything else is one indistinguishable refusal that leaves the
  tables alone, and the code is spent either way.\<close>

theorem link_only_for_its_owner:
  assumes "w_tx w = None" "fault (w_env w) (w_tick w) = None"
  shows "(case may_link cmd w of
      None \<Rightarrow> fst (CompleteLink cmd w) = Inl ErrLinkCodeInvalid \<and> w_db (snd (CompleteLink cmd w)) = w_db w
    | Some l \<Rightarrow> if fst (CompleteLink cmd w) = Inr ()
        then \<exists>i \<in> set (a_identities (d_auth (w_db (snd (CompleteLink cmd w))))). idn_user i = ck_user cmd
          \<and> idn_subject i = oc_subject (pl_claims l) \<and> named (a_integrations (d_auth (w_db w))) (pl_provider l) i
        else w_db (snd (CompleteLink cmd w)) = w_db w)
    \<and> kv_get (linkCodeKey (w_env w) (ck_code cmd)) now (w_links (snd (CompleteLink cmd w))) = None"
proof -
  obtain r w' where run: "CompleteLink cmd w = (r, w')" by fastforce
  have gone: "kv_get (linkCodeKey (w_env w) (ck_code cmd)) now (kv_del (linkCodeKey (w_env w) (ck_code cmd)) (w_links w)) = None"
    by (rule kv_simps(3)) (simp add: kv_simps(1))
  show ?thesis
  proof (cases "may_link cmd w")
    case None
    from refused_link [OF assms(2) None] run gone None show ?thesis by (cases r) (simp_all add: post_def)
  next
    case (Some l)
    from allowed_link [OF assms Some] run gone Some show ?thesis by (cases r) (simp_all add: post_def)
  qed
qed

definition sample_link :: "uuid \<Rightarrow> complete_link_cmd" where
  "sample_link uid = \<lparr>ck_user = uid, ck_code = ''zzz'', ck_proof = ''b'', ck_meta = sample_meta\<rparr>"

theorem link_only_for_its_owner_witness:
  "(\<exists>i \<in> set (a_identities (d_auth (w_db (snd (CompleteLink (sample_link 2) dance_world))))). idn_user i = 2 \<and> idn_subject i = ''new'')
   \<and> fst (CompleteLink (sample_link 1) dance_world) = Inl ErrLinkCodeInvalid"
proof -
  have start: "w_tx dance_world = None" "fault (w_env dance_world) (w_tick dance_world) = None"
    by (simp_all add: dance_world_def sample_defs)
  have ok: "fst (CompleteLink (sample_link 2) dance_world) = Inr ()" by code_simp
  have "map_option (\<lambda>l. oc_subject (pl_claims l)) (may_link (sample_link 2) dance_world) = Some ''new''"
    "may_link (sample_link 1) dance_world = None" by code_simp+
  then obtain l where l: "may_link (sample_link 2) dance_world = Some l" "oc_subject (pl_claims l) = ''new''"
    "may_link (sample_link 1) dance_world = None" by auto
  have "\<exists>i \<in> set (a_identities (d_auth (w_db (snd (CompleteLink (sample_link 2) dance_world))))). idn_user i = ck_user (sample_link 2) \<and> idn_subject i = ''new''"
    using link_only_for_its_owner [OF start, of "sample_link 2"] ok l(1,2) by auto
  moreover have "fst (CompleteLink (sample_link 1) dance_world) = Inl ErrLinkCodeInvalid"
    using link_only_for_its_owner [OF start, of "sample_link 1"] l(3) by simp
  ultimately show ?thesis by (simp add: sample_link_def)
qed

end
