(* ===== verification/Spec2Isabelle.thy ===== *)
theory Spec2Isabelle
  imports ChildTables LifecycleSpec DraftEdit Sweep AdminRace TokenChecks Retry InvitationClaims CodeSafety DanceSafety
begin

text \<open>
  MaintMode plans maintenance windows. A user drafts a maintenance with its steps,
  resources, notification targets, reminders and mentions; a reviewer approves it against
  the conflicts he was shown; it is started, its steps are taken, it is completed or
  cancelled, and every transition is audited and announced. Around it stand the accounts
  (roles, seats, sign-in providers), the ways into them (invitations, one-time codes,
  passwords, provider sign-ins) and the sessions (refresh-token chains, access tokens).
  This development models the Go code under \<open>src/internal\<close> that decides these things.

  \<^bold>\<open>How the program is represented.\<close> An operation of the code is a function from a world to
  a result and a world (\<open>op\<close> in \<open>Dbtx\<close>): \<open>Inl\<close> is the error the Go function returns, and
  a panic is an error value too. The world holds the tables, the audit trail, the
  deliveries, the revocation marks, the state a rollback would restore, and a counter of
  calls to the outside. The environment answers each of these calls by number: whether the
  statement failed and with which driver error, the clock, fresh identifiers, what a digest,
  a template, the task queue or the JWT library returns. A theorem over every environment
  is therefore a theorem over every schedule of failures. Instants are nanoseconds since
  1970 as integers and durations wrap like \<open>int64\<close> where the code adds them (\<open>Prelude\<close>);
  \<open>timestamptz\<close> columns keep microseconds. Columns, unique indexes, checks and foreign keys
  of the schema are written out in the store operations that meet them.

  \<^bold>\<open>The theories and what they model.\<close>
  \<^item> \<open>Prelude\<close>: the operation monad and its calculus of postconditions (\<open>post\<close>, \<open>keeps\<close>),
    loops over lists, the sort used by \<open>slices.SortFunc\<close>.
  \<^item> \<open>Entity\<close>, \<open>ConflictEntity\<close>, \<open>AuthEntity\<close>: \<open>internal/entity\<close>: statuses and transition
    tables, periods, maintenances, steps, conflicts and their fingerprint, commands, users,
    roles, seats, tags, tokens, identities.
  \<^item> \<open>Dbtx\<close>, \<open>Retry\<close>: \<open>internal/utils/dbtx\<close>: transactions, their nesting, the serializable
    retry.
  \<^item> \<open>MaintStore\<close>, \<open>Conflicts\<close>, \<open>NotifyTargets\<close>, \<open>Deferred\<close>: the stores under
    \<open>internal/storages\<close> (maintenances with children, conflicts, conflict snapshots, notify
    targets, deferred notifications) with the thin services over them.
  \<^item> \<open>MaintValidate\<close>, \<open>MaintService\<close>: \<open>internal/services/maint\<close>, one definition per function,
    the closures given to \<open>updateWithApply\<close> as definitions of their own.
  \<^item> \<open>Notify\<close>: \<open>internal/services/maintnotify\<close>, \<open>messaging/sender\<close> and the reminder worker.
  \<^item> \<open>TokenService\<close>: \<open>internal/storages/refreshtoken\<close>, \<open>blacklisttoken\<close>, \<open>services/token\<close>.
  \<^item> \<open>UserService\<close>, \<open>Identities\<close>: \<open>internal/storages/users\<close>, \<open>useridentities\<close>,
    \<open>services/user\<close>, the seats guard of \<open>services/license\<close>.
  \<^item> \<open>AuthSessions\<close>: \<open>internal/services/auth\<close>: token pairs, refresh, logout, introspection.
  \<^item> \<open>Invitations\<close>: \<open>internal/storages/userinvitations\<close>, \<open>services/invitation\<close> (issue, resend,
    revoke, preview, list, rotation, pruning) and its claimer, with the handles of invited
    sign-ins.
  \<^item> \<open>OneTimeCodes\<close>: \<open>internal/utils/xcripto\<close> (code generation), \<open>storages/authcredentials\<close>,
    \<open>services/otp\<close> (request, verify, prune).
  \<^item> \<open>SignIn\<close>: \<open>internal/services/auth\<close>: sign-ins with a code, a password, an invitation,
    verified claims and break-glass; changing and resetting a password; disconnecting a
    provider.
  \<^item> \<open>OAuthDance\<close>: the browser round trip to an identity provider: the login configuration of
    \<open>internal/services/authmethod\<close> (provider, snapshot, the building half of the reloader),
    the signed state, bindings and link tickets of \<open>services/auth\<close> (\<open>oauth_dance_state.go\<close>,
    \<open>dance_state_signer.go\<close>, \<open>dance_binding.go\<close>, \<open>oauth_dance_link.go\<close>, \<open>mint_link_ticket.go\<close>,
    \<open>complete_link.go\<close>) and the store \<open>storages/oauthdance\<close>.

  \<^bold>\<open>What is proved.\<close>
  \<^item> Maintenances as a state machine (\<open>MaintFrame\<close>, \<open>MaintRows\<close>, \<open>MaintMachine\<close>): each mutation
    interprets the contract \<open>guarded_change\<close>; the reachable states satisfy the lifecycle
    invariant, a failed request changes nothing, a request moves along the transition table,
    finished maintenances are final.
  \<^item> \<open>ServiceInvariant\<close> turns the effect of a request into an induction principle
    (\<open>service_invariant\<close>), interpreted for the order of steps (\<open>StepOrder\<close>), the resources of
    global maintenances and the reminders of drafts (\<open>ChildTables\<close>). \<open>LifecycleSpec\<close> is the
    abstract machine the service refines; \<open>DraftEdit\<close> what an edit replaces, through the
    contract \<open>child_table\<close> of the collections; \<open>Approval\<close> the gate of an approval and its
    reminders; \<open>Sweep\<close> the safety and the progress of the automatic cancellation.
  \<^item> Conflicts: the queries answer exactly, symmetrically and within their limit, and
    snapshots read back as saved (\<open>Conflicts\<close>); the digest comparison decides equality of
    what it covers (\<open>Approval\<close>).
  \<^item> Notifications: one message per target or none (\<open>Notify\<close>).
  \<^item> Accounts (\<open>TableInvariant\<close>, \<open>UserInvariant\<close>, \<open>AccountSafety\<close>): the contract
    \<open>account_invariant\<close> is interpreted for the last administrator, the seats cap and the
    identities. \<open>AccessInvariant\<close> extends it to the whole surface of access: \<open>serve_access\<close>
    serves every request on accounts, invitations, codes, passwords, sign-ins, dances and sessions,
    and \<open>access_invariant\<close> has one law per statement they issue; a predicate that satisfies
    the laws holds after any sequence of requests. \<open>AdminRace\<close> interleaves concurrent changes at their locks and shows that the
    guard holds and that the locks do not deadlock.
  \<^item> Sessions (\<open>SessionInvariant\<close>, \<open>SessionBehaviour\<close>, \<open>TokenChecks\<close>): a family is a chain
    with one live token, an ended session stays ended, what a refresh finds and stores, reuse
    detection, what blocking and logout cut, the prune, introspection.
  \<^item> Invitations (\<open>InvitationInvariant\<close>, \<open>InvitationClaims\<close>): two interpretations of
    \<open>access_invariant\<close> give one pending invitation per address and rows that only move
    forward; a claim spends an invitation once, grants its roles, and finds the seat the
    invitation had reserved.
  \<^item> Codes and passwords (\<open>CodeInvariant\<close>, \<open>CodeSafety\<close>): codes are uniform, the table keeps
    one live code and one password per account, verification answers exactly the reference
    \<open>verdict\<close>, a code is redeemed once, its guesses are bounded and not renewed by a new
    request, and a reset ends the account's sessions.

  \<^item> The browser dance (\<open>DanceStore\<close>, \<open>DanceSafety\<close>): every other operation is shown to leave
    the dance store alone, and \<open>dance_store\<close> is the contract of a predicate on its entries
    under every request, interpreted for spent codes and spent link codes. A signed state
    verifies for its own provider and attempt only; a foreign callback changes nothing; a
    callback with a link ticket never signs in; a code redeems for its browser and once; a
    link is completed only by the account that asked for it.

  \<^bold>\<open>Bounds.\<close> The loops of the code that are bounded by a constant are recursions on that
  constant: ten attempts of a serializable transaction (\<open>serializableMaxAttempts\<close>), a
  hundred batches of each prune and rotation (\<open>maxPruneBatches\<close>, \<open>drain\<close>). The draw of a
  one-time code repeats until the entropy source yields a value below the ceiling or fails:
  the environment gives the values it would read. All other loops run over a list and are
  structural; there is no fuel that could run out.

  \<^bold>\<open>Assumptions.\<close> Where a property needs something of a library (the task queue, the
  validation rules, the digest, \<open>uuid.Parse\<close>, the clock not running backwards, two messages not colliding under the MAC,
  later secrets not repeating a spent one), it is a named
  hypothesis of that property, and its witness shows an environment that meets it. Isolation
  between transactions is not assumed except in \<open>AdminRace\<close>, where the two kinds of lock
  exclude as PostgreSQL documents; the machine elsewhere serves one request at a time.

  \<^bold>\<open>Not modelled.\<close> The identity gateways (authorization URL, code exchange, authentication are
  functions of the environment) and the loop that reloads the login configuration (each load
  reads the registry rows the environment gives), the switches of sign-in methods (their
  answers are the environment's), the license heartbeat,
  integrations and secrets, the registry of resources and of channels: components that
  follow the same patterns. HTTP handlers, middlewares, configuration and wiring, the
  transports, rendering, generated clients and the web interface: input and output, with no
  state of their own beyond what is modelled. Read-only views (calendar, directory, audit
  list) do not change the tables. The hash functions, the sealing of codes for delivery and
  the bootstrap password check are functions of the environment. Logging, tracing and
  timing (the decoy hash of a refused password) have no effect in the model.
\<close>

end
